(* ===== verification/Palmod_Prelude.thy ===== *)
theory Palmod_Prelude
  imports
    Main
    "HOL-Library.Word"
    "HOL-Library.Char_ord"
    "HOL-Library.List_Lexorder"
    "HOL-Library.Monad_Syntax"
begin

text \<open>
  Shared vocabulary of the development.  A C++ \<^verbatim>\<open>std::string\<close> is a sequence of
  bytes and is modelled as a HOL \<^typ>\<open>string\<close> (a \<^typ>\<open>char\<close> has exactly the 256 byte
  values); raw memory and machine integers are words.  The theory holds the \<^verbatim>\<open><cctype>\<close>
  classifiers of the C locale, \<^verbatim>\<open>std::to_string\<close>, \<^verbatim>\<open>std::from_chars\<close>, and
  \<^verbatim>\<open>std::map\<close> as a strictly sorted association list, with the interface
  \<open>ordered_map\<close> that the components use it through.
\<close>

unbundle bit_operations_syntax

named_theorems cctype_defs \<open>definitions of the C locale's character classes\<close>
named_theorems smap_simps \<open>rewrite rules of the sorted association lists\<close>

type_synonym u8 = "8 word"
type_synonym u16 = "16 word"
type_synonym u32 = "32 word"
type_synonym u64 = "64 word"
type_synonym 'a outcome = "string + 'a"

abbreviation code :: "char \<Rightarrow> nat" where
  "code c \<equiv> of_char c"


section \<open>Machine words\<close>

lemma unat_u16: "unat (u :: u16) < 65536"
  using unsigned_less [of u, where ?'a = nat] by simp

lemma unat_u32: "unat (w :: u32) < 2 ^ 32"
  using unsigned_less [of w, where ?'a = nat] by simp

lemma unat_u64: "unat (w :: u64) < 2 ^ 64"
  using unsigned_less [of w, where ?'a = nat] by simp

lemma unat_ucast_32_64: "unat (ucast (w :: u32) :: u64) = unat w"
  using unat_u32 [of w] by (simp add: unsigned_ucast_eq take_bit_nat_eq_self)

lemma unat_ucast_64_32: "unat (ucast (w :: u64) :: u32) = unat w mod 2 ^ 32"
  by (simp add: unsigned_ucast_eq take_bit_eq_mod)

text \<open>Two bit fields side by side, as a number.\<close>

lemma unat_join:
  fixes a b :: "'a::len word"
  assumes "unat b < 2 ^ k" "unat a * 2 ^ k + unat b < 2 ^ LENGTH('a)"
  shows "unat (push_bit k a OR b) = unat a * 2 ^ k + unat b"
proof -
  have small: "b = take_bit k b"
    using assms(1) by (simp add: word_unat_eq_iff unsigned_take_bit_eq take_bit_nat_eq_self)
  have "\<not> bit b n" if "k \<le> n" for n
    using that by (subst small) (simp add: bit_take_bit_iff)
  then have "push_bit k a AND b = 0"
    by (intro bit_eqI) (auto simp: bit_and_iff bit_push_bit_iff)
  then have "push_bit k a OR b = push_bit k a + b"
    by (rule disjunctive_add_eq_or [symmetric])
  moreover have "unat (push_bit k a) = take_bit LENGTH('a) (unat a * 2 ^ k)"
    by (simp only: unsigned_push_bit_eq push_bit_eq_mult [of k "unat a"])
  then have "unat (push_bit k a) = unat a * 2 ^ k"
    using assms(2) by (simp add: take_bit_nat_eq_self)
  ultimately show ?thesis
    using assms(2) by (simp add: unat_word_ariths)
qed


section \<open>Characters of the C locale\<close>

definition isdigit :: "char \<Rightarrow> bool" where
  [cctype_defs]: "isdigit c \<longleftrightarrow> 48 \<le> code c \<and> code c \<le> 57"

definition islower :: "char \<Rightarrow> bool" where
  [cctype_defs]: "islower c \<longleftrightarrow> 97 \<le> code c \<and> code c \<le> 122"

definition isupper :: "char \<Rightarrow> bool" where
  [cctype_defs]: "isupper c \<longleftrightarrow> 65 \<le> code c \<and> code c \<le> 90"

definition isalpha :: "char \<Rightarrow> bool" where
  [cctype_defs]: "isalpha c \<longleftrightarrow> islower c \<or> isupper c"

definition isalnum :: "char \<Rightarrow> bool" where
  [cctype_defs]: "isalnum c \<longleftrightarrow> isalpha c \<or> isdigit c"

definition isspace :: "char \<Rightarrow> bool" where
  [cctype_defs]: "isspace c \<longleftrightarrow> code c = 32 \<or> (9 \<le> code c \<and> code c \<le> 13)"

definition tolower :: "char \<Rightarrow> char" where
  [cctype_defs]: "tolower c = (if isupper c then char_of (code c + 32) else c)"

definition lower :: "string \<Rightarrow> string" where
  "lower s = map tolower s"

lemma code_char_of [simp]: "n < 256 \<Longrightarrow> code (char_of n) = n"
  by simp

lemma char_of_eq_code: "n < 256 \<Longrightarrow> char_of n = c \<longleftrightarrow> n = code c"
  by (metis char_of_char code_char_of)

lemma code_tolower: "code (tolower c) = (if isupper c then code c + 32 else code c)"
  by (auto simp: cctype_defs)

lemma tolower_idem [simp]: "tolower (tolower c) = tolower c"
  by (auto simp: cctype_defs)

lemma lower_idem [simp]: "lower (lower s) = lower s"
  by (simp add: lower_def)

lemma length_lower [simp]: "length (lower s) = length s"
  by (simp add: lower_def)

lemma lower_eq_Nil [simp]: "lower s = [] \<longleftrightarrow> s = []"
  by (simp add: lower_def)


section \<open>Decimal text\<close>

definition digit_char :: "nat \<Rightarrow> char" where
  "digit_char d = char_of (48 + d)"

fun show_nat :: "nat \<Rightarrow> string" where
  "show_nat n = (if n < 10 then [digit_char n] else show_nat (n div 10) @ [digit_char (n mod 10)])"

declare show_nat.simps [simp del]

definition show_int :: "int \<Rightarrow> string" where
  "show_int i = (if i < 0 then CHR ''-'' # show_nat (nat (- i)) else show_nat (nat i))"

definition hex_value :: "char \<Rightarrow> nat option" where
  "hex_value c =
     (if isdigit c then Some (code c - 48)
      else if 97 \<le> code c \<and> code c \<le> 102 then Some (code c - 87)
      else if 65 \<le> code c \<and> code c \<le> 70 then Some (code c - 55)
      else None)"

definition base_digit :: "nat \<Rightarrow> char \<Rightarrow> nat option" where
  "base_digit base c =
     (case hex_value c of None \<Rightarrow> None | Some d \<Rightarrow> if d < base then Some d else None)"

fun digits_value :: "nat \<Rightarrow> nat \<Rightarrow> string \<Rightarrow> nat option" where
  "digits_value base acc [] = Some acc"
| "digits_value base acc (c # cs) =
     (case base_digit base c of None \<Rightarrow> None | Some d \<Rightarrow> digits_value base (acc * base + d) cs)"

text \<open>
  \<^verbatim>\<open>std::from_chars\<close> together with the callers' test that the conversion succeeded and
  consumed the whole token.  The unsigned form takes no sign; the signed one an optional
  minus; neither takes white space, a plus or a base prefix.
\<close>

definition from_chars_u64 :: "nat \<Rightarrow> string \<Rightarrow> u64 option" where
  "from_chars_u64 base tok =
     (if tok = [] then None
      else case digits_value base 0 tok of
             None \<Rightarrow> None
           | Some v \<Rightarrow> if v < 2 ^ 64 then Some (of_nat v) else None)"

definition int64_range :: "int \<Rightarrow> bool" where
  "int64_range i \<longleftrightarrow> - (2 ^ 63) \<le> i \<and> i < 2 ^ 63"

definition from_chars_i64 :: "string \<Rightarrow> int option" where
  "from_chars_i64 tok =
     (let (neg, ds) = (case tok of c # cs \<Rightarrow> if c = CHR ''-'' then (True, cs) else (False, tok)
                                 | [] \<Rightarrow> (False, []))
      in if ds = [] then None
         else case digits_value 10 0 ds of
                None \<Rightarrow> None
              | Some v \<Rightarrow> (let i = (if neg then - int v else int v)
                           in if int64_range i then Some i else None))"

lemma isdigit_digit_char [simp]: "d < 10 \<Longrightarrow> isdigit (digit_char d)"
  by (simp add: isdigit_def digit_char_def)

lemma base_digit_digit_char [simp]: "d < 10 \<Longrightarrow> base_digit 10 (digit_char d) = Some d"
  by (simp add: base_digit_def hex_value_def isdigit_def digit_char_def)

lemma show_nat_digits: "\<forall>c \<in> set (show_nat n). isdigit c"
proof (induction n rule: show_nat.induct)
  case (1 n)
  then show ?case
    by (subst show_nat.simps) auto
qed

lemma show_nat_nonempty [simp]: "show_nat n \<noteq> []"
  by (subst show_nat.simps) simp

lemma digits_value_append:
  "digits_value b acc (xs @ ys) =
     (case digits_value b acc xs of None \<Rightarrow> None | Some v \<Rightarrow> digits_value b v ys)"
  by (induction xs arbitrary: acc) (auto split: option.splits)

lemma digits_value_show_nat: "digits_value 10 0 (show_nat n) = Some n"
proof (induction n rule: show_nat.induct)
  case (1 n)
  then show ?case
    by (cases "n < 10") (subst show_nat.simps; simp add: digits_value_append)+
qed

text \<open>A decimal numeral starts with \<^verbatim>\<open>0\<close> only when it is the numeral of zero.\<close>

lemma show_nat_hd_zero: "hd (show_nat n) = CHR ''0'' \<longleftrightarrow> n = 0"
proof (induction n rule: show_nat.induct)
  case (1 n)
  show ?case
  proof (cases "n < 10")
    case True
    then have "n \<in> {0, 1, 2, 3, 4, 5, 6, 7, 8, 9}" by auto
    then show ?thesis by (subst show_nat.simps) (auto simp: digit_char_def char_of_eq_code)
  next
    case False
    then show ?thesis
      using 1 by (subst show_nat.simps) simp
  qed
qed

lemma show_nat_0 [simp]: "show_nat 0 = ''0''"
  by (subst show_nat.simps) (simp add: digit_char_def char_of_eq_code)

lemma from_chars_i64_show_int:
  assumes "int64_range i"
  shows "from_chars_i64 (show_int i) = Some i"
proof (cases "i < 0")
  case True
  with assms show ?thesis
    by (simp add: from_chars_i64_def show_int_def digits_value_show_nat)
next
  case False
  obtain c cs where cs: "show_nat (nat i) = c # cs"
    by (cases "show_nat (nat i)") auto
  have "isdigit c"
    using show_nat_digits [of "nat i"] by (simp add: cs)
  then have "c \<noteq> CHR ''-''"
    by (auto simp: isdigit_def)
  with False assms cs digits_value_show_nat [of "nat i"] show ?thesis
    by (simp add: from_chars_i64_def show_int_def)
qed


section \<open>Ordered maps\<close>

text \<open>
  \<^verbatim>\<open>std::map\<close> iterates in key order, which JSON printing and the plug-in traversals
  depend on, so it is a strictly sorted association list.
\<close>

type_synonym ('k, 'v) smap = "('k \<times> 'v) list"

definition smap_inv :: "('k::linorder, 'v) smap \<Rightarrow> bool" where
  "smap_inv m \<longleftrightarrow> sorted_wrt (<) (map fst m)"

definition smap_find :: "('k, 'v) smap \<Rightarrow> 'k \<Rightarrow> 'v option" where
  "smap_find m k = map_of m k"

text \<open>\<^verbatim>\<open>m[k] = v\<close>: insert or overwrite.\<close>

fun smap_put :: "'k::linorder \<Rightarrow> 'v \<Rightarrow> ('k, 'v) smap \<Rightarrow> ('k, 'v) smap" where
  "smap_put k v [] = [(k, v)]"
| "smap_put k v ((k', v') # m) =
     (if k < k' then (k, v) # (k', v') # m
      else if k = k' then (k, v) # m
      else (k', v') # smap_put k v m)"

fun smap_erase :: "'k \<Rightarrow> ('k, 'v) smap \<Rightarrow> ('k, 'v) smap" where
  "smap_erase k [] = []"
| "smap_erase k ((k', v') # m) = (if k = k' then m else (k', v') # smap_erase k m)"

text \<open>\<^verbatim>\<open>m.emplace(k, v)\<close>: insert unless the key is present; \<^verbatim>\<open>.second\<close> is the flag.\<close>

definition smap_emplace :: "'k::linorder \<Rightarrow> 'v \<Rightarrow> ('k, 'v) smap \<Rightarrow> ('k, 'v) smap \<times> bool" where
  "smap_emplace k v m =
     (case smap_find m k of None \<Rightarrow> (smap_put k v m, True) | Some _ \<Rightarrow> (m, False))"

lemma set_fst_smap_put [smap_simps]: "fst ` set (smap_put k v m) = insert k (fst ` set m)"
  by (induction k v m rule: smap_put.induct) auto

lemma smap_inv_Cons [smap_simps]:
  "smap_inv ((k, v) # m) \<longleftrightarrow> (\<forall>k' \<in> fst ` set m. k < k') \<and> smap_inv m"
  by (simp add: smap_inv_def)

lemma smap_inv_Nil [smap_simps, simp]: "smap_inv []"
  by (simp add: smap_inv_def)

lemma smap_find_Nil [smap_simps, simp]: "smap_find [] k = None"
  by (simp add: smap_find_def)

lemma smap_find_Cons [smap_simps, simp]:
  "smap_find ((k', v) # m) k = (if k = k' then Some v else smap_find m k)"
  by (simp add: smap_find_def)

lemma smap_inv_put [smap_simps]: "smap_inv m \<Longrightarrow> smap_inv (smap_put k v m)"
proof (induction k v m rule: smap_put.induct)
  case (2 k v k' v' m)
  then show ?case
    by (cases "k < k'"; cases "k = k'") (force simp: smap_inv_Cons set_fst_smap_put)+
qed (simp add: smap_inv_Cons)

lemma smap_find_notin: "k \<notin> fst ` set m \<Longrightarrow> smap_find m k = None"
  by (induction m) auto

lemma smap_find_put [smap_simps]:
  "smap_find (smap_put k v m) = (smap_find m)(k \<mapsto> v)"
  by (induction k v m rule: smap_put.induct) (auto simp: fun_eq_iff)

lemma set_smap_erase: "set (smap_erase k m) \<subseteq> set m"
  by (induction k m rule: smap_erase.induct) auto

lemma smap_inv_erase [smap_simps]: "smap_inv m \<Longrightarrow> smap_inv (smap_erase k m)"
proof (induction k m rule: smap_erase.induct)
  case (2 k k' v' m)
  then show ?case
    using set_smap_erase [of k m] by (auto simp: smap_inv_Cons)
qed simp

lemma smap_find_erase [smap_simps]:
  "smap_inv m \<Longrightarrow> smap_find (smap_erase k m) = (smap_find m)(k := None)"
proof (induction m)
  case (Cons e m)
  obtain k' v where e: "e = (k', v)" by (cases e)
  have "k' \<notin> fst ` set m"
    using Cons.prems by (auto simp: e smap_inv_Cons)
  then have "smap_find m k' = None" by (rule smap_find_notin)
  with Cons show ?case
    by (auto simp: e smap_inv_Cons fun_eq_iff)
qed (simp add: fun_eq_iff)

lemma smap_find_Some_in: "smap_find m k = Some v \<Longrightarrow> (k, v) \<in> set m"
  by (simp add: smap_find_def map_of_SomeD)

lemma smap_inv_distinct: "smap_inv m \<Longrightarrow> distinct (map fst m)"
  by (simp add: smap_inv_def strict_sorted_iff)

lemma smap_find_iff: "smap_inv m \<Longrightarrow> smap_find m k = Some v \<longleftrightarrow> (k, v) \<in> set m"
  by (simp add: smap_find_def smap_inv_distinct)


text \<open>
  The interface through which the components use a map: what a lookup returns after each
  update, and that every update keeps the representation invariant.
\<close>

locale ordered_map =
  fixes empty :: "'m"
    and find :: "'m \<Rightarrow> 'k \<Rightarrow> 'v option"
    and put :: "'k \<Rightarrow> 'v \<Rightarrow> 'm \<Rightarrow> 'm"
    and erase :: "'k \<Rightarrow> 'm \<Rightarrow> 'm"
    and inv :: "'m \<Rightarrow> bool"
  assumes inv_empty: "inv empty"
    and inv_put: "inv m \<Longrightarrow> inv (put k v m)"
    and inv_erase: "inv m \<Longrightarrow> inv (erase k m)"
    and find_empty: "find empty k = None"
    and find_put: "inv m \<Longrightarrow> find (put k v m) = (find m)(k \<mapsto> v)"
    and find_erase: "inv m \<Longrightarrow> find (erase k m) = (find m)(k := None)"
begin

lemma dom_put: "inv m \<Longrightarrow> dom (find (put k v m)) = insert k (dom (find m))"
  by (simp add: find_put)

lemma dom_erase: "inv m \<Longrightarrow> dom (find (erase k m)) = dom (find m) - {k}"
  by (simp add: find_erase)

lemma inv_fold_put: "inv m \<Longrightarrow> inv (fold (\<lambda>(k, v). put k v) kvs m)"
  by (induction kvs arbitrary: m) (auto simp: inv_put)

lemma find_fold_put:
  "inv m \<Longrightarrow> find (fold (\<lambda>(k, v). put k v) kvs m) = find m ++ map_of (rev kvs)"
proof (induction kvs arbitrary: m)
  case (Cons kv kvs)
  then show ?case
    by (cases kv) (auto simp: inv_put find_put map_add_def fun_eq_iff split: option.splits)
qed simp

lemma erase_undoes_put:
  "inv m \<Longrightarrow> find m k = None \<Longrightarrow> find (erase k (put k v m)) = find m"
  by (auto simp: find_erase find_put inv_put)

end

interpretation smap: ordered_map "[]" smap_find smap_put smap_erase smap_inv
  by unfold_locales (simp_all add: smap_inv_put smap_inv_erase smap_find_put smap_find_erase)

lemma smap_emplace_inv:
  "smap_inv m \<Longrightarrow> smap_inv (fst (smap_emplace k v m))"
  by (simp add: smap_emplace_def smap.inv_put split: option.split)

lemma smap_emplace_ok [simp]:
  "snd (smap_emplace k v m) \<longleftrightarrow> smap_find m k = None"
  by (simp add: smap_emplace_def split: option.split)

lemma smap_find_emplace:
  assumes "smap_inv m"
  shows "smap_find (fst (smap_emplace k v m)) =
    (if smap_find m k = None then (smap_find m)(k \<mapsto> v) else smap_find m)"
  using assms by (simp add: smap_emplace_def smap.find_put split: option.split)

text \<open>Inserting a key above all others appends it.\<close>

lemma smap_put_append:
  "\<forall>k' \<in> fst ` set m. k' < k \<Longrightarrow> smap_put k v m = m @ [(k, v)]"
  by (induction m) auto

lemma smap_inv_append:
  "smap_inv (m @ [(k, v)]) \<longleftrightarrow> smap_inv m \<and> (\<forall>k' \<in> fst ` set m. k' < k)"
  by (auto simp: smap_inv_def sorted_wrt_append)


section \<open>Outcomes\<close>

definition ok_then :: "'a outcome \<Rightarrow> ('a \<Rightarrow> 'b outcome) \<Rightarrow> 'b outcome" where
  "ok_then r k = (case r of Inl e \<Rightarrow> Inl e | Inr v \<Rightarrow> k v)"

lemma ok_then_Inr [simp]: "ok_then r k = Inr v \<longleftrightarrow> (\<exists>u. r = Inr u \<and> k u = Inr v)"
  by (auto simp: ok_then_def split: sum.splits)

lemma ok_then_simps [simp]: "ok_then (Inl e) k = Inl e" "ok_then (Inr u) k = k u"
  by (simp_all add: ok_then_def)

definition tick :: "string \<Rightarrow> string" where
  "tick s = [CHR 0x27] @ s @ [CHR 0x27]"

end
