(* ===== verification/Palmod_Double.thy ===== *)
theory Palmod_Double
  imports Palmod_Prelude
begin

text \<open>
  The C++ \<^verbatim>\<open>double\<close> as its IEEE 754 binary64 bit pattern, with the conversions the
  program uses: rounding an exact quotient to the nearest double (ties to even), which is
  what \<^verbatim>\<open>strtod\<close>, integer-to-double conversion and the literals do; reading a pattern
  back as an exact quotient; truncation to an integer; and the text an output stream with
  \<^verbatim>\<open>setprecision(17)\<close> prints.  Everything is computed on natural numbers, so nothing is
  approximated.
\<close>

type_synonym double = u64

fun bit_length :: "nat \<Rightarrow> nat" where
  "bit_length n = (if n = 0 then 0 else Suc (bit_length (n div 2)))"

declare bit_length.simps [simp del]

definition round_half_even :: "nat \<Rightarrow> nat \<Rightarrow> nat" where
  "round_half_even n d =
     (let q = n div d; r = n mod d
      in if 2 * r > d \<or> (2 * r = d \<and> odd q) then q + 1 else q)"

text \<open>The exponent of the leading bit of \<open>n / d\<close>.\<close>

definition log2_floor :: "nat \<Rightarrow> nat \<Rightarrow> int" where
  "log2_floor n d =
     (let e = int (bit_length n) - int (bit_length d)
      in if (if 0 \<le> e then d * 2 ^ nat e \<le> n else d \<le> n * 2 ^ nat (- e)) then e else e - 1)"

definition sign_bit :: "bool \<Rightarrow> nat" where
  "sign_bit neg = (if neg then 2 ^ 63 else 0)"

definition double_of_quotient :: "bool \<Rightarrow> nat \<Rightarrow> nat \<Rightarrow> double" where
  "double_of_quotient neg n d =
     (if n = 0 then of_nat (sign_bit neg)
      else
        (let e = max (log2_floor n d - 52) (- 1074);
             m = (if 0 \<le> e then round_half_even n (d * 2 ^ nat e)
                  else round_half_even (n * 2 ^ nat (- e)) d);
             (m', e') = (if m = 2 ^ 53 then (2 ^ 52, e + 1) else (m, e))
         in if 971 < e' then of_nat (sign_bit neg + 2047 * 2 ^ 52)
            else if m' < 2 ^ 52 then of_nat (sign_bit neg + m')
            else of_nat (sign_bit neg + nat (e' + 1075) * 2 ^ 52 + (m' - 2 ^ 52))))"

definition double_neg :: "double \<Rightarrow> bool" where
  "double_neg x \<longleftrightarrow> 2 ^ 63 \<le> unat x"

definition double_exp :: "double \<Rightarrow> nat" where
  "double_exp x = unat x div 2 ^ 52 mod 2048"

definition double_frac :: "double \<Rightarrow> nat" where
  "double_frac x = unat x mod 2 ^ 52"

definition isfinite :: "double \<Rightarrow> bool" where
  "isfinite x \<longleftrightarrow> double_exp x \<noteq> 2047"

definition isnan :: "double \<Rightarrow> bool" where
  "isnan x \<longleftrightarrow> double_exp x = 2047 \<and> double_frac x \<noteq> 0"

text \<open>The magnitude of a finite double as an exact quotient.\<close>

definition double_quotient :: "double \<Rightarrow> nat \<times> nat" where
  "double_quotient x =
     (let f = double_exp x;
          m = (if f = 0 then double_frac x else 2 ^ 52 + double_frac x);
          e = (if f = 0 then - 1074 else int f - 1075)
      in if 0 \<le> e then (m * 2 ^ nat e, 1) else (m, 2 ^ nat (- e)))"

definition double_of_int :: "int \<Rightarrow> double" where
  "double_of_int i = double_of_quotient (i < 0) (nat \<bar>i\<bar>) 1"

text \<open>The integral part, towards zero, of a finite double.\<close>

definition double_trunc :: "double \<Rightarrow> int" where
  "double_trunc x =
     (let (n, d) = double_quotient x; q = int (n div d)
      in if double_neg x then - q else q)"


section \<open>Reading a decimal literal\<close>

text \<open>
  \<^verbatim>\<open>strtod\<close> on a token of the grammar \<^verbatim>\<open>-?digits(.digits)?([eE][+-]?digits)?\<close>, which is
  the only kind of token the program hands to it: the whole token is consumed, the exact
  decimal value is rounded to nearest, overflow gives an infinity.
\<close>

definition nat_of_digits :: "string \<Rightarrow> nat" where
  "nat_of_digits ds = (case digits_value 10 0 ds of Some v \<Rightarrow> v | None \<Rightarrow> 0)"

definition scale_quotient :: "nat \<Rightarrow> int \<Rightarrow> nat \<times> nat" where
  "scale_quotient m k = (if 0 \<le> k then (m * 10 ^ nat k, 1) else (m, 10 ^ nat (- k)))"

definition strtod :: "string \<Rightarrow> double" where
  "strtod tok =
     (let (neg, s1) = (case tok of c # r \<Rightarrow> if c = CHR ''-'' then (True, r) else (False, tok)
                                 | [] \<Rightarrow> (False, []));
          whole = takeWhile isdigit s1;
          s2 = dropWhile isdigit s1;
          (frac, s3) = (case s2 of c # r \<Rightarrow> if c = CHR ''.'' then (takeWhile isdigit r, dropWhile isdigit r)
                                            else ([], s2)
                                 | [] \<Rightarrow> ([], []));
          (eneg, edigits) = (case s3 of
             c # r \<Rightarrow> (case r of
                d # r' \<Rightarrow> if d = CHR ''-'' then (True, r') else if d = CHR ''+'' then (False, r')
                          else (False, r)
              | [] \<Rightarrow> (False, []))
           | [] \<Rightarrow> (False, []));
          k = (if eneg then - int (nat_of_digits edigits) else int (nat_of_digits edigits));
          (n, d) = scale_quotient (nat_of_digits (whole @ frac)) (k - int (length frac))
      in double_of_quotient neg n d)"


section \<open>Printing with 17 significant digits\<close>

fun ilog10 :: "nat \<Rightarrow> nat" where
  "ilog10 n = (if n < 10 then 0 else Suc (ilog10 (n div 10)))"

declare ilog10.simps [simp del]

function lead_zeros :: "nat \<Rightarrow> nat \<Rightarrow> nat" where
  "lead_zeros n d = (if n = 0 \<or> d \<le> n then 0 else Suc (lead_zeros (10 * n) d))"
  by pat_completeness auto
termination
  by (relation "measure (\<lambda>(n, d). d - n)") auto

declare lead_zeros.simps [simp del]

definition drop_trailing_zeros :: "string \<Rightarrow> string" where
  "drop_trailing_zeros s = rev (dropWhile (\<lambda>c. c = CHR ''0'') (rev s))"

definition with_point :: "string \<Rightarrow> string \<Rightarrow> string" where
  "with_point whole frac =
     (let f = drop_trailing_zeros frac in if f = [] then whole else whole @ CHR ''.'' # f)"

text \<open>\<^verbatim>\<open>%.17g\<close> of a positive quotient.\<close>

definition show_quotient :: "nat \<Rightarrow> nat \<Rightarrow> string" where
  "show_quotient n d =
     (let x = (if d \<le> n then int (ilog10 (n div d)) else - int (lead_zeros n d));
          scaled = (if x \<le> 16 then round_half_even (n * 10 ^ nat (16 - x)) d
                    else round_half_even n (d * 10 ^ nat (x - 16)));
          (digits, x) = (if scaled = 10 ^ 17 then (show_nat (10 ^ 16), x + 1)
                         else (show_nat scaled, x))
      in if x < - 4 \<or> 17 \<le> x
         then with_point (take 1 digits) (drop 1 digits) @ ''e'' @ (if x < 0 then ''-'' else ''+'')
              @ (if \<bar>x\<bar> < 10 then ''0'' else []) @ show_nat (nat \<bar>x\<bar>)
         else if 0 \<le> x then with_point (take (nat x + 1) digits) (drop (nat x + 1) digits)
         else with_point ''0'' (replicate (nat (- x) - 1) (CHR ''0'') @ digits))"

definition show_double :: "double \<Rightarrow> string" where
  "show_double v =
     (if double_neg v then ''-'' else []) @
     (if isnan v then ''nan''
      else if \<not> isfinite v then ''inf''
      else let (n, d) = double_quotient v in if n = 0 then ''0'' else show_quotient n d)"

end
