(* ===== verification/Palmod_Json.thy ===== *)
theory Palmod_Json
  imports Palmod_Double
begin

text \<open>
  The JSON component (\<^verbatim>\<open>native/src/json.cpp\<close>, \<^verbatim>\<open>json_log.cpp\<close>): the recursive-descent
  parser, the printer, string escaping and the structured log line.

  The parser object holds the input and a cursor \<^verbatim>\<open>position_\<close>; here a parser function
  takes the unread suffix of the input, so that \<^verbatim>\<open>position_\<close> is the input's size minus
  the suffix's length.  An error is its message with the length of the suffix it was
  raised at, and \<open>parse\<close> renders it as \<^verbatim>\<open>message at byte n\<close>.  The value, member and
  element loops call each other; they carry fuel, \<open>None\<close> meaning that it ran out, and
  \<open>parse_terminates\<close> shows that the fuel \<open>parse\<close> gives is always enough.
\<close>

section \<open>Values\<close>

datatype json =
    JNull
  | JBool bool
  | JInt int
  | JDouble double
  | JString string
  | JArray "json list"
  | JObject "(string \<times> json) list"

type_synonym json_obj = "(string, json) smap"

fun json_object :: "json \<Rightarrow> (string, json) smap option" where
  "json_object (JObject m) = Some m"
| "json_object _ = None"

fun json_array :: "json \<Rightarrow> json list option" where
  "json_array (JArray xs) = Some xs"
| "json_array _ = None"

fun json_string :: "json \<Rightarrow> string option" where
  "json_string (JString s) = Some s"
| "json_string _ = None"

fun json_integer :: "json \<Rightarrow> int option" where
  "json_integer (JInt i) = Some i"
| "json_integer _ = None"

fun json_boolean :: "json \<Rightarrow> bool option" where
  "json_boolean (JBool b) = Some b"
| "json_boolean _ = None"

definition json_get :: "(string, json) smap \<Rightarrow> string \<Rightarrow> json option" where
  "json_get m k = smap_find m k"


section \<open>Lexical level of the parser\<close>

type_synonym perror = "string \<times> nat"
type_synonym 'a presult = "perror + 'a \<times> string"

definition perr :: "string \<Rightarrow> string \<Rightarrow> 'a presult" where
  "perr msg rest = Inl (msg, length rest)"

definition json_space :: "char \<Rightarrow> bool" where
  "json_space c \<longleftrightarrow> c = CHR '' '' \<or> code c = 10 \<or> code c = 13 \<or> code c = 9"

definition skip_space :: "string \<Rightarrow> string" where
  "skip_space s = dropWhile json_space s"

definition consume :: "char \<Rightarrow> string \<Rightarrow> string option" where
  "consume c s = (case s of [] \<Rightarrow> None | x # xs \<Rightarrow> if x = c then Some xs else None)"

definition literal :: "string \<Rightarrow> json \<Rightarrow> string \<Rightarrow> json presult" where
  "literal spelling v s =
     (if take (length spelling) s \<noteq> spelling then perr ''invalid literal'' s
      else Inr (v, drop (length spelling) s))"

text \<open>\<^verbatim>\<open>append_utf8\<close> of the parser: code points below \<open>0x10000\<close> only.\<close>

definition byte_char :: "u32 \<Rightarrow> char" where
  "byte_char w = char_of (unat w)"

definition append_utf8 :: "string \<Rightarrow> u32 \<Rightarrow> string" where
  "append_utf8 out cp =
     (if cp \<le> 0x7f then out @ [byte_char cp]
      else if cp \<le> 0x7ff then
        out @ [byte_char (0xc0 OR drop_bit 6 cp), byte_char (0x80 OR (cp AND 0x3f))]
      else
        out @ [byte_char (0xe0 OR drop_bit 12 cp),
               byte_char (0x80 OR (drop_bit 6 cp AND 0x3f)),
               byte_char (0x80 OR (cp AND 0x3f))])"

fun hex4_loop :: "nat \<Rightarrow> u32 \<Rightarrow> string \<Rightarrow> u32 presult" where
  "hex4_loop 0 v s = Inr (v, s)"
| "hex4_loop (Suc i) v s =
     (case s of
        [] \<Rightarrow> perr ''short unicode escape'' s
      | c # r \<Rightarrow>
          (case hex_value c of
             None \<Rightarrow> perr ''invalid unicode escape'' r
           | Some d \<Rightarrow> hex4_loop i (push_bit 4 v OR of_nat d) r))"

definition parse_hex4 :: "string \<Rightarrow> u32 presult" where
  "parse_hex4 s =
     (if length s < 4 then perr ''short unicode escape'' s else hex4_loop 4 0 s)"

definition escape_value :: "char \<Rightarrow> char option" where
  "escape_value e =
     (if e = CHR 0x22 then Some (CHR 0x22)
      else if e = CHR 0x5C then Some (CHR 0x5C)
      else if e = CHR ''/'' then Some (CHR ''/'')
      else if e = CHR ''b'' then Some (CHR 0x08)
      else if e = CHR ''f'' then Some (CHR 0x0C)
      else if e = CHR ''n'' then Some (CHR 0x0A)
      else if e = CHR ''r'' then Some (CHR 0x0D)
      else if e = CHR ''t'' then Some (CHR 0x09)
      else None)"

lemma hex4_loop_length: "hex4_loop n v s = Inr (w, r) \<Longrightarrow> length s = length r + n"
  by (induction n v s rule: hex4_loop.induct)
    (auto simp: perr_def split: list.splits option.splits)

lemma parse_hex4_length: "parse_hex4 s = Inr (w, r) \<Longrightarrow> length s = length r + 4"
  by (auto simp: parse_hex4_def perr_def split: if_splits dest: hex4_loop_length)

function string_loop :: "string \<Rightarrow> string \<Rightarrow> string presult" where
  "string_loop out s =
     (case s of
        [] \<Rightarrow> perr ''unterminated string'' s
      | c # r \<Rightarrow>
          if c = CHR 0x22 then Inr (out, r)
          else if code c < 0x20 then perr ''control byte in string'' r
          else if c \<noteq> CHR 0x5C then string_loop (out @ [c]) r
          else (case r of
                  [] \<Rightarrow> perr ''unterminated escape'' r
                | e # r' \<Rightarrow>
                    (case escape_value e of
                       Some x \<Rightarrow> string_loop (out @ [x]) r'
                     | None \<Rightarrow>
                         if e \<noteq> CHR ''u'' then perr ''unknown escape'' r'
                         else (case parse_hex4 r' of
                                 Inl err \<Rightarrow> Inl err
                               | Inr (cp, r'') \<Rightarrow>
                                   if 0xd800 \<le> cp \<and> cp \<le> 0xdfff
                                   then perr ''UTF-16 surrogate escapes are unsupported'' r''
                                   else string_loop (append_utf8 out cp) r''))))"
  by pat_completeness auto
termination
  by (relation "measure (\<lambda>(out, s). length s)") (auto dest: parse_hex4_length)

declare string_loop.simps [simp del]

definition parse_string :: "string \<Rightarrow> string presult" where
  "parse_string s =
     (case consume (CHR 0x22) s of
        None \<Rightarrow> perr ''expected string'' s
      | Some r \<Rightarrow> string_loop [] r)"


section \<open>Numbers\<close>

text \<open>The three parts of a number; each returns what is left and how it ended.\<close>

definition number_integer :: "string \<Rightarrow> (perror + string)" where
  "number_integer s =
     (case s of
        [] \<Rightarrow> Inl (''incomplete number'', 0)
      | c # r \<Rightarrow>
          if c = CHR ''0'' then Inr r
          else if \<not> (49 \<le> code c \<and> code c \<le> 57) then Inl (''invalid number'', length s)
          else Inr (dropWhile isdigit s))"

definition number_fraction :: "string \<Rightarrow> (perror + bool \<times> string)" where
  "number_fraction s =
     (case s of
        c # r \<Rightarrow>
          if c = CHR ''.'' then
            (if takeWhile isdigit r = [] then Inl (''missing fractional digits'', length r)
             else Inr (True, dropWhile isdigit r))
          else Inr (False, s)
      | [] \<Rightarrow> Inr (False, s))"

definition skip_exponent_sign :: "string \<Rightarrow> string" where
  "skip_exponent_sign s =
     (case s of c # r \<Rightarrow> if c = CHR ''+'' \<or> c = CHR ''-'' then r else s | [] \<Rightarrow> s)"

definition number_exponent :: "string \<Rightarrow> (perror + bool \<times> string)" where
  "number_exponent s =
     (case s of
        c # r \<Rightarrow>
          if c = CHR ''e'' \<or> c = CHR ''E'' then
            (let r' = skip_exponent_sign r
             in if takeWhile isdigit r' = [] then Inl (''missing exponent digits'', length r')
                else Inr (True, dropWhile isdigit r'))
          else Inr (False, s)
      | [] \<Rightarrow> Inr (False, s))"

definition number_value :: "bool \<Rightarrow> string \<Rightarrow> string \<Rightarrow> json presult" where
  "number_value floating tok rest =
     (case (if floating then None else from_chars_i64 tok) of
        Some i \<Rightarrow> Inr (JInt i, rest)
      | None \<Rightarrow>
          (let v = strtod tok
           in if \<not> isfinite v then perr ''invalid or non-finite number'' rest
              else Inr (JDouble v, rest)))"

definition parse_number :: "string \<Rightarrow> json presult" where
  "parse_number s =
     (case number_integer (case s of c # r \<Rightarrow> if c = CHR ''-'' then r else s | [] \<Rightarrow> s) of
        Inl e \<Rightarrow> Inl e
      | Inr s2 \<Rightarrow>
          (case number_fraction s2 of
             Inl e \<Rightarrow> Inl e
           | Inr (frac, s3) \<Rightarrow>
               (case number_exponent s3 of
                  Inl e \<Rightarrow> Inl e
                | Inr (expo, s4) \<Rightarrow>
                    number_value (frac \<or> expo) (take (length s - length s4) s) s4)))"


section \<open>Values, objects, arrays\<close>

definition ticked :: "char \<Rightarrow> string" where
  "ticked c = [CHR 0x27, c, CHR 0x27]"

definition and_then :: "'a presult option \<Rightarrow> ('a \<Rightarrow> string \<Rightarrow> 'b presult option) \<Rightarrow> 'b presult option" where
  "and_then p k =
     (case p of None \<Rightarrow> None
      | Some (Inl e) \<Rightarrow> Some (Inl e)
      | Some (Inr (v, s)) \<Rightarrow> k v s)"

text \<open>What follows a member or an element: the closing bracket, or a comma and the next one.\<close>

definition expected_or :: "char \<Rightarrow> string" where
  "expected_or close = ''expected '' @ ticked (CHR '','') @ '' or '' @ ticked close"

definition after_item ::
  "char \<Rightarrow> json \<Rightarrow> string \<Rightarrow> (string \<Rightarrow> json presult option) \<Rightarrow> json presult option" where
  "after_item close done s next_item =
     (let s' = skip_space s
      in case consume close s' of
           Some r \<Rightarrow> Some (Inr (done, r))
         | None \<Rightarrow>
             (case consume (CHR '','') s' of
                None \<Rightarrow> Some (perr (expected_or close) s')
              | Some r \<Rightarrow> next_item r))"

text \<open>The branches of \<^verbatim>\<open>parse_value\<close>'s switch that do not recurse.\<close>

definition parse_scalar :: "char \<Rightarrow> string \<Rightarrow> json presult" where
  "parse_scalar c s =
     (if c = CHR 0x22 then
        (case parse_string s of Inl e \<Rightarrow> Inl e | Inr (x, q) \<Rightarrow> Inr (JString x, q))
      else if c = CHR ''t'' then literal ''true'' (JBool True) s
      else if c = CHR ''f'' then literal ''false'' (JBool False) s
      else if c = CHR ''n'' then literal ''null'' JNull s
      else if c = CHR ''-'' \<or> isdigit c then parse_number s
      else perr ''unexpected token'' s)"

fun parse_value :: "nat \<Rightarrow> string \<Rightarrow> json presult option"
and parse_object :: "nat \<Rightarrow> (string, json) smap \<Rightarrow> string \<Rightarrow> json presult option"
and parse_array :: "nat \<Rightarrow> json list \<Rightarrow> string \<Rightarrow> json presult option" where
  "parse_value 0 s0 = None"
| "parse_value (Suc n) s0 =
     (case skip_space s0 of
        [] \<Rightarrow> Some (perr ''unexpected end of JSON'' [])
      | c # r \<Rightarrow>
          if c = CHR ''{'' then
            (case consume (CHR ''}'') (skip_space r) of
               Some q \<Rightarrow> Some (Inr (JObject [], q))
             | None \<Rightarrow> parse_object n [] (skip_space r))
          else if c = CHR ''['' then
            (case consume (CHR '']'') (skip_space r) of
               Some q \<Rightarrow> Some (Inr (JArray [], q))
             | None \<Rightarrow> parse_array n [] (skip_space r))
          else Some (parse_scalar c (c # r)))"
| "parse_object 0 m s = None"
| "parse_object (Suc n) m s =
     and_then (Some (parse_string (skip_space s))) (\<lambda>key s1.
       (case consume (CHR '':'') (skip_space s1) of
          None \<Rightarrow> Some (perr (''expected '' @ ticked (CHR '':'')) (skip_space s1))
        | Some s3 \<Rightarrow>
            and_then (parse_value n s3) (\<lambda>v s4.
              (case smap_emplace key v m of
                 (m', inserted) \<Rightarrow>
                   if \<not> inserted then Some (perr ''duplicate object key'' s4)
                   else after_item (CHR ''}'') (JObject m') s4 (parse_object n m')))))"
| "parse_array 0 xs s = None"
| "parse_array (Suc n) xs s =
     and_then (parse_value n s) (\<lambda>v s1.
       after_item (CHR '']'') (JArray (xs @ [v])) s1 (parse_array n (xs @ [v])))"

definition at_byte :: "nat \<Rightarrow> perror \<Rightarrow> string" where
  "at_byte sz e = fst e @ '' at byte '' @ show_nat (sz - snd e)"

definition parse_fuel :: "string \<Rightarrow> nat" where
  "parse_fuel s = 2 * length s + 1"

definition parse_run :: "nat \<Rightarrow> string \<Rightarrow> json outcome option" where
  "parse_run fuel text =
     map_option
       (\<lambda>r. case r of
              Inl e \<Rightarrow> Inl (at_byte (length text) e)
            | Inr (v, s) \<Rightarrow>
                (let s' = skip_space s
                 in if s' \<noteq> [] then Inl (at_byte (length text) (''trailing characters'', length s'))
                    else Inr v))
       (parse_value fuel (skip_space text))"

definition parse :: "string \<Rightarrow> json outcome" where
  "parse text =
     (case parse_run (parse_fuel text) text of Some r \<Rightarrow> r | None \<Rightarrow> Inl ''out of fuel'')"


section \<open>Printing\<close>

definition hex_digit_char :: "nat \<Rightarrow> char" where
  "hex_digit_char d = ''0123456789abcdef'' ! d"

definition escape_char :: "char \<Rightarrow> string" where
  "escape_char c =
     (if c = CHR 0x22 then [CHR 0x5C, CHR 0x22]
      else if c = CHR 0x5C then [CHR 0x5C, CHR 0x5C]
      else if c = CHR 0x08 then [CHR 0x5C, CHR ''b'']
      else if c = CHR 0x0C then [CHR 0x5C, CHR ''f'']
      else if c = CHR 0x0A then [CHR 0x5C, CHR ''n'']
      else if c = CHR 0x0D then [CHR 0x5C, CHR ''r'']
      else if c = CHR 0x09 then [CHR 0x5C, CHR ''t'']
      else if code c < 0x20 then
        [CHR 0x5C, CHR ''u'', CHR ''0'', CHR ''0'',
         hex_digit_char (code c div 16), hex_digit_char (code c mod 16)]
      else [c])"

definition escape :: "string \<Rightarrow> string" where
  "escape s = concat (map escape_char s)"

definition quoted :: "string \<Rightarrow> string" where
  "quoted s = [CHR 0x22] @ escape s @ [CHR 0x22]"

fun commas :: "string list \<Rightarrow> string" where
  "commas [] = []"
| "commas [x] = x"
| "commas (x # y # zs) = x @ '','' @ commas (y # zs)"

fun stringify :: "json \<Rightarrow> string" where
  "stringify JNull = ''null''"
| "stringify (JBool b) = (if b then ''true'' else ''false'')"
| "stringify (JInt i) = show_int i"
| "stringify (JDouble v) = show_double v"
| "stringify (JString s) = quoted s"
| "stringify (JArray xs) = ''['' @ commas (map stringify xs) @ '']''"
| "stringify (JObject m) =
     ''{'' @ commas (map (\<lambda>(k, v). quoted k @ '':'' @ stringify v) m) @ ''}''"


section \<open>The structured log\<close>

datatype log_level = Debug | Info | Warn | Error

fun level_name :: "log_level \<Rightarrow> string" where
  "level_name Debug = ''debug''"
| "level_name Info = ''info''"
| "level_name Warn = ''warn''"
| "level_name Error = ''error''"

abbreviation quote :: string where
  "quote \<equiv> [CHR 0x22]"

definition log_field :: "string \<times> string \<Rightarrow> string" where
  "log_field f = '','' @ quote @ escape (fst f) @ quote @ '':'' @ quote @ escape (snd f) @ quote"

text \<open>
  The line \<^verbatim>\<open>JsonLog::write\<close> builds; the time stamp \<open>ts\<close> (from \<^verbatim>\<open>strftime\<close>) and the
  process id come from the system.
\<close>

definition log_line ::
  "string \<Rightarrow> nat \<Rightarrow> log_level \<Rightarrow> string \<Rightarrow> string \<Rightarrow> (string \<times> string) list \<Rightarrow> string" where
  "log_line ts pid level event message fields =
     ''{'' @ quote @ ''ts'' @ quote @ '':'' @ quote @ ts @ quote
     @ '','' @ quote @ ''level'' @ quote @ '':'' @ quote @ level_name level @ quote
     @ '','' @ quote @ ''component'' @ quote @ '':'' @ quote @ ''palmod'' @ quote
     @ '','' @ quote @ ''event'' @ quote @ '':'' @ quote @ escape event @ quote
     @ '','' @ quote @ ''message'' @ quote @ '':'' @ quote @ escape message @ quote
     @ '','' @ quote @ ''pid'' @ quote @ '':'' @ show_nat pid
     @ concat (map log_field fields) @ ''}'' @ [CHR 0x0A]"

end
