(* ===== verification/Palmod_Json_Correct.thy ===== *)
theory Palmod_Json_Correct
  imports Palmod_Json
begin

text \<open>
  Correctness of the JSON component: the parser always returns, what it returns is
  well-formed, and printing a well-formed value free of doubles and parsing the text gives
  the value back.  The log writer's line is one line.
\<close>

section \<open>Every successful step consumes input\<close>

lemma skip_space_length: "length (skip_space s) \<le> length s"
  by (simp add: skip_space_def length_dropWhile_le)

lemma consume_Some: "consume c s = Some r \<longleftrightarrow> s = c # r"
  by (auto simp: consume_def split: list.splits if_splits)

lemma consume_None_Cons [simp]: "x \<noteq> c \<Longrightarrow> consume c (x # xs) = None"
  by (simp add: consume_def)

lemma consume_Cons [simp]: "consume c (c # xs) = Some xs"
  by (simp add: consume_def)

lemma perr_neq_Inr [simp]: "perr m s \<noteq> Inr x" "Inr x \<noteq> perr m s"
  by (simp_all add: perr_def)

lemma string_loop_length: "string_loop out s = Inr (x, r) \<Longrightarrow> length r < length s"
proof (induction out s rule: string_loop.induct)
  case (1 out s)
  then show ?case
    by (subst (asm) (4) string_loop.simps)
      (fastforce split: list.splits option.splits if_splits sum.splits dest: parse_hex4_length)
qed

lemma parse_string_length: "parse_string s = Inr (x, r) \<Longrightarrow> length r < length s"
  by (auto simp: parse_string_def consume_Some split: option.splits dest: string_loop_length)

lemma literal_length: "literal w v s = Inr (x, r) \<Longrightarrow> w \<noteq> [] \<Longrightarrow> length r < length s"
  by (cases "s = []") (auto simp: literal_def split: if_splits)

lemma number_integer_length: "number_integer s = Inr r \<Longrightarrow> length r < length s"
proof (cases s)
  case (Cons c cs)
  assume "number_integer s = Inr r"
  moreover have "isdigit c" if "49 \<le> code c" "code c \<le> 57"
    using that by (simp add: isdigit_def)
  ultimately show ?thesis
    by (auto simp: number_integer_def Cons less_Suc_eq_le length_dropWhile_le split: if_splits)
qed (simp add: number_integer_def)

lemma number_fraction_length: "number_fraction s = Inr (b, r) \<Longrightarrow> length r \<le> length s"
  by (auto simp: number_fraction_def split: list.splits if_splits
      intro: le_SucI length_dropWhile_le)

lemma skip_exponent_sign_length: "length (skip_exponent_sign s) \<le> length s"
  by (simp add: skip_exponent_sign_def split: list.splits)

lemma number_exponent_length: "number_exponent s = Inr (b, r) \<Longrightarrow> length r \<le> length s"
proof (cases s)
  case (Cons c cs)
  assume "number_exponent s = Inr (b, r)"
  then show ?thesis
    using skip_exponent_sign_length [of cs] length_dropWhile_le [of isdigit "skip_exponent_sign cs"]
    by (auto simp: number_exponent_def Cons Let_def split: if_splits)
qed (simp add: number_exponent_def)

lemma number_value_rest: "number_value fl tok s = Inr (v, r) \<Longrightarrow> s = r"
  by (auto simp: number_value_def Let_def split: option.splits if_splits)

lemma parse_number_length: "parse_number s = Inr (v, r) \<Longrightarrow> length r < length s"
proof -
  assume "parse_number s = Inr (v, r)"
  then obtain s2 f s3 e where
    a: "number_integer (case s of c # r \<Rightarrow> if c = CHR ''-'' then r else s | [] \<Rightarrow> s) = Inr s2"
    and b: "number_fraction s2 = Inr (f, s3)" "number_exponent s3 = Inr (e, r)"
    by (auto simp: parse_number_def split: sum.splits dest!: number_value_rest)
  from a have "length s2 < length s"
    by (cases s) (auto split: if_splits dest!: number_integer_length)
  with b show ?thesis
    by (fastforce dest: number_fraction_length number_exponent_length)
qed

lemma parse_scalar_length: "parse_scalar c s = Inr (v, r) \<Longrightarrow> length r < length s"
  by (auto simp: parse_scalar_def split: if_splits sum.splits
      dest: parse_string_length parse_number_length literal_length)

lemma and_then_Inr:
  "and_then p k = Some (Inr x) \<longleftrightarrow> (\<exists>v s. p = Some (Inr (v, s)) \<and> k v s = Some (Inr x))"
  by (auto simp: and_then_def split: option.splits sum.splits)

lemma and_then_None:
  "and_then p k = None \<longleftrightarrow> p = None \<or> (\<exists>v s. p = Some (Inr (v, s)) \<and> k v s = None)"
  by (auto simp: and_then_def split: option.splits sum.splits)

lemma after_item_Inr:
  "after_item c d s k = Some (Inr x) \<Longrightarrow>
     (\<exists>r. skip_space s = c # r \<and> x = (d, r)) \<or>
     (\<exists>r. skip_space s = CHR '','' # r \<and> k r = Some (Inr x))"
  by (auto simp: after_item_def Let_def consume_Some split: option.splits)

lemma after_item_None:
  "after_item c d s k = None \<Longrightarrow> \<exists>r. skip_space s = CHR '','' # r \<and> k r = None"
  by (auto simp: after_item_def Let_def consume_Some split: option.splits)

lemma skip_space_Cons_length: "skip_space s = c # r \<Longrightarrow> length r < length s"
  using skip_space_length [of s] by simp

lemma after_item_length:
  assumes "after_item c d s k = Some (Inr (x, r))"
    and "\<And>q. k q = Some (Inr (x, r)) \<Longrightarrow> length r < length q"
  shows "length r < length s"
  using after_item_Inr [OF assms(1)] assms(2)
  by (auto dest!: skip_space_Cons_length intro: less_trans)

text \<open>Inversion of the two loops: what one round of each did.\<close>

lemma parse_object_Suc_Inr:
  assumes "parse_object (Suc n) m s = Some (Inr x)"
  obtains key s1 s3 v s4 where
    "parse_string (skip_space s) = Inr (key, s1)" "skip_space s1 = CHR '':'' # s3"
    "parse_value n s3 = Some (Inr (v, s4))" "smap_find m key = None"
    "after_item (CHR ''}'') (JObject (smap_put key v m)) s4 (parse_object n (smap_put key v m))
       = Some (Inr x)"
  using assms
  by (auto simp: and_then_Inr consume_Some smap_emplace_def split: option.splits)

lemma parse_object_Suc_None:
  assumes "parse_object (Suc n) m s = None"
  obtains key s1 s3 where
    "parse_string (skip_space s) = Inr (key, s1)" "skip_space s1 = CHR '':'' # s3"
    "parse_value n s3 = None"
  | key s1 s3 v s4 r m' where
    "parse_string (skip_space s) = Inr (key, s1)" "skip_space s1 = CHR '':'' # s3"
    "parse_value n s3 = Some (Inr (v, s4))" "skip_space s4 = CHR '','' # r"
    "parse_object n m' r = None"
  using assms
  by (auto simp: and_then_None consume_Some smap_emplace_def split: option.splits
      dest!: after_item_None)

lemma parse_array_Suc_Inr:
  assumes "parse_array (Suc n) xs s = Some (Inr x)"
  obtains v s1 where
    "parse_value n s = Some (Inr (v, s1))"
    "after_item (CHR '']'') (JArray (xs @ [v])) s1 (parse_array n (xs @ [v])) = Some (Inr x)"
  using assms by (auto simp: and_then_Inr)

lemma parse_lengths:
  "parse_value n s = Some (Inr (v, r)) \<Longrightarrow> length r < length s"
  "parse_object n m s = Some (Inr (v, r)) \<Longrightarrow> length r < length s"
  "parse_array n xs s = Some (Inr (v, r)) \<Longrightarrow> length r < length s"
proof (induction n arbitrary: s v r m xs)
  case (Suc n)
  {
    case 1
    show ?case
    proof (cases "skip_space s")
      case (Cons c q)
      have sq: "length (skip_space q) < length s" "length q < length s"
        using skip_space_length [of q] skip_space_Cons_length [OF Cons] by simp_all
      have cq: "length (c # q) \<le> length s"
        using skip_space_length [of s] by (simp add: Cons)
      from 1 Cons sq cq show ?thesis
        by (auto simp: consume_Some split: if_splits option.splits
            dest!: Suc.IH(2,3) parse_scalar_length)
    qed (use 1 in simp)
  next
    case 2
    then show ?case
    proof (rule parse_object_Suc_Inr)
      fix key s1 s3 u s4 m'
      assume a: "parse_string (skip_space s) = Inr (key, s1)" "skip_space s1 = CHR '':'' # s3"
        "parse_value n s3 = Some (Inr (u, s4))"
        and b: "after_item (CHR ''}'') (JObject (smap_put key u m)) s4
          (parse_object n (smap_put key u m)) = Some (Inr (v, r))"
      have "length s4 < length s"
        using parse_string_length [OF a(1)] skip_space_Cons_length [OF a(2)] Suc.IH(1) [OF a(3)]
          skip_space_length [of s] by simp
      moreover have "length r < length s4"
        using b Suc.IH(2) by (rule after_item_length)
      ultimately show ?thesis by simp
    qed
  next
    case 3
    then show ?case
    proof (rule parse_array_Suc_Inr)
      fix u s1
      assume a: "parse_value n s = Some (Inr (u, s1))"
        and b: "after_item (CHR '']'') (JArray (xs @ [u])) s1 (parse_array n (xs @ [u]))
          = Some (Inr (v, r))"
      have "length r < length s1"
        using b Suc.IH(3) by (rule after_item_length)
      with Suc.IH(1) [OF a] show ?thesis by simp
    qed
  }
qed simp_all


section \<open>The fuel is enough\<close>

lemma parse_enough_fuel:
  "2 * length s + 1 \<le> n \<Longrightarrow> parse_value n s \<noteq> None"
  "2 * length s + 2 \<le> n \<Longrightarrow> parse_object n m s \<noteq> None"
  "2 * length s + 2 \<le> n \<Longrightarrow> parse_array n xs s \<noteq> None"
proof (induction n arbitrary: s m xs)
  case (Suc n)
  {
    case 1
    show ?case
    proof (cases "skip_space s")
      case (Cons c q)
      have "length (skip_space q) < length s"
        using skip_space_length [of q] skip_space_Cons_length [OF Cons] by simp
      with 1 have "parse_object n [] (skip_space q) \<noteq> None" "parse_array n [] (skip_space q) \<noteq> None"
        by (intro Suc.IH(2) Suc.IH(3); simp)+
      then show ?thesis
        by (auto simp: Cons split: option.splits)
    qed simp
  next
    case 2
    have less: "length s3 < length s"
      if "parse_string (skip_space s) = Inr (key, s1)" "skip_space s1 = CHR '':'' # s3" for key s1 s3
      using parse_string_length [OF that(1)] skip_space_Cons_length [OF that(2)]
        skip_space_length [of s] by simp
    show ?case
    proof
      assume "parse_object (Suc n) m s = None"
      then show False
      proof (rule parse_object_Suc_None)
        fix key s1 s3
        assume "parse_string (skip_space s) = Inr (key, s1)" "skip_space s1 = CHR '':'' # s3"
          "parse_value n s3 = None"
        then show False
          using less 2 Suc.IH(1) [of s3] by fastforce
      next
        fix key s1 s3 v s4 r m'
        assume a: "parse_string (skip_space s) = Inr (key, s1)" "skip_space s1 = CHR '':'' # s3"
          "parse_value n s3 = Some (Inr (v, s4))" "skip_space s4 = CHR '','' # r"
          "parse_object n m' r = None"
        have "length r < length s"
          using less [OF a(1,2)] parse_lengths(1) [OF a(3)] skip_space_Cons_length [OF a(4)] by simp
        then show False
          using a(5) 2 Suc.IH(2) [of r m'] by simp
      qed
    qed
  next
    case 3
    have "parse_value n s \<noteq> None"
      using 3 by (intro Suc.IH(1)) simp
    moreover have "parse_array n ys r \<noteq> None"
      if "parse_value n s = Some (Inr (v, s1))" "skip_space s1 = CHR '','' # r" for v s1 r ys
      using 3 parse_lengths(1) [OF that(1)] skip_space_Cons_length [OF that(2)]
      by (intro Suc.IH(3)) simp
    ultimately show ?case
      by (simp add: and_then_None del: not_None_eq) (metis after_item_None)
  }
qed simp_all


lemma parse_run_terminates: "parse_run (parse_fuel s) s \<noteq> None"
proof -
  have "2 * length (skip_space s) + 1 \<le> parse_fuel s"
    using skip_space_length [of s] by (simp add: parse_fuel_def)
  then show ?thesis
    by (simp add: parse_run_def parse_enough_fuel(1) del: not_None_eq)
qed


section \<open>What the parser returns is well-formed\<close>

fun json_wf :: "json \<Rightarrow> bool" where
  "json_wf JNull = True"
| "json_wf (JBool b) = True"
| "json_wf (JInt i) = int64_range i"
| "json_wf (JDouble v) = isfinite v"
| "json_wf (JString s) = True"
| "json_wf (JArray xs) = list_all json_wf xs"
| "json_wf (JObject m) = (smap_inv m \<and> list_all (\<lambda>(k, v). json_wf v) m)"

lemma from_chars_i64_range: "from_chars_i64 t = Some i \<Longrightarrow> int64_range i"
  by (auto simp: from_chars_i64_def Let_def split: option.splits prod.splits if_splits)

lemma number_value_wf: "number_value fl tok s = Inr (v, r) \<Longrightarrow> json_wf v"
  by (auto simp: number_value_def Let_def from_chars_i64_range split: option.splits if_splits)

lemma parse_scalar_wf: "parse_scalar c s = Inr (v, r) \<Longrightarrow> json_wf v"
  by (auto simp: parse_scalar_def literal_def parse_number_def split: if_splits sum.splits
      dest: number_value_wf)

lemma list_all_smap_put:
  "list_all P m \<Longrightarrow> P (k, v) \<Longrightarrow> list_all P (smap_put k v m)"
  by (induction k v m rule: smap_put.induct) auto

lemma after_item_wf:
  assumes "after_item c d s k = Some (Inr (x, r))" and "json_wf d"
    and "\<And>q. k q = Some (Inr (x, r)) \<Longrightarrow> json_wf x"
  shows "json_wf x"
  using after_item_Inr [OF assms(1)] assms(2,3) by auto

lemma parse_wf_aux:
  "parse_value n s = Some (Inr (v, r)) \<Longrightarrow> json_wf v"
  "parse_object n m s = Some (Inr (v, r)) \<Longrightarrow> json_wf (JObject m) \<Longrightarrow> json_wf v"
  "parse_array n xs s = Some (Inr (v, r)) \<Longrightarrow> json_wf (JArray xs) \<Longrightarrow> json_wf v"
proof (induction n arbitrary: s v r m xs)
  case (Suc n)
  {
    case 1
    show ?case
    proof (cases "skip_space s")
      case (Cons c q)
      have e: "json_wf (JObject [])" "json_wf (JArray [])" by simp_all
      from 1 Cons show ?thesis
        using Suc.IH(2) [OF _ e(1)] Suc.IH(3) [OF _ e(2)]
        by (auto split: if_splits option.splits dest!: parse_scalar_wf)
    qed (use 1 in simp)
  next
    case 2
    from 2(1) show ?case
    proof (rule parse_object_Suc_Inr)
      fix key s1 s3 u s4
      assume "parse_value n s3 = Some (Inr (u, s4))"
        and b: "after_item (CHR ''}'') (JObject (smap_put key u m)) s4
          (parse_object n (smap_put key u m)) = Some (Inr (v, r))"
      then have w: "json_wf (JObject (smap_put key u m))"
        using 2(2) Suc.IH(1) by (simp add: smap.inv_put list_all_smap_put)
      from b w Suc.IH(2) [OF _ w] show ?thesis by (rule after_item_wf)
    qed
  next
    case 3
    from 3(1) show ?case
    proof (rule parse_array_Suc_Inr)
      fix u s1
      assume "parse_value n s = Some (Inr (u, s1))"
        and b: "after_item (CHR '']'') (JArray (xs @ [u])) s1 (parse_array n (xs @ [u]))
          = Some (Inr (v, r))"
      then have w: "json_wf (JArray (xs @ [u]))"
        using 3(2) Suc.IH(1) by simp
      from b w Suc.IH(3) [OF _ w] show ?thesis by (rule after_item_wf)
    qed
  }
qed simp_all

lemma parse_Inr_iff:
  "parse s = Inr v \<longleftrightarrow>
     (\<exists>r. parse_value (parse_fuel s) (skip_space s) = Some (Inr (v, r)) \<and> skip_space r = [])"
  by (auto simp: parse_def parse_run_def Let_def split: option.splits sum.splits if_splits)

lemma parse_result_wf: "parse s = Inr v \<Longrightarrow> json_wf v"
  using parse_wf_aux(1) by (auto simp: parse_Inr_iff)


section \<open>Strings survive escaping\<close>

lemma less_16_cases: "d < 16 \<Longrightarrow> d \<in> {0, 1, 2, 3, 4, 5, 6, 7, 8, 9, 10, 11, 12, 13, 14, 15 :: nat}"
  by (simp only: insert_iff empty_iff simp_thms) arith

lemma hex_value_hex_digit_char: "d < 16 \<Longrightarrow> hex_value (hex_digit_char d) = Some d"
  by (drule less_16_cases) (auto simp: hex_digit_char_def hex_value_def isdigit_def)

lemma hex4_control:
  assumes "a < 2" "b < 16"
  shows "push_bit 4 (of_nat a) OR (of_nat b :: u32) = of_nat (a * 16 + b)"
proof -
  have "a = 0 \<or> a = 1" using assms(1) by auto
  with less_16_cases [OF assms(2)] show ?thesis by auto
qed

lemma parse_hex4_control:
  assumes "n < 0x20"
  shows "parse_hex4 (CHR ''0'' # CHR ''0'' # hex_digit_char (n div 16) # hex_digit_char (n mod 16) # r)
    = Inr (of_nat n, r)"
proof -
  have "hex_value (CHR ''0'') = Some 0"
    by (simp add: hex_value_def isdigit_def)
  moreover have "n div 16 < 2" "n mod 16 < 16"
    using assms by auto
  moreover have "push_bit 4 (of_nat (n div 16)) OR (of_nat (n mod 16) :: u32) = of_nat n"
    using hex4_control [of "n div 16" "n mod 16"] calculation by simp
  ultimately have "hex4_loop (Suc (Suc (Suc (Suc 0)))) 0
      (CHR ''0'' # CHR ''0'' # hex_digit_char (n div 16) # hex_digit_char (n mod 16) # r)
    = Inr (of_nat n, r)"
    by (simp only: hex4_loop.simps list.case option.case hex_value_hex_digit_char) simp
  moreover have "(4::nat) = Suc (Suc (Suc (Suc 0)))" by simp
  ultimately show ?thesis
    by (simp only: parse_hex4_def) simp
qed

lemma append_utf8_ascii:
  assumes "n < 0x80"
  shows "append_utf8 out (of_nat n) = out @ [char_of n]"
proof -
  have "unat (of_nat n :: u32) = n"
    using assms by (simp add: unat_of_nat take_bit_nat_eq_self)
  with assms show ?thesis
    by (simp add: append_utf8_def byte_char_def word_le_nat_alt)
qed

lemma string_loop_escape_char:
  "string_loop out (escape_char c @ r) = string_loop (out @ [c]) r"
proof (cases "code c < 0x20 \<and> c \<notin> {CHR 0x08, CHR 0x0C, CHR 0x0A, CHR 0x0D, CHR 0x09}")
  case True
  then have "\<not> 0xd800 \<le> (of_nat (code c) :: u32)"
    by (simp add: word_le_nat_alt unat_of_nat take_bit_nat_eq_self not_le)
  with True show ?thesis
    by (subst string_loop.simps)
      (auto simp: escape_char_def escape_value_def parse_hex4_control append_utf8_ascii)
next
  case False
  then show ?thesis
    by (subst string_loop.simps) (auto simp: escape_char_def escape_value_def)
qed

lemma string_loop_escape: "string_loop out (escape s @ CHR 0x22 # r) = Inr (out @ s, r)"
proof (induction s arbitrary: out)
  case Nil
  show ?case by (subst string_loop.simps) (simp add: escape_def)
next
  case (Cons c s)
  then show ?case
    by (simp add: escape_def string_loop_escape_char)
qed

lemma parse_string_quoted: "parse_string (quoted s @ r) = Inr (s, r)"
  by (simp add: parse_string_def quoted_def string_loop_escape)


section \<open>Integers survive printing\<close>

definition delim :: "string \<Rightarrow> bool" where
  "delim r \<longleftrightarrow> (case r of [] \<Rightarrow> True | c # _ \<Rightarrow> c \<in> {CHR '','', CHR '']'', CHR ''}''})"

lemma delim_simps [simp]:
  "delim []" "delim (CHR '','' # r)" "delim (CHR '']'' # r)" "delim (CHR ''}'' # r)"
  by (simp_all add: delim_def)

lemma dropWhile_show_nat: "delim r \<Longrightarrow> dropWhile isdigit (show_nat n @ r) = r"
proof -
  assume "delim r"
  then have "dropWhile isdigit r = r"
    by (cases r) (auto simp: delim_def isdigit_def)
  then show ?thesis
    using show_nat_digits [of n] by (simp add: dropWhile_append2)
qed

lemma number_integer_show_nat: "delim r \<Longrightarrow> number_integer (show_nat n @ r) = Inr r"
proof (cases "n = 0")
  case False
  assume r: "delim r"
  obtain c cs where c: "show_nat n = c # cs" by (cases "show_nat n") auto
  have "isdigit c" "c \<noteq> CHR ''0''"
    using show_nat_digits [of n] show_nat_hd_zero [of n] False by (auto simp: c)
  moreover have "code c = 48 \<longleftrightarrow> c = CHR ''0''"
    using char_of_eq_code [of 48 c] char_of_eq_code [of 48 "CHR ''0''"] by auto
  ultimately show ?thesis
    using dropWhile_show_nat [OF r, of n] by (simp add: number_integer_def c isdigit_def)
qed (simp add: number_integer_def)

lemma number_tail_delim:
  "delim r \<Longrightarrow> number_fraction r = Inr (False, r) \<and> number_exponent r = Inr (False, r)"
  by (cases r) (auto simp: number_fraction_def number_exponent_def delim_def)

lemma parse_number_show_int:
  assumes "int64_range i" "delim r"
  shows "parse_number (show_int i @ r) = Inr (JInt i, r)"
proof -
  let ?s = "show_int i @ r"
  have "number_integer (case ?s of c # r \<Rightarrow> if c = CHR ''-'' then r else ?s | [] \<Rightarrow> ?s) = Inr r"
  proof (cases "i < 0")
    case True
    then show ?thesis by (simp add: show_int_def number_integer_show_nat assms(2))
  next
    case False
    obtain c cs where c: "show_nat (nat i) = c # cs" by (cases "show_nat (nat i)") auto
    have "c \<noteq> CHR ''-''"
      using show_nat_digits [of "nat i"] by (auto simp: c isdigit_def)
    then show ?thesis
      using number_integer_show_nat [OF assms(2), of "nat i"] False by (simp add: show_int_def c)
  qed
  then show ?thesis
    using assms by (simp add: parse_number_def number_tail_delim number_value_def
        from_chars_i64_show_int)
qed


section \<open>Whole values survive printing\<close>

fun double_free :: "json \<Rightarrow> bool" where
  "double_free (JDouble v) = False"
| "double_free (JArray xs) = list_all double_free xs"
| "double_free (JObject m) = list_all (\<lambda>(k, v). double_free v) m"
| "double_free _ = True"

definition member_text :: "string \<times> json \<Rightarrow> string" where
  "member_text kv = quoted (fst kv) @ '':'' @ stringify (snd kv)"

definition reads :: "json presult option \<Rightarrow> json \<Rightarrow> string \<Rightarrow> bool" where
  "reads p v r \<longleftrightarrow> p = None \<or> p = Some (Inr (v, r))"

lemma skip_space_Cons [simp]: "\<not> json_space c \<Longrightarrow> skip_space (c # s) = c # s"
  by (simp add: skip_space_def)

lemma skip_space_Nil [simp]: "skip_space [] = []"
  by (simp add: skip_space_def)

lemma not_space [simp]:
  "\<not> json_space (CHR '','')" "\<not> json_space (CHR '']'')" "\<not> json_space (CHR ''}'')"
  "\<not> json_space (CHR '':'')" "\<not> json_space (CHR 0x22)" "\<not> json_space (CHR ''['')"
  "\<not> json_space (CHR ''{'')" "\<not> json_space (CHR ''t'')" "\<not> json_space (CHR ''f'')"
  "\<not> json_space (CHR ''n'')" "\<not> json_space (CHR ''-'')"
  by (simp_all add: json_space_def)

lemma digit_not_space: "isdigit c \<Longrightarrow> \<not> json_space c"
  by (auto simp: isdigit_def json_space_def)

lemma show_int_head:
  obtains c cs where "show_int i = c # cs" "c = CHR ''-'' \<or> isdigit c"
proof (cases "show_int i")
  case Nil
  then show ?thesis by (simp add: show_int_def split: if_splits)
next
  case (Cons c cs)
  then have "c = CHR ''-'' \<or> isdigit c"
    using show_nat_digits [of "nat i"] by (auto simp: show_int_def split: if_splits)
  with Cons show ?thesis by (rule that)
qed

lemma after_item_close [simp]:
  "\<not> json_space c \<Longrightarrow> after_item c d (c # r) k = Some (Inr (d, r))"
  by (simp add: after_item_def)

lemma after_item_comma [simp]:
  "c \<noteq> CHR '','' \<Longrightarrow> after_item c d (CHR '','' # r) k = k r"
  by (simp add: after_item_def)

lemma reads_and_then:
  "reads p v s \<Longrightarrow> reads (k v s) w r \<Longrightarrow> reads (and_then p k) w r"
  by (auto simp: reads_def and_then_def)

lemma reads_array:
  assumes "\<And>y n q. y \<in> set ys \<Longrightarrow> delim q \<Longrightarrow> reads (parse_value n (stringify y @ q)) y q"
    and "ys \<noteq> []"
  shows "reads (parse_array n xs (commas (map stringify ys) @ CHR '']'' # r)) (JArray (xs @ ys)) r"
  using assms
proof (induction ys arbitrary: n xs)
  case (Cons y ys)
  show ?case
  proof (cases n)
    case n: (Suc n')
    show ?thesis
    proof (cases ys)
      case Nil
      show ?thesis
        using Cons.prems(1) [of y "CHR '']'' # r" n'] unfolding n parse_array.simps
        by (simp add: Nil) (erule reads_and_then, simp add: reads_def)
    next
      case (Cons z zs)
      let ?rest = "commas (map stringify ys) @ CHR '']'' # r"
      have "reads (parse_array n' (xs @ [y]) ?rest) (JArray ((xs @ [y]) @ ys)) r"
        using Cons.prems(1) Cons by (intro Cons.IH) auto
      then show ?thesis
        using Cons.prems(1) [of y "CHR '','' # ?rest" n'] unfolding n parse_array.simps
        by (simp add: Cons) (erule reads_and_then, simp)
    qed
  qed (simp add: reads_def)
qed simp

lemma reads_object:
  assumes "\<And>k v n q. (k, v) \<in> set kvs \<Longrightarrow> delim q \<Longrightarrow> reads (parse_value n (stringify v @ q)) v q"
    and "kvs \<noteq> []" and "distinct (map fst kvs)" and "\<forall>k \<in> fst ` set kvs. smap_find m k = None"
  shows "reads (parse_object n m (commas (map member_text kvs) @ CHR ''}'' # r))
    (JObject (fold (\<lambda>(k, v). smap_put k v) kvs m)) r"
  using assms
proof (induction kvs arbitrary: n m)
  case (Cons kv kvs)
  obtain k v where kv: "kv = (k, v)" by (cases kv)
  have str: "parse_string (skip_space (quoted k @ q)) = Inr (k, q)" for q
    using parse_string_quoted [of k q] by (simp add: quoted_def)
  have em: "smap_emplace k v m = (smap_put k v m, True)"
    using Cons.prems(4) by (simp add: kv smap_emplace_def)
  have step: "reads (parse_object (Suc n') m (member_text kv @ q)) w r"
    if "delim q" "reads (after_item (CHR ''}'') (JObject (smap_put k v m)) q
      (parse_object n' (smap_put k v m))) w r" for n' q w
    using Cons.prems(1) [of k v q n'] that
    by (simp add: member_text_def kv str em and_then_def [of "Some (Inr _)"])
      (erule reads_and_then, simp add: em)
  show ?case
  proof (cases n)
    case n: (Suc n')
    show ?thesis
    proof (cases kvs)
      case Nil
      then show ?thesis
        unfolding n using step [of "CHR ''}'' # r"] by (simp add: kv reads_def)
    next
      case (Cons z zs)
      let ?rest = "commas (map member_text kvs) @ CHR ''}'' # r"
      have "reads (parse_object n' (smap_put k v m) ?rest)
          (JObject (fold (\<lambda>(k, v). smap_put k v) kvs (smap_put k v m))) r"
        using Cons.prems Cons by (intro Cons.IH) (auto simp: kv smap_find_put)
      then show ?thesis
        unfolding n using step [of "CHR '','' # ?rest" n'] by (simp add: Cons kv)
    qed
  qed (simp add: reads_def)
qed simp

lemma commas_map_nonempty:
  assumes "xs \<noteq> []" and "\<And>x. x \<in> set xs \<Longrightarrow> \<exists>c cs. f x = c # cs \<and> P c"
  shows "\<exists>c cs. commas (map f xs) = c # cs \<and> P c"
proof (cases xs)
  case (Cons x ys)
  then show ?thesis
    using assms(2) [of x] by (cases ys) auto
qed (use assms in simp)

lemma stringify_head:
  assumes "double_free v"
  shows "\<exists>c cs. stringify v = c # cs \<and> \<not> json_space c \<and> c \<noteq> CHR '']''"
proof (cases v)
  case (JInt i)
  obtain c cs where "show_int i = c # cs" "c = CHR ''-'' \<or> isdigit c"
    by (rule show_int_head)
  then show ?thesis
    using JInt digit_not_space by (auto simp: isdigit_def)
qed (use assms in \<open>auto simp: quoted_def\<close>)

lemma member_text_head: "\<exists>c cs. member_text kv = c # cs \<and> \<not> json_space c \<and> c \<noteq> CHR ''}''"
  by (simp add: member_text_def quoted_def)

lemma stringify_JObject:
  "stringify (JObject m) = ''{'' @ commas (map member_text m) @ ''}''"
proof -
  have "(\<lambda>(k, v). quoted k @ '':'' @ stringify v) = member_text"
    by (auto simp: member_text_def fun_eq_iff)
  then show ?thesis by simp
qed

lemma fold_put_sorted: "smap_inv (m @ kvs) \<Longrightarrow> fold (\<lambda>(k, v). smap_put k v) kvs m = m @ kvs"
proof (induction kvs arbitrary: m)
  case (Cons kv kvs)
  obtain k v where kv: "kv = (k, v)" by (cases kv)
  have "smap_inv ((m @ [(k, v)]) @ kvs)"
    using Cons.prems by (simp add: kv)
  then have "\<forall>k' \<in> fst ` set m. k' < k"
    by (auto simp: smap_inv_def sorted_wrt_append)
  then show ?case
    using Cons.IH [of "m @ [(k, v)]"] Cons.prems by (simp add: kv smap_put_append)
qed simp

lemma reads_open_object:
  assumes "kvs \<noteq> []"
    and "reads (parse_object n [] (commas (map member_text kvs) @ CHR ''}'' # r)) w r"
  shows "reads (parse_value (Suc n) (''{'' @ commas (map member_text kvs) @ CHR ''}'' # r)) w r"
proof -
  obtain c cs where "commas (map member_text kvs) = c # cs" "\<not> json_space c \<and> c \<noteq> CHR ''}''"
    using commas_map_nonempty [OF assms(1) member_text_head, of "\<lambda>kv. kv"] by auto
  with assms(2) show ?thesis by simp
qed

lemma reads_stringify:
  "json_wf v \<Longrightarrow> double_free v \<Longrightarrow> delim r \<Longrightarrow> reads (parse_value n (stringify v @ r)) v r"
proof (induction v arbitrary: n r)
  case JNull
  then show ?case
    by (cases n) (simp_all add: reads_def parse_scalar_def literal_def)
next
  case (JBool b)
  then show ?case
    by (cases n; cases b) (simp_all add: reads_def parse_scalar_def literal_def)
next
  case (JDouble d)
  then show ?case by simp
next
  case (JInt i)
  obtain c cs where c: "show_int i = c # cs" "c = CHR ''-'' \<or> isdigit c"
    by (rule show_int_head)
  have nc: "c \<notin> {CHR ''{'', CHR ''['', CHR 0x22, CHR ''t'', CHR ''f'', CHR ''n''}" "\<not> json_space c"
    using c(2) digit_not_space by (auto simp: isdigit_def)
  have "parse_number (c # cs @ r) = Inr (JInt i, r)"
    using parse_number_show_int [of i r] JInt.prems by (simp add: c)
  then show ?case
    using c nc by (cases n) (auto simp: reads_def parse_scalar_def)
next
  case (JString s)
  have "parse_string (CHR 0x22 # escape s @ CHR 0x22 # r) = Inr (s, r)"
    using parse_string_quoted [of s r] by (simp add: quoted_def)
  then show ?case
    by (cases n) (simp_all add: reads_def parse_scalar_def quoted_def)
next
  case (JArray xs)
  show ?case
  proof (cases "n = 0 \<or> xs = []")
    case True
    then show ?thesis by (cases n) (auto simp: reads_def)
  next
    case False
    then obtain n' where n: "n = Suc n'" by (cases n) auto
    obtain c cs where c: "commas (map stringify xs) = c # cs" "\<not> json_space c \<and> c \<noteq> CHR '']''"
      using commas_map_nonempty [OF _ stringify_head, of xs "\<lambda>x. x"] False JArray.prems(2)
      by (auto simp: list.pred_set)
    have "reads (parse_array n' [] (commas (map stringify xs) @ CHR '']'' # r)) (JArray ([] @ xs)) r"
      using JArray False by (intro reads_array) (auto simp: list.pred_set)
    then show ?thesis
      using c by (simp add: n)
  qed
next
  case (JObject m)
  show ?case
  proof (cases "n = 0 \<or> m = []")
    case True
    then show ?thesis by (cases n) (auto simp: reads_def)
  next
    case False
    then obtain n' where n: "n = Suc n'" by (cases n) auto
    have inv: "smap_inv m" using JObject.prems by simp
    have "reads (parse_object n' [] (commas (map member_text m) @ CHR ''}'' # r))
        (JObject (fold (\<lambda>(k, v). smap_put k v) m [])) r"
    proof (rule reads_object)
      fix k v n q
      assume "(k, v) \<in> set m" "delim q"
      then show "reads (parse_value n (stringify v @ q)) v q"
        using JObject.prems by (intro JObject.IH) (auto simp: list.pred_set)
    qed (use False inv smap_inv_distinct in auto)
    then show ?thesis
      using reads_open_object [of m n' r "JObject m"] False fold_put_sorted [of "[]" m] inv
      by (simp only: n stringify_JObject append_assoc append_Nil) simp
  qed
qed

lemma parse_reads:
  assumes "\<And>n. reads (parse_value n (skip_space s)) v r" and "skip_space r = []"
  shows "parse s = Inr v"
proof -
  have "parse_value (parse_fuel s) (skip_space s) \<noteq> None"
    using parse_run_terminates [of s] by (simp add: parse_run_def)
  then show ?thesis
    using assms unfolding parse_Inr_iff by (metis reads_def)
qed


section \<open>The log line is one line of JSON\<close>

definition log_members ::
  "string \<Rightarrow> nat \<Rightarrow> log_level \<Rightarrow> string \<Rightarrow> string \<Rightarrow> (string \<times> string) list \<Rightarrow> (string \<times> json) list" where
  "log_members ts pid level event message fields =
     [(''ts'', JString ts), (''level'', JString (level_name level)), (''component'', JString ''palmod''),
      (''event'', JString event), (''message'', JString message), (''pid'', JInt (int pid))]
     @ map (\<lambda>(k, v). (k, JString v)) fields"

definition log_reserved :: "string list" where
  "log_reserved = [''ts'', ''level'', ''component'', ''event'', ''message'', ''pid'']"

lemma hex_digit_char_range: "d < 16 \<Longrightarrow> 0x20 \<le> code (hex_digit_char d)"
  by (drule less_16_cases) (auto simp: hex_digit_char_def)

lemma escape_char_no_control: "x \<in> set (escape_char c) \<Longrightarrow> 0x20 \<le> code x"
  using hex_digit_char_range [of "code c div 16"] hex_digit_char_range [of "code c mod 16"]
  by (auto simp: escape_char_def split: if_splits)

lemma escape_no_control: "x \<in> set (escape s) \<Longrightarrow> 0x20 \<le> code x"
  by (auto simp: escape_def dest: escape_char_no_control)

lemma commas_Cons: "commas (x # xs) = x @ concat (map (\<lambda>y. '','' @ y) xs)"
  by (induction xs arbitrary: x) auto

lemma escape_plain [simp]: "escape (level_name l) = level_name l" "escape ''palmod'' = ''palmod''"
  "escape ''ts'' = ''ts''" "escape ''level'' = ''level''" "escape ''component'' = ''component''"
  "escape ''event'' = ''event''" "escape ''message'' = ''message''" "escape ''pid'' = ''pid''"
  by (cases l) (simp_all add: escape_def escape_char_def)

lemma log_field_member: "log_field (k, v) = '','' @ member_text (k, JString v)"
  by (simp add: log_field_def member_text_def quoted_def)

lemma log_line_members:
  assumes "escape ts = ts"
  shows "log_line ts pid level event message fields =
    ''{'' @ commas (map member_text (log_members ts pid level event message fields)) @ ''}'' @ [CHR 0x0A]"
proof -
  have "concat (map log_field fields) =
    concat (map (\<lambda>y. '','' @ y) (map member_text (map (\<lambda>(k, v). (k, JString v)) fields)))"
    by (induction fields) (auto simp: log_field_member)
  then show ?thesis
    using assms by (simp add: log_line_def log_members_def commas_Cons member_text_def quoted_def
        show_int_def)
qed

lemma log_members_keys:
  "map fst (log_members ts pid level event message fields) = log_reserved @ map fst fields"
  by (simp add: log_members_def log_reserved_def case_prod_beta comp_def)

lemma log_line_reads:
  assumes "escape ts = ts" and "int64_range (int pid)"
    and "distinct (log_reserved @ map fst fields)"
  shows "parse (log_line ts pid level event message fields) =
    Inr (JObject (fold (\<lambda>(k, v). smap_put k v) (log_members ts pid level event message fields) []))"
    (is "parse ?line = Inr (JObject (fold _ ?ms []))")
proof (rule parse_reads)
  fix n
  have nonempty: "?ms \<noteq> []" by (simp add: log_members_def)
  have members: "reads (parse_value n (stringify v @ q)) v q"
    if "(k, v) \<in> set ?ms" "delim q" for k v n q
  proof (rule reads_stringify)
    show "json_wf v" "double_free v"
      using that(1) assms(2) by (auto simp: log_members_def)
  qed (fact that(2))
  have obj: "reads (parse_object m [] (commas (map member_text ?ms) @ CHR ''}'' # [CHR 0x0A]))
      (JObject (fold (\<lambda>(k, v). smap_put k v) ?ms [])) [CHR 0x0A]" for m
    using members nonempty
    by (rule reads_object) (use assms(3) in \<open>simp_all add: log_members_keys\<close>)
  have line: "skip_space ?line = ''{'' @ commas (map member_text ?ms) @ CHR ''}'' # [CHR 0x0A]"
    using assms(1) by (simp add: log_line_members)
  show "reads (parse_value n (skip_space ?line)) (JObject (fold (\<lambda>(k, v). smap_put k v) ?ms [])) [CHR 0x0A]"
  proof (cases n)
    case (Suc m)
    show ?thesis
      unfolding line Suc by (rule reads_open_object [OF nonempty obj])
  qed (simp add: reads_def)
qed (simp add: skip_space_def json_space_def)


lemma smap_find_built:
  assumes "distinct (map fst kvs)" and "(k, v) \<in> set kvs"
  shows "smap_find (fold (\<lambda>(k, v). smap_put k v) kvs []) k = Some v"
proof -
  have "map_of (rev kvs) k = Some v"
    using assms by (simp add: rev_map [symmetric])
  then show ?thesis
    using smap.find_fold_put [OF smap.inv_empty, of kvs] by (simp add: map_add_def)
qed

lemma log_line_printable:
  assumes "escape ts = ts"
  shows "\<forall>c \<in> set (butlast (log_line ts pid level event message fields)). 0x20 \<le> code c"
proof -
  have ts: "\<forall>c \<in> set ts. 0x20 \<le> code c"
    using escape_no_control [of _ ts] assms by simp
  have pid: "\<forall>c \<in> set (show_nat pid). 0x20 \<le> code c"
    using show_nat_digits [of pid] by (auto simp: isdigit_def)
  have "\<forall>c \<in> set (level_name level). 0x20 \<le> code c"
    by (cases level) auto
  then show ?thesis
    using ts pid by (auto simp: log_line_def log_field_def butlast_append dest: escape_no_control)
qed

text \<open>What the printer writes, the parser reads.\<close>

lemma parse_printed:
  assumes "json_wf v" and "double_free v"
  shows "parse (stringify v) = Inr v"
proof (rule parse_reads)
  fix n
  obtain c cs where "stringify v = c # cs" "\<not> json_space c"
    using stringify_head [OF assms(2)] by blast
  then have "skip_space (stringify v) = stringify v" by simp
  then show "reads (parse_value n (skip_space (stringify v))) v []"
    using reads_stringify [OF assms, of "[]" n] by simp
qed simp

text \<open>A log record with a plain time stamp is one line and a JSON object in which every field reads back.\<close>

lemma log_line_one_json_line:
  assumes "escape ts = ts" and "int64_range (int pid)"
    and "distinct (log_reserved @ map fst fields)"
  shows "\<exists>line obj. log_line ts pid level event message fields = line @ [CHR 0x0A] \<and>
    (\<forall>c \<in> set line. 0x20 \<le> code c) \<and>
    parse (log_line ts pid level event message fields) = Inr (JObject obj) \<and>
    json_get obj ''event'' = Some (JString event) \<and>
    json_get obj ''message'' = Some (JString message) \<and>
    (\<forall>(k, v) \<in> set fields. json_get obj k = Some (JString v))"
proof -
  let ?ms = "log_members ts pid level event message fields"
  let ?obj = "fold (\<lambda>(k, v). smap_put k v) ?ms []"
  have dist: "distinct (map fst ?ms)"
    using assms(3) by (simp only: log_members_keys)
  have get: "json_get ?obj k = Some v" if "(k, v) \<in> set ?ms" for k v
    using smap_find_built [OF dist that] by (simp add: json_get_def)
  let ?line = "butlast (log_line ts pid level event message fields)"
  have line: "log_line ts pid level event message fields = ?line @ [CHR 0x0A]"
    by (simp add: log_line_def butlast_append)
  have "\<forall>c \<in> set ?line. 0x20 \<le> code c"
    using log_line_printable [OF assms(1), of pid level event message fields] .
  moreover have "parse (log_line ts pid level event message fields) = Inr (JObject ?obj)"
    by (rule log_line_reads) fact+
  moreover have "json_get ?obj ''event'' = Some (JString event)"
    "json_get ?obj ''message'' = Some (JString message)"
    by (rule get, simp add: log_members_def)+
  moreover have "\<forall>(k, v) \<in> set fields. json_get ?obj k = Some (JString v)"
  proof (intro ballI, clarify)
    fix k v
    assume "(k, v) \<in> set fields"
    then have "(k, JString v) \<in> set ?ms" by (force simp: log_members_def)
    then show "json_get ?obj k = Some (JString v)" by (rule get)
  qed
  ultimately show ?thesis
    using line by blast
qed


section \<open>Properties\<close>

text \<open>C12: Printing then parsing is the identity on every well-formed JSON value that holds no
  double: integers in the 64-bit range, objects with strictly ascending keys, arbitrary byte
  strings.\<close>

theorem parse_stringify:
  assumes "json_wf v" and "double_free v"
  shows "parse (stringify v) = Inr v"
  using assms by (rule parse_printed)

theorem parse_stringify_witness:
  "parse (stringify (JObject [(''a'', JArray [JInt (- 7), JString [CHR 0x0A, CHR 0x22, CHR 0x01]]),
     (''b'', JNull)])) =
   Inr (JObject [(''a'', JArray [JInt (- 7), JString [CHR 0x0A, CHR 0x22, CHR 0x01]]), (''b'', JNull)])"
  by (rule parse_stringify) (simp_all add: int64_range_def smap_inv_def)

text \<open>C26: The parser always terminates with a result (the fuel of the model never runs out), and
  a value it returns is well-formed: integers fit 64 bits, doubles are finite, object keys are
  strictly ascending and unique.\<close>

theorem parse_total_wf:
  "parse_run (parse_fuel s) s = Some (parse s) \<and>
   (case parse s of Inl msg \<Rightarrow> True | Inr v \<Rightarrow> json_wf v)"
  using parse_run_terminates [of s] parse_result_wf [of s]
  by (auto simp: parse_def split: sum.splits option.splits)

end
