(* ===== verification/Palmod_Log.thy ===== *)
theory Palmod_Log
  imports Palmod_Json_Correct
begin

text \<open>
  \<^verbatim>\<open>JsonLog::write\<close> (\<^verbatim>\<open>native/src/json_log.cpp\<close>) as one step on the bytes written to the standard error
  stream.  The broken-down time is what \<^verbatim>\<open>gmtime_r\<close> gives for the clock; \<^verbatim>\<open>strftime\<close> with the format of
  the source is written out.  The system clock counts nanoseconds in 64 bits, so its years have
  four digits.
\<close>

record civil_time =
  ct_year :: nat
  ct_month :: nat
  ct_day :: nat
  ct_hour :: nat
  ct_minute :: nat
  ct_second :: nat

text \<open>What \<^verbatim>\<open>gmtime_r\<close> promises; a leap second counts as second 60.\<close>

definition civil_ok :: "civil_time \<Rightarrow> bool" where
  "civil_ok t \<longleftrightarrow> 1000 \<le> ct_year t \<and> ct_year t \<le> 9999 \<and> 1 \<le> ct_month t \<and> ct_month t \<le> 12 \<and> 1 \<le> ct_day t \<and>
     ct_day t \<le> 31 \<and> ct_hour t \<le> 23 \<and> ct_minute t \<le> 59 \<and> ct_second t \<le> 60"

definition two_digits :: "nat \<Rightarrow> string" where
  "two_digits n = [digit_char (n div 10), digit_char (n mod 10)]"

definition log_timestamp :: "civil_time \<Rightarrow> string" where
  "log_timestamp t =
     show_nat (ct_year t) @ ''-'' @ two_digits (ct_month t) @ ''-'' @ two_digits (ct_day t) @ ''T'' @
     two_digits (ct_hour t) @ '':'' @ two_digits (ct_minute t) @ '':'' @ two_digits (ct_second t) @ ''Z''"

definition log_write ::
  "civil_time \<Rightarrow> nat \<Rightarrow> log_level \<Rightarrow> string \<Rightarrow> string \<Rightarrow> (string \<times> string) list \<Rightarrow> string \<Rightarrow> string" where
  "log_write t pid level event message kvs err =
     err @ log_line (log_timestamp t) pid level event message kvs"

lemma digit_char_digit: "d < 10 \<Longrightarrow> isdigit (digit_char d)"
  by (simp add: digit_char_def isdigit_def)

lemma timestamp_plain:
  assumes "civil_ok t"
  shows "escape (log_timestamp t) = log_timestamp t"
proof -
  have digit: "escape_char c = [c]" if "isdigit c" for c
  proof -
    have range: "48 \<le> code c \<and> code c \<le> 57" using that by (simp add: isdigit_def)
    then have "c \<notin> {CHR 0x22, CHR 0x5C, CHR 0x08, CHR 0x0C, CHR 0x0A, CHR 0x0D, CHR 0x09}" by auto
    then show ?thesis using range unfolding escape_char_def by simp
  qed
  have two: "\<forall>c \<in> set (two_digits n). isdigit c" if "n < 100" for n
    using that by (simp add: two_digits_def digit_char_digit less_mult_imp_div_less)
  have plain: "escape s = s" if "\<forall>c \<in> set s. isdigit c" for s
    using that by (induction s) (simp_all add: escape_def digit)
  have joined: "escape (xs @ ys) = escape xs @ escape ys" for xs ys
    by (simp add: escape_def)
  have marks: "escape ''-'' = ''-''" "escape ''T'' = ''T''" "escape '':'' = '':''" "escape ''Z'' = ''Z''"
    by (simp_all add: escape_def escape_char_def)
  show ?thesis
    unfolding log_timestamp_def joined marks
    using assms plain [OF show_nat_digits] plain [OF two] by (simp add: civil_ok_def)
qed


section \<open>Properties\<close>



end
