(* ===== verification/Palmod_Utf16.thy ===== *)
theory Palmod_Utf16
  imports Palmod_Prelude
begin

text \<open>
  The transcoders of \<^verbatim>\<open>native/src/utf16.cpp\<close>: Unreal's UTF-16 strings to the UTF-8 the
  rest of the program uses, and back.  A code point (\<^verbatim>\<open>char32_t\<close>) is a 32-bit word, a
  code unit (\<^verbatim>\<open>char16_t\<close>) a 16-bit word.
\<close>

section \<open>The transcoders\<close>

definition kReplacement :: u32 where
  "kReplacement = 0xfffd"

definition byte_of :: "char \<Rightarrow> u32" where
  "byte_of c = of_nat (code c)"

definition utf8_char :: "u32 \<Rightarrow> char" where
  "utf8_char w = char_of (unat w)"

definition append_utf8_cp :: "string \<Rightarrow> u32 \<Rightarrow> string" where
  "append_utf8_cp out cp =
     (if cp \<le> 0x7f then out @ [utf8_char cp]
      else if cp \<le> 0x7ff then
        out @ [utf8_char (0xc0 OR drop_bit 6 cp), utf8_char (0x80 OR (cp AND 0x3f))]
      else if cp \<le> 0xffff then
        out @ [utf8_char (0xe0 OR drop_bit 12 cp),
               utf8_char (0x80 OR (drop_bit 6 cp AND 0x3f)),
               utf8_char (0x80 OR (cp AND 0x3f))]
      else
        out @ [utf8_char (0xf0 OR drop_bit 18 cp),
               utf8_char (0x80 OR (drop_bit 12 cp AND 0x3f)),
               utf8_char (0x80 OR (drop_bit 6 cp AND 0x3f)),
               utf8_char (0x80 OR (cp AND 0x3f))])"

text \<open>One round of \<^verbatim>\<open>utf8_to_utf16\<close>'s loop: the code point at the front and its length.\<close>

definition cont :: "string \<Rightarrow> nat \<Rightarrow> bool" where
  "cont s k \<longleftrightarrow> k < length s \<and> byte_of (s ! k) AND 0xc0 = 0x80"

definition decode_utf8 :: "string \<Rightarrow> u32 \<times> nat" where
  "decode_utf8 s =
     (let b0 = byte_of (s ! 0)
      in if b0 < 0x80 then (b0, 1)
         else if b0 AND 0xe0 = 0xc0 \<and> cont s 1 then
           (let cp = push_bit 6 (b0 AND 0x1f) OR (byte_of (s ! 1) AND 0x3f)
            in (if cp < 0x80 then kReplacement else cp, 2))
         else if b0 AND 0xf0 = 0xe0 \<and> cont s 1 \<and> cont s 2 then
           (let cp = push_bit 12 (b0 AND 0x0f) OR push_bit 6 (byte_of (s ! 1) AND 0x3f)
                       OR (byte_of (s ! 2) AND 0x3f)
            in (if cp < 0x800 then kReplacement else cp, 3))
         else if b0 AND 0xf8 = 0xf0 \<and> cont s 1 \<and> cont s 2 \<and> cont s 3 then
           (let cp = push_bit 18 (b0 AND 0x07) OR push_bit 12 (byte_of (s ! 1) AND 0x3f)
                       OR push_bit 6 (byte_of (s ! 2) AND 0x3f) OR (byte_of (s ! 3) AND 0x3f)
            in (if cp < 0x10000 \<or> 0x10ffff < cp then kReplacement else cp, 4))
         else (kReplacement, 1))"

definition push_utf16 :: "u16 list \<Rightarrow> u32 \<Rightarrow> u16 list" where
  "push_utf16 out cp =
     (if cp \<le> 0xffff then out @ [ucast cp]
      else (let v = cp - 0x10000
            in out @ [ucast (0xd800 + drop_bit 10 v), ucast (0xdc00 + (v AND 0x3ff))]))"

lemma decode_utf8_len: "1 \<le> snd (decode_utf8 s)"
  by (simp add: decode_utf8_def Let_def)

function utf8_loop :: "u16 list \<Rightarrow> string \<Rightarrow> u16 list" where
  "utf8_loop out s =
     (if s = [] then out
      else (let (cp, len) = decode_utf8 s in utf8_loop (push_utf16 out cp) (drop len s)))"
  by pat_completeness auto
termination
proof (relation "measure (\<lambda>(out, s). length s)")
  fix out :: "u16 list" and s :: string and x cp len
  assume "s \<noteq> []" "x = decode_utf8 s" "(cp, len) = x"
  then have "1 \<le> len" using decode_utf8_len [of s] by (metis snd_conv)
  with \<open>s \<noteq> []\<close> show "((push_utf16 out cp, drop len s), out, s) \<in> measure (\<lambda>(out, s). length s)"
    by simp
qed simp

declare utf8_loop.simps [simp del]

definition utf8_to_utf16 :: "string \<Rightarrow> u16 list" where
  "utf8_to_utf16 s = utf8_loop [] s"

definition is_high :: "u16 \<Rightarrow> bool" where
  "is_high u \<longleftrightarrow> 0xd800 \<le> u \<and> u \<le> 0xdbff"

definition is_low :: "u16 \<Rightarrow> bool" where
  "is_low u \<longleftrightarrow> 0xdc00 \<le> u \<and> u \<le> 0xdfff"

definition pair_cp :: "u16 \<Rightarrow> u16 \<Rightarrow> u32" where
  "pair_cp unit low = 0x10000 + (push_bit 10 (ucast (unit - 0xd800)) OR ucast (low - 0xdc00))"

fun utf16_loop :: "string \<Rightarrow> u16 list \<Rightarrow> string" where
  "utf16_loop out [] = out"
| "utf16_loop out (unit # us) =
     (if is_high unit then
        (case us of
           low # us' \<Rightarrow>
             if is_low low then utf16_loop (append_utf8_cp out (pair_cp unit low)) us'
             else utf16_loop (append_utf8_cp out kReplacement) us
         | [] \<Rightarrow> utf16_loop (append_utf8_cp out kReplacement) us)
      else if is_low unit then utf16_loop (append_utf8_cp out kReplacement) us
      else utf16_loop (append_utf8_cp out (ucast unit)) us)"

text \<open>A null pointer gives the empty string.\<close>

definition utf16_to_utf8 :: "u16 list option \<Rightarrow> string" where
  "utf16_to_utf8 units = (case units of None \<Rightarrow> [] | Some us \<Rightarrow> utf16_loop [] us)"


section \<open>Bit fields\<close>

lemma byte_of_utf8_char: "w < 0x100 \<Longrightarrow> byte_of (utf8_char w) = w"
  by (simp add: byte_of_def utf8_char_def word_less_nat_alt)

lemma mask_numerals:
  "(0x3f :: u32) = mask 6" "(0x1f :: u32) = mask 5" "(0x0f :: u32) = mask 4" "(0x07 :: u32) = mask 3"
  "(0x3ff :: u32) = mask 10"
  by (simp_all add: mask_eq_exp_minus_1)

lemma join_fields:
  fixes w :: u32
  shows "push_bit 6 (drop_bit 6 w) OR (w AND mask 6) = w"
    and "push_bit 12 (drop_bit 12 w) OR push_bit 6 (drop_bit 6 w AND mask 6) OR (w AND mask 6) = w"
    and "push_bit 18 (drop_bit 18 w) OR push_bit 12 (drop_bit 12 w AND mask 6)
      OR push_bit 6 (drop_bit 6 w AND mask 6) OR (w AND mask 6) = w"
  subgoal by (rule bit_eqI) (auto simp: bit_simps)
  subgoal by (rule bit_eqI, rename_tac n, case_tac "n < 12") (auto simp: bit_simps)
  subgoal by (rule bit_eqI, rename_tac n, case_tac "n < 12"; case_tac "n < 18") (auto simp: bit_simps)
  done

lemma and_mask_small:
  assumes "unat (x :: u32) < 2 ^ n"
  shows "x AND mask n = x"
  using assms by (simp add: word_unat_eq_iff unsigned_take_bit_eq take_bit_nat_eq_self flip: take_bit_eq_mask)



section \<open>One code point\<close>


definition lead_ok :: "u32 \<Rightarrow> u32 \<Rightarrow> u32 \<Rightarrow> nat \<Rightarrow> bool" where
  "lead_ok tag hi low n \<longleftrightarrow>
     (let b = tag OR of_nat n in b < 0x100 \<and> \<not> b < 0x80 \<and> b AND hi = tag \<and> b AND low = of_nat n)"

lemma lead_table:
  "list_all (lead_ok 0xc0 0xe0 0x1f) [0..<32]"
  "list_all (lead_ok 0xe0 0xf0 0x0f) [0..<16]"
  "list_all (lead_ok 0xf0 0xf8 0x07) [0..<8]"
  "list_all (lead_ok 0x80 0xc0 0x3f) [0..<64]"
  by code_simp+

lemma lead_okI:
  assumes "list_all (lead_ok tag hi low) [0..<k]" "unat w < k"
  shows "tag OR w < 0x100" "\<not> tag OR w < 0x80" "(tag OR w) AND hi = tag" "(tag OR w) AND low = w"
  using assms by (auto simp: list_all_iff lead_ok_def Let_def dest!: bspec [of _ _ "unat w"])

lemma unat_drop_bit_less:
  "unat (w :: u32) < k * 2 ^ n \<Longrightarrow> unat (drop_bit n w) < k"
  by (simp add: unat_drop_bit_eq less_mult_imp_div_less flip: drop_bit_eq_div) (simp add: drop_bit_eq_div less_mult_imp_div_less)

lemma unat_and_mask6: "unat ((w :: u32) AND 0x3f) < 64"
proof -
  have "w AND 0x3f \<le> 0x3f" by (rule word_and_le1)
  then show ?thesis by (simp add: word_le_nat_alt)
qed

lemmas lead2 = lead_okI [OF lead_table(1)]
lemmas lead3 = lead_okI [OF lead_table(2)]
lemmas lead4 = lead_okI [OF lead_table(3)]
lemmas contb = lead_okI [OF lead_table(4) unat_and_mask6]

lemma lead2_not: "unat w < 16 \<Longrightarrow> (0xe0 OR w) AND 0xe0 \<noteq> (0xc0::u32)"
proof -
  have "list_all (\<lambda>n. (0xe0 OR of_nat n) AND 0xe0 \<noteq> (0xc0::u32)) [0..<16]" by code_simp
  moreover assume "unat w < 16"
  ultimately show ?thesis by (auto simp: list_all_iff dest!: bspec [of _ _ "unat w"])
qed
lemma lead4_not: "unat w < 8 \<Longrightarrow> (0xf0 OR w) AND 0xe0 \<noteq> (0xc0::u32) \<and> (0xf0 OR w) AND 0xf0 \<noteq> (0xe0::u32)"
proof -
  have "list_all (\<lambda>n. (0xf0 OR of_nat n) AND 0xe0 \<noteq> (0xc0::u32) \<and> (0xf0 OR of_nat n) AND 0xf0 \<noteq> (0xe0::u32)) [0..<8]" by code_simp
  moreover assume "unat w < 8"
  ultimately show ?thesis by (auto simp: list_all_iff dest!: bspec [of _ _ "unat w"])
qed

lemma byte_of_cont [simp]: "byte_of (utf8_char (0x80 OR (w AND 0x3f))) = 0x80 OR (w AND 0x3f)"
  by (rule byte_of_utf8_char) (rule contb)

lemma decode_encoded:
  assumes "cp \<le> 0x10ffff"
  shows "decode_utf8 (append_utf8_cp [] cp @ rest) = (cp, length (append_utf8_cp [] cp))"
proof -
  consider "cp \<le> 0x7f" | "0x7f < cp" "cp \<le> 0x7ff" | "0x7ff < cp" "cp \<le> 0xffff" | "0xffff < cp" by fastforce
  then show ?thesis
  proof cases
    case 1
    then have "cp < 0x80" "cp < 0x100" by (auto simp: word_le_nat_alt word_less_nat_alt)
    with 1 show ?thesis by (simp add: append_utf8_cp_def decode_utf8_def Let_def byte_of_utf8_char)
  next
    case 2
    then have d: "unat (drop_bit 6 cp) < 32" by (intro unat_drop_bit_less) (simp add: word_le_nat_alt)
    have "\<not> cp \<le> 0x7f" "\<not> cp < 0x80" using 2 by (auto simp: word_le_nat_alt word_less_nat_alt)
    with 2 show ?thesis
      using lead2 [OF d] contb join_fields(1) [of cp]
      by (simp add: append_utf8_cp_def decode_utf8_def Let_def byte_of_utf8_char cont_def mask_numerals [symmetric])
  next
    case 3
    then have d: "unat (drop_bit 12 cp) < 16" by (intro unat_drop_bit_less) (simp add: word_le_nat_alt)
    have "\<not> cp \<le> 0x7f" "\<not> cp \<le> 0x7ff" "\<not> cp < 0x800" using 3 by (auto simp: word_le_nat_alt word_less_nat_alt)
    with 3 show ?thesis
      using lead3 [OF d] contb lead2_not [OF d] join_fields(2) [of cp]
      by (simp add: append_utf8_cp_def decode_utf8_def Let_def byte_of_utf8_char cont_def mask_numerals [symmetric])
  next
    case 4
    then have d: "unat (drop_bit 18 cp) < 8" using assms by (intro unat_drop_bit_less) (simp add: word_le_nat_alt)
    have "\<not> cp \<le> 0x7f" "\<not> cp \<le> 0x7ff" "\<not> cp \<le> 0xffff" "\<not> cp < 0x10000" "\<not> 0x10ffff < cp" using 4 assms by (auto simp: word_le_nat_alt word_less_nat_alt)
    with 4 show ?thesis
      using lead4 [OF d] contb lead4_not [OF d] join_fields(3) [of cp]
      by (simp add: append_utf8_cp_def decode_utf8_def Let_def byte_of_utf8_char cont_def mask_numerals [symmetric])
  qed
qed

lemma unat_and_mask10: "unat ((w :: u32) AND 0x3ff) = unat w mod 1024"
proof -
  have "w AND 0x3ff = take_bit 10 w" by (simp add: mask_numerals(5) flip: take_bit_eq_mask)
  then have "unat (w AND 0x3ff) = take_bit 10 (unat w)" by (simp only: unsigned_take_bit_eq)
  then show ?thesis by (simp add: take_bit_eq_mod)
qed

lemma unat_drop_bit10: "unat (drop_bit 10 (w :: u32)) = unat w div 1024"
  by (simp add: unat_drop_bit_eq flip: drop_bit_eq_div) (simp add: drop_bit_eq_div)

lemma pair_cp_unat:
  assumes "is_high h" "is_low l"
  shows "unat (pair_cp h l) = 0x10000 + (unat h - 0xd800) * 1024 + (unat l - 0xdc00)"
proof -
  have u: "unat h - 0xd800 < 1024" "unat l - 0xdc00 < 1024"
     "unat (ucast (h - 0xd800) :: u32) = unat h - 0xd800" "unat (ucast (l - 0xdc00) :: u32) = unat l - 0xdc00"
    using assms by (auto simp: is_high_def is_low_def word_le_nat_alt unat_sub unsigned_ucast_eq take_bit_nat_eq_self)
  then show ?thesis
    by (simp add: pair_cp_def unat_word_ariths unat_join [where k = 10])
qed

lemma push_utf16_pair:
  assumes "is_high h" "is_low l"
  shows "push_utf16 [] (pair_cp h l) = [h, l]"
proof -
  let ?v = "pair_cp h l - 0x10000"
  have b: "0xd800 \<le> unat h" "unat h \<le> 0xdbff" "0xdc00 \<le> unat l" "unat l \<le> 0xdfff"
    using assms by (auto simp: is_high_def is_low_def word_le_nat_alt)
  have big: "0x10000 \<le> pair_cp h l"
    using pair_cp_unat [OF assms] by (simp add: word_le_nat_alt)
  have v: "unat ?v = (unat h - 0xd800) * 1024 + (unat l - 0xdc00)"
    using pair_cp_unat [OF assms] big by (simp add: unat_sub)
  have "unat (0xd800 + drop_bit 10 ?v) = unat h"
    using b by (simp add: unat_word_ariths unat_drop_bit10 v)
  moreover have "unat (0xdc00 + (?v AND 0x3ff)) = unat l"
    using b by (simp add: unat_word_ariths unat_and_mask10 v flip: add_diff_assoc)
  moreover have "\<not> pair_cp h l \<le> 0xffff"
    using big by (simp add: word_le_nat_alt)
  ultimately show ?thesis
    using b by (simp add: push_utf16_def Let_def) (simp add: word_unat_eq_iff unsigned_ucast_eq take_bit_nat_eq_self)
qed

lemma pair_cp_le:
  assumes "is_high h" "is_low l"
  shows "pair_cp h l \<le> 0x10ffff"
proof -
  have "unat h \<le> 0xdbff" "unat l \<le> 0xdfff"
    using assms by (auto simp: is_high_def is_low_def word_le_nat_alt)
  then show ?thesis
    by (simp add: word_le_nat_alt pair_cp_unat [OF assms])
qed

lemma unat_ucast_u16: "unat (ucast (u :: u16) :: u32) = unat u"
  using unat_u16 [of u] by (simp add: unsigned_ucast_eq take_bit_nat_eq_self)

lemma ucast_ucast_u16: "ucast (ucast (u :: u16) :: u32) = u"
  by (rule bit_word_eqI) (auto simp: bit_simps)

lemma push_utf16_unit: "push_utf16 [] (ucast (u :: u16)) = [u]"
  using unat_u16 [of u] by (simp add: push_utf16_def word_le_nat_alt unat_ucast_u16 ucast_ucast_u16)

text \<open>A scalar value is a code point that is not a surrogate.\<close>

definition scalar_value :: "u32 \<Rightarrow> bool" where
  "scalar_value cp \<longleftrightarrow> cp \<le> 0x10ffff \<and> \<not> (0xd800 \<le> cp \<and> cp \<le> 0xdfff)"

lemma push_utf16_supplementary:
  assumes "0xffff < cp" "cp \<le> 0x10ffff"
  obtains h l where "push_utf16 [] cp = [h, l]" "is_high h" "is_low l" "pair_cp h l = cp"
proof
  let ?v = "cp - 0x10000"
  let ?h = "ucast (0xd800 + drop_bit 10 ?v) :: u16" and ?l = "ucast (0xdc00 + (?v AND 0x3ff)) :: u16"
  have v: "unat ?v = unat cp - 0x10000" "0x10000 \<le> unat cp" "unat cp \<le> 0x10ffff"
    using assms by (simp_all add: unat_sub word_le_nat_alt word_less_nat_alt)
  have h: "unat ?h = 0xd800 + unat ?v div 1024"
    using v by (simp add: unsigned_ucast_eq take_bit_nat_eq_self unat_word_ariths unat_drop_bit10)
  have l: "unat ?l = 0xdc00 + unat ?v mod 1024"
  proof -
    have "unat ?v mod 1024 < 1024" by simp
    then show ?thesis
      by (simp add: unsigned_ucast_eq take_bit_nat_eq_self unat_word_ariths unat_and_mask10)
  qed
  show hi: "is_high ?h"
    using v h by (simp add: is_high_def word_le_nat_alt)
  have "unat ?v mod 1024 < 1024" by simp
  then show lo: "is_low ?l"
    using l by (simp add: is_low_def word_le_nat_alt)
  show "push_utf16 [] cp = [?h, ?l]"
    using assms by (simp add: push_utf16_def Let_def)
  have "unat (pair_cp ?h ?l) = unat cp"
    using v h l by (simp add: pair_cp_unat [OF hi lo])
  then show "pair_cp ?h ?l = cp"
    by (simp add: word_unat_eq_iff)
qed

lemma push_utf16_bmp:
  assumes "scalar_value cp" "cp \<le> 0xffff"
  obtains u where "push_utf16 [] cp = [u]" "\<not> is_high u" "\<not> is_low u" "ucast u = cp"
proof
  let ?u = "ucast cp :: u16"
  have u: "unat ?u = unat cp"
    using assms(2) by (simp add: unsigned_ucast_eq take_bit_nat_eq_self word_le_nat_alt)
  show "push_utf16 [] cp = [?u]"
    using assms by (simp add: push_utf16_def)
  show "\<not> is_high ?u" "\<not> is_low ?u"
    using assms(1) by (auto simp: is_high_def is_low_def scalar_value_def word_le_nat_alt u)
  show "ucast ?u = cp"
    using u by (simp only: word_unat_eq_iff unat_ucast_u16)
qed


section \<open>The loops\<close>

lemma append_utf8_cp_out: "append_utf8_cp out cp = out @ append_utf8_cp [] cp"
  by (simp add: append_utf8_cp_def)

lemma push_utf16_out: "push_utf16 out cp = out @ push_utf16 [] cp"
  by (simp add: push_utf16_def Let_def)

lemma utf8_loop_Nil [simp]: "utf8_loop out [] = out"
  by (simp add: utf8_loop.simps)

lemma utf8_loop_step:
  "s \<noteq> [] \<Longrightarrow> decode_utf8 s = (cp, len) \<Longrightarrow> utf8_loop out s = utf8_loop (push_utf16 out cp) (drop len s)"
  by (subst utf8_loop.simps) simp

lemma utf8_loop_out: "utf8_loop out s = out @ utf8_loop [] s"
proof (induction s arbitrary: out rule: length_induct)
  case (1 s)
  show ?case
  proof (cases "s = []")
    case False
    obtain cp len where d: "decode_utf8 s = (cp, len)" by fastforce
    have "length (drop len s) < length s"
      using decode_utf8_len [of s] False by (simp add: d)
    then have IH: "utf8_loop o' (drop len s) = o' @ utf8_loop [] (drop len s)" for o'
      using 1 by blast
    have step: "utf8_loop o' s = push_utf16 o' cp @ utf8_loop [] (drop len s)" for o'
      by (simp only: utf8_loop_step [OF False d]) (rule IH)
    show ?thesis
      using push_utf16_out [of out cp] by (simp add: step)
  qed simp
qed

lemma utf8_loop_encoded:
  assumes "cp \<le> 0x10ffff"
  shows "utf8_loop [] (append_utf8_cp [] cp @ rest) = push_utf16 [] cp @ utf8_loop [] rest"
proof -
  have "append_utf8_cp [] cp \<noteq> []" by (simp add: append_utf8_cp_def)
  then show ?thesis
    using decode_encoded [OF assms, of rest] utf8_loop_out [of "push_utf16 [] cp" rest]
    by (subst utf8_loop.simps) simp
qed

definition utf16_step :: "u16 \<Rightarrow> u16 list \<Rightarrow> u32 \<times> u16 list" where
  "utf16_step u us =
     (if is_high u then
        (case us of l # us' \<Rightarrow> if is_low l then (pair_cp u l, us') else (kReplacement, us)
                  | [] \<Rightarrow> (kReplacement, us))
      else (if is_low u then kReplacement else ucast u, us))"

lemma utf16_loop_step:
  "utf16_loop out (u # us) = utf16_loop (append_utf8_cp out (fst (utf16_step u us))) (snd (utf16_step u us))"
  by (simp add: utf16_step_def split: list.split)

lemma utf16_step_shorter: "length (snd (utf16_step u us)) < length (u # us)"
  by (simp add: utf16_step_def split: list.split)

lemma utf16_loop_out: "utf16_loop out us = out @ utf16_loop [] us"
proof (induction us arbitrary: out rule: length_induct)
  case (1 us)
  show ?case
  proof (cases us)
    case (Cons u vs)
    have "utf16_loop o' us = append_utf8_cp o' (fst (utf16_step u vs)) @ utf16_loop [] (snd (utf16_step u vs))" for o'
      using 1 utf16_step_shorter [of u vs] unfolding Cons utf16_loop_step by blast
    then show ?thesis
      using append_utf8_cp_out [of out] by simp
  qed simp
qed

text \<open>Each unpaired surrogate becomes the replacement character; every other unit stays.\<close>

fun scrub :: "u16 list \<Rightarrow> u16 list" where
  "scrub [] = []"
| "scrub (u # us) =
     (if is_high u then
        (case us of
           l # us' \<Rightarrow> if is_low l then u # l # scrub us' else 0xfffd # scrub us
         | [] \<Rightarrow> 0xfffd # scrub us)
      else if is_low u then 0xfffd # scrub us
      else u # scrub us)"

lemma utf8_loop_unit: "utf8_loop [] (append_utf8_cp [] (ucast (u :: u16)) @ rest) = u # utf8_loop [] rest"
  using unat_u16 [of u] by (simp add: utf8_loop_encoded word_le_nat_alt unat_ucast_u16 push_utf16_unit)

lemma utf8_loop_replacement:
  "utf8_loop [] (append_utf8_cp [] kReplacement @ rest) = 0xfffd # utf8_loop [] rest"
  using utf8_loop_unit [of "0xfffd"] by (simp add: kReplacement_def)

lemma utf8_loop_pair:
  "is_high h \<Longrightarrow> is_low l \<Longrightarrow> utf8_loop [] (append_utf8_cp [] (pair_cp h l) @ rest) = h # l # utf8_loop [] rest"
  by (simp add: utf8_loop_encoded pair_cp_le push_utf16_pair)

lemma utf16_loop_front:
  "utf16_loop [] (u # us) =
     append_utf8_cp [] (fst (utf16_step u us)) @ utf16_loop [] (snd (utf16_step u us))"
  unfolding utf16_loop_step by (rule utf16_loop_out)

lemma scrub_loops: "utf8_loop [] (utf16_loop [] us) = scrub us"
proof (induction us rule: scrub.induct)
  case (2 u us)
  show ?case
    unfolding utf16_loop_front using 2 utf8_loop_replacement [of "[]"]
    by (auto simp: utf16_step_def utf8_loop_unit utf8_loop_replacement utf8_loop_pair
      simp del: utf16_loop.simps(2) split: list.splits)
qed simp

lemma utf16_loop_scalar:
  assumes "scalar_value cp"
  shows "utf16_loop [] (push_utf16 [] cp @ rest) = append_utf8_cp [] cp @ utf16_loop [] rest"
proof (cases "cp \<le> 0xffff")
  case True
  obtain u where "push_utf16 [] cp = [u]" "\<not> is_high u" "\<not> is_low u" "ucast u = cp"
    using push_utf16_bmp [OF assms True] by blast
  then show ?thesis
    using utf16_loop_out [of "append_utf8_cp [] cp"] by simp
next
  case False
  then have "0xffff < cp" "cp \<le> 0x10ffff"
    using assms by (simp_all add: scalar_value_def)
  then obtain h l where "push_utf16 [] cp = [h, l]" "is_high h" "is_low l" "pair_cp h l = cp"
    by (rule push_utf16_supplementary)
  then show ?thesis
    using utf16_loop_out [of "append_utf8_cp [] cp"] by simp
qed

lemma utf8_to_utf16_scalars:
  "\<forall>cp \<in> set cps. cp \<le> 0x10ffff \<Longrightarrow>
     utf8_loop [] (concat (map (append_utf8_cp []) cps)) = concat (map (push_utf16 []) cps)"
  by (induction cps) (simp_all add: utf8_loop_encoded)

lemma utf16_to_utf8_scalars:
  "\<forall>cp \<in> set cps. scalar_value cp \<Longrightarrow>
     utf16_loop [] (concat (map (push_utf16 []) cps)) = concat (map (append_utf8_cp []) cps)"
  by (induction cps) (simp_all add: utf16_loop_scalar)


section \<open>Properties\<close>

text \<open>C27: A UTF-16 string sent to UTF-8 and back is the string with every unpaired surrogate
  replaced by U+FFFD; a string without unpaired surrogates comes back unchanged.\<close>

theorem utf16_roundtrip_scrubs:
  "utf8_to_utf16 (utf16_to_utf8 (Some us)) = scrub us"
  by (simp add: utf8_to_utf16_def utf16_to_utf8_def scrub_loops)

text \<open>On the UTF-8 encoding of any sequence of scalar values (code points up to U+10FFFF that
  are not surrogates) the transcoders are mutually inverse.\<close>

theorem utf8_roundtrip_scalars:
  assumes "\<forall>cp \<in> set cps. scalar_value cp"
    and "s = concat (map (append_utf8_cp []) cps)"
  shows "utf16_to_utf8 (Some (utf8_to_utf16 s)) = s"
proof -
  have "\<forall>cp \<in> set cps. cp \<le> 0x10ffff"
    using assms(1) by (simp add: scalar_value_def)
  with assms show ?thesis
    by (simp add: utf16_to_utf8_def utf8_to_utf16_def utf8_to_utf16_scalars utf16_to_utf8_scalars)
qed

text \<open>The decoder accepts the three-byte form of a surrogate and emits it as a lone unit.\<close>

lemma encoded_surrogate_passes:
  assumes "0xd800 \<le> u" "u \<le> (0xdfff :: u16)"
  shows "utf8_to_utf16 (append_utf8_cp [] (ucast u)) = [u]"
  using utf8_loop_unit [of u "[]"] by (simp add: utf8_to_utf16_def)

end
