(* ===== verification/Palmod_Handle_Table.thy ===== *)
theory Palmod_Handle_Table
  imports Palmod_Prelude
begin

text \<open>
  \<^verbatim>\<open>HandleTable<T>\<close> of \<^verbatim>\<open>native/include/palmod/handle_table.hpp\<close>: the table that hands
  out 64-bit handles for objects, each the slot's index plus one in the low half and the slot's
  generation in the high half.  Every operation runs under the table's mutex, so each is one
  step here.  The vector's index is a \<^verbatim>\<open>uint32_t\<close> in the code; the theorems ask for fewer
  than \<open>2\<^sup>32 - 1\<close> slots, where it does not wrap.
\<close>

section \<open>The table\<close>

record 'a slot =
  sl_generation :: u32
  sl_value :: "'a option"

type_synonym 'a table = "'a slot list"

definition new_slot :: "'a slot" where
  "new_slot = \<lparr>sl_generation = 1, sl_value = None\<rparr>"

definition encode_handle :: "u32 \<Rightarrow> u32 \<Rightarrow> u64" where
  "encode_handle index generation = push_bit 32 (ucast generation) OR (ucast index + 1)"

definition decode_handle :: "u64 \<Rightarrow> u32 \<times> u32" where
  "decode_handle handle =
     (if handle = 0 then (- 1, 0)
      else (ucast ((handle AND 0xffffffff) - 1), ucast (drop_bit 32 handle)))"

text \<open>The index of the first free slot, the number of slots when all are taken.\<close>

fun first_free :: "'a table \<Rightarrow> nat" where
  "first_free [] = 0"
| "first_free (s # ss) = (if sl_value s = None then 0 else Suc (first_free ss))"

definition table_insert :: "'a \<Rightarrow> 'a table \<Rightarrow> u64 \<times> 'a table" where
  "table_insert v t =
     (let index = first_free t;
          t' = (if index = length t then t @ [new_slot] else t);
          generation = (if sl_generation (t' ! index) = 0 then 1 else sl_generation (t' ! index))
      in (encode_handle (of_nat index) generation,
          t'[index := \<lparr>sl_generation = generation, sl_value = Some v\<rparr>]))"

definition table_get :: "'a table \<Rightarrow> u64 \<Rightarrow> 'a option" where
  "table_get t handle =
     (let (index, generation) = decode_handle handle
      in if unat index \<ge> length t then None
         else if sl_generation (t ! unat index) \<noteq> generation \<or> sl_value (t ! unat index) = None then None
         else sl_value (t ! unat index))"

definition next_generation :: "u32 \<Rightarrow> u32" where
  "next_generation g = (if g + 1 = 0 then 1 else g + 1)"

definition table_erase :: "u64 \<Rightarrow> 'a table \<Rightarrow> bool \<times> 'a table" where
  "table_erase handle t =
     (let (index, generation) = decode_handle handle
      in if unat index \<ge> length t then (False, t)
         else if sl_generation (t ! unat index) \<noteq> generation \<or> sl_value (t ! unat index) = None
         then (False, t)
         else (True, t[unat index :=
                 \<lparr>sl_generation = next_generation (sl_generation (t ! unat index)), sl_value = None\<rparr>]))"

text \<open>
  No slot has generation 0, so the invalid handle never resolves; and a table of fewer than
  \<open>2\<^sup>32 - 1\<close> slots keeps the index and the generation of a handle apart.
\<close>

definition table_inv :: "'a table \<Rightarrow> bool" where
  "table_inv t \<longleftrightarrow> (\<forall>s \<in> set t. sl_generation s \<noteq> 0) \<and> length t < 2 ^ 32 - 1"

definition table_room :: "'a table \<Rightarrow> bool" where
  "table_room t \<longleftrightarrow> length t < 2 ^ 32 - 2 \<or> first_free t < length t"


section \<open>Handles\<close>

lemma unat_encode:
  assumes "unat i < 2 ^ 32 - 1"
  shows "unat (encode_handle i g) = unat g * 2 ^ 32 + (unat i + 1)"
proof -
  have i: "unat (ucast i + 1 :: u64) = unat i + 1"
    using assms by (simp add: unat_word_ariths unat_ucast_32_64)
  show ?thesis
    using assms unat_u32 [of g] unfolding encode_handle_def
    by (subst unat_join) (simp_all add: i unat_ucast_32_64)
qed

lemma unat_low32: "unat ((h :: u64) AND 0xffffffff) = unat h mod 2 ^ 32"
proof -
  have "h AND 0xffffffff = take_bit 32 h"
    by (simp add: take_bit_eq_mask mask_eq_exp_minus_1)
  then have "unat (h AND 0xffffffff) = take_bit 32 (unat h)" by (simp only: unsigned_take_bit_eq)
  then show ?thesis by (simp add: take_bit_eq_mod)
qed

lemma unat_high32: "unat (drop_bit 32 (h :: u64)) = unat h div 2 ^ 32"
  by (simp add: unat_drop_bit_eq flip: drop_bit_eq_div) (simp add: drop_bit_eq_div)

lemma unat_minus_1:
  "unat (- 1 :: u32) = 2 ^ 32 - 1" "unat (ucast (- 1 :: u64) :: u32) = 2 ^ 32 - 1"
  by (simp_all only: unat_ucast_64_32 unsigned_minus_1_eq_mask mask_eq_exp_minus_1) simp_all

text \<open>What a handle decodes to, as numbers.\<close>

lemma decode_handle_unat:
  assumes "h \<noteq> 0" "decode_handle h = (i, g)"
  shows "unat g = unat h div 2 ^ 32"
    and "unat i = (if unat h mod 2 ^ 32 = 0 then 2 ^ 32 - 1 else unat h mod 2 ^ 32 - 1)"
proof -
  have i: "i = ucast ((h AND 0xffffffff) - 1)" and g: "g = ucast (drop_bit 32 h)"
    using assms by (simp_all add: decode_handle_def)
  have "unat h div 2 ^ 32 < 2 ^ 32"
    using unat_u64 [of h] by (simp add: less_mult_imp_div_less)
  then show "unat g = unat h div 2 ^ 32"
    by (simp only: g unat_ucast_64_32 unat_high32 mod_less)
  show "unat i = (if unat h mod 2 ^ 32 = 0 then 2 ^ 32 - 1 else unat h mod 2 ^ 32 - 1)"
  proof (cases "h AND 0xffffffff = 0")
    case True
    then have "unat h mod 2 ^ 32 = 0" using unat_low32 [of h] by simp
    with True show ?thesis using unat_minus_1(2) by (simp add: i)
  next
    case False
    then have "unat (h AND 0xffffffff) \<noteq> 0" by (simp add: unat_eq_zero)
    moreover have "unat ((h AND 0xffffffff) - 1) = unat (h AND 0xffffffff) - 1"
      using False by (simp add: unat_sub word_le_nat_alt Suc_le_eq unat_gt_0)
    moreover have "unat h mod 2 ^ 32 < 2 ^ 32" by simp
    ultimately show ?thesis
      by (simp only: i unat_ucast_64_32 unat_low32 if_False mod_less)
  qed
qed

lemma encode_handle_nonzero: "unat i < 2 ^ 32 - 1 \<Longrightarrow> encode_handle i g \<noteq> 0"
  using unat_encode [of i g] by (auto simp del: unat_eq_zero)

lemma decode_encode:
  assumes "unat i < 2 ^ 32 - 1"
  shows "decode_handle (encode_handle i g) = (i, g)"
proof -
  obtain i' g' where d: "decode_handle (encode_handle i g) = (i', g')" by fastforce
  note u = decode_handle_unat [OF encode_handle_nonzero [OF assms] d, unfolded unat_encode [OF assms]]
  have "unat g' = unat g" "unat i' = unat i"
    using u assms unat_u32 [of g] by simp_all
  then show ?thesis by (simp add: d word_unat_eq_iff)
qed

lemma encode_decode:
  assumes "decode_handle h = (i, g)" "unat i < 2 ^ 32 - 1"
  shows "encode_handle i g = h"
proof -
  have "h \<noteq> 0"
    using assms unat_minus_1(1) by (auto simp: decode_handle_def split: if_splits)
  note u = decode_handle_unat [OF this assms(1)]
  have "unat (encode_handle i g) = unat h"
    using u(2) assms(2) unfolding unat_encode [OF assms(2)] u(1)
    by (simp split: if_splits)
  then show ?thesis by (simp add: word_unat_eq_iff)
qed

lemma encode_handle_inject:
  assumes "unat i < 2 ^ 32 - 1" "unat j < 2 ^ 32 - 1"
  shows "encode_handle i g = encode_handle j k \<longleftrightarrow> i = j \<and> g = k"
  using decode_encode [OF assms(1), of g] decode_encode [OF assms(2), of k] by (metis Pair_inject)


section \<open>Laws of the operations\<close>

lemma first_free_le: "first_free t \<le> length t"
  by (induction t rule: first_free.induct) auto

lemma first_free_value: "first_free t < length t \<Longrightarrow> sl_value (t ! first_free t) = None"
  by (induction t rule: first_free.induct) auto

text \<open>The slot a value goes to, and the table extended to hold it.\<close>

definition room_for :: "'a table \<Rightarrow> 'a table" where
  "room_for t = (if first_free t = length t then t @ [new_slot] else t)"

lemma room_for_inv:
  "table_inv t \<Longrightarrow> table_room t \<Longrightarrow> table_inv (room_for t)"
  by (auto simp: table_inv_def table_room_def room_for_def new_slot_def)

lemma room_for_slot:
  "first_free t < length (room_for t)" "sl_value (room_for t ! first_free t) = None"
  using first_free_le [of t] first_free_value [of t]
  by (auto simp: room_for_def new_slot_def nth_append)

lemma room_for_get: "table_get (room_for t) h = table_get t h"
  by (auto simp: table_get_def room_for_def nth_append new_slot_def Let_def split: prod.splits)

text \<open>Overwriting a free slot, and clearing a taken one.\<close>

lemma get_fill_slot:
  assumes "k < length t" "sl_value (t ! k) = None" "length t < 2 ^ 32"
  shows "table_get (t[k := \<lparr>sl_generation = g, sl_value = Some v\<rparr>]) h =
    (if decode_handle h = (of_nat k, g) then Some v else table_get t h)"
proof -
  obtain i j where d: "decode_handle h = (i, j)" by fastforce
  have "unat i = k \<longleftrightarrow> i = of_nat k"
    using assms(1,3) by (auto simp: word_unat_eq_iff take_bit_nat_eq_self unsigned_of_nat)
  with assms show ?thesis
    by (auto simp: table_get_def d nth_list_update)
qed

lemma get_clear_slot:
  assumes "k < length t" "length t < 2 ^ 32"
  shows "table_get (t[k := \<lparr>sl_generation = g, sl_value = None\<rparr>]) h =
    (if fst (decode_handle h) = of_nat k then None else table_get t h)"
proof -
  obtain i j where d: "decode_handle h = (i, j)" by fastforce
  have "unat i = k \<longleftrightarrow> i = of_nat k"
    using assms by (auto simp: word_unat_eq_iff take_bit_nat_eq_self unsigned_of_nat)
  with assms show ?thesis
    by (auto simp: table_get_def d nth_list_update)
qed

lemma table_insert_alt:
  assumes "table_inv t" "table_room t"
  shows "table_insert v t =
    (encode_handle (of_nat (first_free t)) (sl_generation (room_for t ! first_free t)),
     (room_for t)[first_free t := \<lparr>sl_generation = sl_generation (room_for t ! first_free t), sl_value = Some v\<rparr>])"
proof -
  have "sl_generation (room_for t ! first_free t) \<noteq> 0"
    using room_for_inv [OF assms] room_for_slot(1) [of t] by (simp add: table_inv_def)
  then show ?thesis
    by (simp add: table_insert_def Let_def room_for_def)
qed

lemma table_inv_update:
  "table_inv t \<Longrightarrow> g \<noteq> 0 \<Longrightarrow> table_inv (t[k := \<lparr>sl_generation = g, sl_value = v\<rparr>])"
  by (auto simp: table_inv_def dest!: set_update_subset_insert [THEN subsetD])

lemma insert_generation_nonzero:
  "table_inv t \<Longrightarrow> table_room t \<Longrightarrow> sl_generation (room_for t ! first_free t) \<noteq> 0"
  using room_for_inv [of t] room_for_slot(1) [of t] by (simp add: table_inv_def)

lemma table_insert_inv:
  assumes "table_inv t" "table_room t"
  shows "table_inv (snd (table_insert v t))"
  using insert_generation_nonzero [OF assms] room_for_inv [OF assms]
  by (simp add: table_insert_alt [OF assms] table_inv_update)

lemma insert_index:
  assumes "table_inv t" "table_room t"
  shows "first_free t < 2 ^ 32 - 1" "unat (of_nat (first_free t) :: u32) = first_free t"
proof -
  show f: "first_free t < 2 ^ 32 - 1"
    using room_for_inv [OF assms] room_for_slot(1) [of t] by (simp add: table_inv_def)
  then show "unat (of_nat (first_free t) :: u32) = first_free t"
    by (simp add: take_bit_nat_eq_self unsigned_of_nat)
qed

lemma table_get_insert:
  assumes "table_inv t" "table_room t"
  shows "table_get (snd (table_insert v t)) = (table_get t)(fst (table_insert v t) \<mapsto> v)"
proof
  fix h
  let ?g = "sl_generation (room_for t ! first_free t)"
  have k: "unat (of_nat (first_free t) :: u32) < 2 ^ 32 - 1"
    using insert_index [OF assms] by simp
  have "decode_handle h = (of_nat (first_free t), ?g) \<longleftrightarrow> h = encode_handle (of_nat (first_free t)) ?g"
    using encode_decode [OF _ k] decode_encode [OF k] by blast
  moreover have "length (room_for t) < 2 ^ 32"
    using room_for_inv [OF assms] by (simp add: table_inv_def)
  ultimately show "table_get (snd (table_insert v t)) h = ((table_get t)(fst (table_insert v t) \<mapsto> v)) h"
    by (simp add: table_insert_alt [OF assms] get_fill_slot room_for_slot room_for_get)
qed

lemma table_insert_fresh:
  assumes "table_inv t" "table_room t"
  shows "table_get t (fst (table_insert v t)) = None" "fst (table_insert v t) \<noteq> 0"
proof -
  let ?g = "sl_generation (room_for t ! first_free t)"
  have k: "unat (of_nat (first_free t) :: u32) < 2 ^ 32 - 1"
    using insert_index [OF assms] by simp
  show "fst (table_insert v t) \<noteq> 0"
    by (simp add: table_insert_alt [OF assms] encode_handle_nonzero [OF k])
  have "table_get (room_for t) (fst (table_insert v t)) = None"
    using room_for_slot [of t] insert_index [OF assms]
    by (simp add: table_insert_alt [OF assms] table_get_def decode_encode)
  then show "table_get t (fst (table_insert v t)) = None"
    by (simp add: room_for_get)
qed

lemma next_generation_nonzero: "next_generation g \<noteq> 0"
  by (simp add: next_generation_def)

lemma table_erase_inv: "table_inv t \<Longrightarrow> table_inv (snd (table_erase h t))"
  by (auto simp: table_erase_def next_generation_nonzero table_inv_update Let_def split: prod.splits)

lemma table_erase_flag: "fst (table_erase h t) \<longleftrightarrow> table_get t h \<noteq> None"
  by (auto simp: table_erase_def table_get_def Let_def split: prod.splits)

lemma table_get_erase:
  assumes "table_inv t"
  shows "table_get (snd (table_erase h t)) = (table_get t)(h := None)"
proof
  fix h'
  obtain i g where d: "decode_handle h = (i, g)" by fastforce
  obtain i' g' where d': "decode_handle h' = (i', g')" by fastforce
  have len: "length t < 2 ^ 32 - 1"
    using assms by (simp add: table_inv_def)
  show "table_get (snd (table_erase h t)) h' = ((table_get t)(h := None)) h'"
  proof (cases "table_get t h")
    case None
    then have "snd (table_erase h t) = t"
      by (auto simp: table_erase_def table_get_def Let_def split: prod.splits if_splits)
    with None show ?thesis by simp
  next
    case (Some v)
    then have i: "unat i < length t" "sl_generation (t ! unat i) = g" "sl_value (t ! unat i) = Some v"
      by (auto simp: table_get_def d split: if_splits)
    then have t': "snd (table_erase h t) = t[unat i := \<lparr>sl_generation = next_generation g, sl_value = None\<rparr>]"
      by (simp add: table_erase_def d)
    have "h' = h" if "i' = i" "g' = g"
      using that d d' encode_decode [OF d] encode_decode [OF d'] i(1) len by simp
    then have "table_get t h' = None" if "i' = i" "h' \<noteq> h"
      using that i by (auto simp: table_get_def d')
    moreover have "table_get (snd (table_erase h t)) h' = (if i' = i then None else table_get t h')"
      using get_clear_slot [OF i(1), of "next_generation g" h'] len by (simp add: t' d')
    moreover have "h' = h \<Longrightarrow> i' = i"
      using d d' by simp
    ultimately show ?thesis by auto
  qed
qed


section \<open>The interface of a handle store\<close>

text \<open>
  What a client of the table relies on: a handle it was given finds its value until it is
  erased, and no operation disturbs another handle.
\<close>

locale handle_store =
  fixes lookup :: "'t \<Rightarrow> 'h \<Rightarrow> 'v option"
    and ins :: "'v \<Rightarrow> 't \<Rightarrow> 'h \<times> 't"
    and era :: "'h \<Rightarrow> 't \<Rightarrow> bool \<times> 't"
    and inv :: "'t \<Rightarrow> bool"
    and room :: "'t \<Rightarrow> bool"
  assumes inv_ins: "inv t \<Longrightarrow> room t \<Longrightarrow> inv (snd (ins v t))"
    and inv_era: "inv t \<Longrightarrow> inv (snd (era h t))"
    and lookup_ins: "inv t \<Longrightarrow> room t \<Longrightarrow> lookup (snd (ins v t)) = (lookup t)(fst (ins v t) \<mapsto> v)"
    and ins_fresh: "inv t \<Longrightarrow> room t \<Longrightarrow> lookup t (fst (ins v t)) = None"
    and lookup_era: "inv t \<Longrightarrow> lookup (snd (era h t)) = (lookup t)(h := None)"
    and era_flag: "fst (era h t) \<longleftrightarrow> lookup t h \<noteq> None"
begin

lemma ins_keeps: "inv t \<Longrightarrow> room t \<Longrightarrow> lookup t h = Some w \<Longrightarrow> lookup (snd (ins v t)) h = Some w"
  using ins_fresh [of t v] by (auto simp: lookup_ins)

lemma era_ins: "inv t \<Longrightarrow> room t \<Longrightarrow> lookup (snd (era (fst (ins v t)) (snd (ins v t)))) = lookup t"
  using ins_fresh [of t v] by (auto simp: lookup_era lookup_ins inv_ins)

lemma era_twice: "inv t \<Longrightarrow> \<not> fst (era h (snd (era h t)))"
  by (simp add: era_flag lookup_era)

end

interpretation handles: handle_store table_get table_insert table_erase table_inv table_room
  by unfold_locales
    (simp_all add: table_insert_inv table_erase_inv table_get_insert table_insert_fresh
      table_get_erase table_erase_flag)


section \<open>Stale handles\<close>

datatype 'a table_op = Insert 'a | Erase u64

fun run_op :: "'a table_op \<Rightarrow> 'a table \<Rightarrow> 'a table" where
  "run_op (Insert v) t = snd (table_insert v t)"
| "run_op (Erase h) t = snd (table_erase h t)"

text \<open>The generation after \<open>k\<close> erasures; 0 is skipped, so the period is \<open>2\<^sup>32 - 1\<close>.\<close>

definition aged :: "nat \<Rightarrow> u32 \<Rightarrow> u32" where
  "aged k g = of_nat ((unat g - 1 + k) mod (2 ^ 32 - 1) + 1)"

lemma unat_aged: "unat (aged k g) = (unat g - 1 + k) mod (2 ^ 32 - 1) + 1"
proof -
  have "(unat g - 1 + k) mod (2 ^ 32 - 1) + 1 < 2 ^ 32"
    using mod_less_divisor [of "2 ^ 32 - 1" "unat g - 1 + k"] by simp
  then show ?thesis
    unfolding aged_def by (simp only: unsigned_of_nat) (simp add: take_bit_nat_eq_self)
qed

lemma unat_next_generation:
  assumes "g \<noteq> 0"
  shows "unat (next_generation g) = unat g mod (2 ^ 32 - 1) + 1"
proof (cases "unat g = 2 ^ 32 - 1")
  case True
  then have "g + 1 = 0"
    by (simp add: word_unat_eq_iff unat_word_ariths)
  with True show ?thesis by (simp add: next_generation_def)
next
  case False
  then have "unat (g + 1) = unat g + 1" "unat g < 2 ^ 32 - 1"
    using unat_u32 [of g] by (simp_all add: unat_word_ariths)
  moreover from this have "g + 1 \<noteq> 0" by (metis add_is_0 one_neq_zero unat_0)
  ultimately show ?thesis by (simp add: next_generation_def)
qed

lemma next_aged: "next_generation (aged k g) = aged (Suc k) g"
proof -
  have "aged k g \<noteq> 0"
    using unat_aged [of k g] by auto
  then have "unat (next_generation (aged k g)) = unat (aged (Suc k) g)"
    using unat_next_generation [of "aged k g"] by (simp only: unat_aged simp_thms) (simp add: mod_Suc_eq)
  then show ?thesis by (simp add: word_unat_eq_iff)
qed

lemma aged_1: "g \<noteq> 0 \<Longrightarrow> next_generation g = aged 1 g"
proof -
  assume "g \<noteq> 0"
  then have "0 < unat g" by (simp add: unat_gt_0)
  then have "unat (next_generation g) = unat (aged 1 g)"
    using unat_next_generation [OF \<open>g \<noteq> 0\<close>] by (simp only: unat_aged) simp
  then show ?thesis by (simp add: word_unat_eq_iff)
qed

lemma aged_neq:
  assumes "g \<noteq> 0" "0 < k" "k < 2 ^ 32 - 1"
  shows "aged k g \<noteq> g"
proof
  assume "aged k g = g"
  then have e: "(unat g - 1 + k) mod (2 ^ 32 - 1) + 1 = unat g"
    using unat_aged [of k g] by (simp only:)
  have a: "unat g - 1 < 2 ^ 32 - 1" "0 < unat g"
    using assms(1) unat_u32 [of g] by (simp_all add: unat_gt_0)
  show False
  proof (cases "unat g - 1 + k < 2 ^ 32 - 1")
    case True
    with e a assms show False by simp
  next
    case False
    then have "(unat g - 1 + k) mod (2 ^ 32 - 1) = unat g - 1 + k - (2 ^ 32 - 1)"
      using a assms by (simp add: le_mod_geq)
    with e a assms False show False by simp
  qed
qed

text \<open>
  After \<open>n\<close> operations a slot that was erased at generation \<open>g\<close> has aged by between 1 and
  \<open>n + 1\<close> generations.
\<close>

definition slot_aged :: "nat \<Rightarrow> u32 \<Rightarrow> nat \<Rightarrow> 'a table \<Rightarrow> bool" where
  "slot_aged i g n t \<longleftrightarrow> i < length t \<and> (\<exists>k. 0 < k \<and> k \<le> Suc n \<and> sl_generation (t ! i) = aged k g)"

lemma insert_generation:
  assumes "table_inv t" "table_room t" "i < length t"
  shows "sl_generation (snd (table_insert v t) ! i) = sl_generation (t ! i)"
    and "i < length (snd (table_insert v t))"
  using assms(3) by (auto simp: table_insert_alt [OF assms(1,2)] room_for_def nth_list_update nth_append
    split: if_splits) (metis nth_list_update_eq nth_list_update_neq slot.select_convs(1))

lemma erase_generation:
  assumes "i < length t"
  shows "sl_generation (snd (table_erase h t) ! i) \<in> {sl_generation (t ! i), next_generation (sl_generation (t ! i))}"
    and "i < length (snd (table_erase h t))"
  using assms by (auto simp: table_erase_def nth_list_update Let_def split: prod.splits)

lemma slot_aged_run_op:
  assumes "slot_aged i g n t" "table_inv t" "table_room t"
  shows "slot_aged i g (Suc n) (run_op op t)"
proof -
  obtain k where k: "i < length t" "0 < k" "k \<le> Suc n" "sl_generation (t ! i) = aged k g"
    using assms(1) by (auto simp: slot_aged_def)
  show ?thesis
  proof (cases op)
    case (Insert v)
    then show ?thesis
      using k insert_generation [OF assms(2,3) k(1), of v] by (auto simp: slot_aged_def intro!: exI [of _ k])
  next
    case (Erase h)
    then show ?thesis
      using k erase_generation [OF k(1), of h] next_aged [of k g]
      by (auto simp: slot_aged_def intro: exI [of _ k] exI [of _ "Suc k"])
  qed
qed

text \<open>Sequences of operations that leave room for each insertion.\<close>

fun roomy :: "'a table_op list \<Rightarrow> 'a table \<Rightarrow> bool" where
  "roomy [] t \<longleftrightarrow> True"
| "roomy (op # ops) t \<longleftrightarrow> table_room t \<and> roomy ops (run_op op t)"

lemma run_op_inv: "table_inv t \<Longrightarrow> table_room t \<Longrightarrow> table_inv (run_op op t)"
  by (cases op) (simp_all add: handles.inv_ins handles.inv_era)

lemma slot_aged_run:
  "slot_aged i g n t \<Longrightarrow> table_inv t \<Longrightarrow> roomy ops t \<Longrightarrow>
     slot_aged i g (n + length ops) (fold run_op ops t)"
proof (induction ops arbitrary: n t)
  case (Cons op ops)
  then show ?case
    using Cons.IH [of "Suc n" "run_op op t"] by (simp add: slot_aged_run_op run_op_inv)
qed simp

lemma slot_aged_erase:
  assumes "table_inv t" "decode_handle h = (i, g)" "table_get t h \<noteq> None"
  shows "slot_aged (unat i) g 0 (snd (table_erase h t))"
proof -
  have i: "unat i < length t" "sl_generation (t ! unat i) = g" "sl_value (t ! unat i) \<noteq> None"
    using assms(2,3) by (auto simp: table_get_def split: if_splits)
  moreover from this assms(1) have "g \<noteq> 0"
    by (auto simp: table_inv_def)
  ultimately show ?thesis
    using assms(2) aged_1 [of g] by (auto simp: slot_aged_def table_erase_def)
qed

lemma slot_aged_stale:
  assumes "slot_aged (unat i) g n t" "decode_handle h = (i, g)" "g \<noteq> 0" "n < 2 ^ 32 - 2"
  shows "table_get t h = None"
proof -
  obtain k where "0 < k" "k \<le> Suc n" "sl_generation (t ! unat i) = aged k g"
    using assms(1) by (auto simp: slot_aged_def)
  then have "sl_generation (t ! unat i) \<noteq> g"
    using aged_neq [OF assms(3), of k] assms(4) by simp
  with assms(2) show ?thesis by (simp add: table_get_def)
qed


section \<open>Properties\<close>

text \<open>C21: Inserting a value gives a non-zero handle that did not resolve before and now finds that
  value, and every other handle finds what it found before; the invariant is kept.\<close>

theorem handle_insert_refines_map:
  assumes "table_inv t" "table_room t" "table_insert v t = (h, t')"
  shows "h \<noteq> 0 \<and> table_get t h = None \<and> table_get t' = (table_get t)(h \<mapsto> v) \<and> table_inv t'"
  using handles.lookup_ins [OF assms(1,2), of v] handles.ins_fresh [OF assms(1,2), of v]
    handles.inv_ins [OF assms(1,2), of v] table_insert_fresh(2) [OF assms(1,2), of v] assms(3)
  by simp

theorem handle_insert_refines_map_witness:
  "encode_handle 0 1 \<noteq> 0 \<and> table_get ([] :: string table) (encode_handle 0 1) = None \<and>
   table_get [\<lparr>sl_generation = 1, sl_value = Some ''x''\<rparr>] = (table_get [])(encode_handle 0 1 \<mapsto> ''x'') \<and>
   table_inv [\<lparr>sl_generation = 1, sl_value = Some ''x''\<rparr>]"
  by (rule handle_insert_refines_map)
    (simp_all add: table_inv_def table_room_def table_insert_def new_slot_def)

text \<open>C11: A handle that was erased stays dead: whatever insertions and erasures follow, as long as
  they are fewer than \<open>2\<^sup>32 - 2\<close>, it finds nothing and erasing it again is refused, although
  its slot may be reused.\<close>

theorem erased_handle_stays_dead:
  assumes "table_inv t" "table_get t h \<noteq> None"
    and "roomy ops (snd (table_erase h t))" "length ops < 2 ^ 32 - 2"
  shows "table_get (fold run_op ops (snd (table_erase h t))) h = None \<and>
    \<not> fst (table_erase h (fold run_op ops (snd (table_erase h t))))"
proof -
  let ?t = "fold run_op ops (snd (table_erase h t))"
  obtain i g where d: "decode_handle h = (i, g)" by fastforce
  have "unat i < length t" "sl_generation (t ! unat i) = g"
    using assms(2) by (auto simp: table_get_def d split: if_splits)
  then have "g \<noteq> 0"
    using assms(1) by (auto simp: table_inv_def)
  have "slot_aged (unat i) g (length ops) ?t"
    using slot_aged_run [OF slot_aged_erase [OF assms(1) d assms(2)] handles.inv_era [OF assms(1)] assms(3)]
    by simp
  then have "table_get ?t h = None"
    using d \<open>g \<noteq> 0\<close> assms(4) by (rule slot_aged_stale)
  then show ?thesis
    by (simp add: handles.era_flag)
qed

theorem erased_handle_stays_dead_witness:
  "table_get (fold run_op [Insert ''b'', Erase 7, Insert ''c''] (snd (table_erase (encode_handle 0 1)
       [\<lparr>sl_generation = 1, sl_value = Some ''a''\<rparr>]))) (encode_handle 0 1) = None \<and>
   \<not> fst (table_erase (encode_handle 0 1) (fold run_op [Insert ''b'', Erase 7, Insert ''c'']
       (snd (table_erase (encode_handle 0 1) [\<lparr>sl_generation = 1, sl_value = Some ''a''\<rparr>]))))"
  by (rule erased_handle_stays_dead)
    (simp_all add: table_inv_def table_room_def table_insert_def table_erase_def table_get_def new_slot_def
      encode_handle_def decode_handle_def next_generation_def)
end
