(* ===== verification/Palmod_Types.thy ===== *)
theory Palmod_Types
  imports Palmod_Double
begin

text \<open>
  The data shared by the components: \<^verbatim>\<open>native/include/palmod/types.hpp\<close>, the reflected
  parameter layout and the value trees of \<^verbatim>\<open>parms_decode.hpp\<close> and \<^verbatim>\<open>parms_encode.hpp\<close>,
  and the command data of \<^verbatim>\<open>command_router.hpp\<close>.  The self-referential structs are datatypes
  with one constructor whose selectors are the fields; the others are records.
\<close>

datatype param_spec =
  ParamSpec
    (ps_name: string) (ps_type: string) (ps_offset: u64)
    (ps_inner_type: string) (ps_inner_size: u64) (ps_fields: "param_spec list")

datatype event_arg =
  EventArg
    (ea_name: string) (ea_is_text: bool) (ea_text: string) (ea_number: double)
    (ea_is_array: bool) (ea_is_struct: bool) (ea_items: "event_arg list")

datatype param_input =
  ParamInput
    (pi_name: string) (pi_is_text: bool) (pi_text: string) (pi_number: double)
    (pi_is_array: bool) (pi_is_struct: bool) (pi_items: "param_input list")

datatype auth_state = Unknown | Player | Admin

datatype principal_kind = InGamePlayer | LocalOperator

record command_invocation =
  ci_plugin_id :: string
  ci_command :: string
  ci_args :: "string list"
  ci_raw :: string
  ci_player :: string
  ci_player_handle :: u64
  ci_auth :: auth_state
  ci_principal :: principal_kind
  ci_operator_uid :: u32

record plugin_event =
  pe_kind :: string
  pe_sequence :: u64
  pe_source :: string
  pe_text :: string
  pe_subject :: string
  pe_handle :: u64
  pe_number :: u64
  pe_args :: "event_arg list"

datatype action_kind = CallFunction

record semantic_action =
  sa_kind :: action_kind
  sa_source_plugin :: string
  sa_actor :: string
  sa_actor_handle :: u64
  sa_function_path :: string
  sa_target_class :: string
  sa_target_object :: u64
  sa_call_args :: "param_input list"

datatype permission = Everyone | ServerAdmin

record command_spec =
  cs_plugin_id :: string
  cs_name :: string
  cs_permission :: permission
  cs_suppress :: bool

record parsed_command =
  pc_name :: string
  pc_args :: "string list"

record route_result =
  rr_matched :: bool
  rr_suppress :: bool
  rr_dispatched :: bool
  rr_error :: string

end
