(* ===== verification/Palmod_Memory.thy ===== *)
theory Palmod_Memory
  imports Palmod_Types
begin

text \<open>
  The process's own memory and the two ways palmod reads it.

  A memory maps each 64-bit address to its byte, \<open>None\<close> where nothing is mapped.  The reads of
  \<^verbatim>\<open>native/src/invoke.cpp\<close> go through \<^verbatim>\<open>process_vm_readv\<close>: they fail on an unmapped byte and
  give an \<open>option\<close>.  The direct reads (\<^verbatim>\<open>memcpy\<close>) of the object walkers only test for a null or
  non-canonical address; on an unmapped one the process dies, which is the value \<open>Crash\<close> of the
  type \<open>guarded\<close>.  The memory is a snapshot: one call of a reader sees one memory.
\<close>

section \<open>Memory\<close>

type_synonym mem = "u64 \<Rightarrow> u8 option"

fun mem_bytes :: "mem \<Rightarrow> u64 \<Rightarrow> nat \<Rightarrow> u8 list option" where
  "mem_bytes m va 0 = Some []"
| "mem_bytes m va (Suc n) =
     (case m va of
        None \<Rightarrow> None
      | Some b \<Rightarrow> (case mem_bytes m (va + 1) n of None \<Rightarrow> None | Some bs \<Rightarrow> Some (b # bs)))"

text \<open>Little-endian integers.\<close>

fun le_value :: "u8 list \<Rightarrow> nat" where
  "le_value [] = 0"
| "le_value (b # bs) = unat b + 256 * le_value bs"

fun le_bytes :: "nat \<Rightarrow> nat \<Rightarrow> u8 list" where
  "le_bytes 0 v = []"
| "le_bytes (Suc n) v = of_nat v # le_bytes n (v div 256)"

definition u16_of :: "u8 list \<Rightarrow> u16" where "u16_of bs = of_nat (le_value bs)"
definition u32_of :: "u8 list \<Rightarrow> u32" where "u32_of bs = of_nat (le_value bs)"
definition u64_of :: "u8 list \<Rightarrow> u64" where "u64_of bs = of_nat (le_value bs)"

definition kCanonicalLimit :: u64 where
  "kCanonicalLimit = 2 ^ 48"

definition canonical_va :: "u64 \<Rightarrow> bool" where
  "canonical_va va \<longleftrightarrow> va \<noteq> 0 \<and> va < kCanonicalLimit"


section \<open>Fault-safe reads\<close>

definition try_read_bytes :: "mem \<Rightarrow> u64 \<Rightarrow> nat \<Rightarrow> u8 list option" where
  "try_read_bytes m address len =
     (if address = 0 \<or> kCanonicalLimit \<le> address \<or> len = 0 then None else mem_bytes m address len)"

definition try_read_u64 :: "mem \<Rightarrow> u64 \<Rightarrow> u64 option" where
  "try_read_u64 m address = map_option u64_of (try_read_bytes m address 8)"

text \<open>The out parameter of a failed \<^verbatim>\<open>try_read_u64\<close> is zero.\<close>

definition or_zero :: "'a::zero option \<Rightarrow> 'a" where
  "or_zero r = (case r of None \<Rightarrow> 0 | Some v \<Rightarrow> v)"

definition read_vtable_slot :: "mem \<Rightarrow> u64 \<Rightarrow> u64 \<Rightarrow> u64" where
  "read_vtable_slot m object_va slot_index =
     (case try_read_u64 m object_va of
        None \<Rightarrow> 0
      | Some vtable \<Rightarrow>
          (case try_read_u64 m (vtable + slot_index * 8) of None \<Rightarrow> 0 | Some method \<Rightarrow> method))"

definition read_global_pointer :: "mem \<Rightarrow> u64 \<Rightarrow> u64" where
  "read_global_pointer m global_va = (case try_read_u64 m global_va of None \<Rightarrow> 0 | Some v \<Rightarrow> v)"

definition vtable_slot_address :: "mem \<Rightarrow> u64 \<Rightarrow> u64 \<Rightarrow> u64" where
  "vtable_slot_address m object_va slot_index =
     (case try_read_u64 m object_va of
        None \<Rightarrow> 0
      | Some vtable \<Rightarrow>
          if vtable = 0 then 0
          else (let address = vtable + slot_index * 8
                in if address = 0 \<or> kCanonicalLimit \<le> address then 0 else address))"


section \<open>Direct reads\<close>

datatype 'a guarded = Crash | Done 'a

definition gbind :: "'a guarded \<Rightarrow> ('a \<Rightarrow> 'b guarded) \<Rightarrow> 'b guarded" where
  "gbind r k = (case r of Crash \<Rightarrow> Crash | Done v \<Rightarrow> k v)"

text \<open>\<open>Done None\<close> is the refusal of a null or non-canonical address.\<close>

definition direct_read :: "mem \<Rightarrow> u64 \<Rightarrow> nat \<Rightarrow> u8 list option guarded" where
  "direct_read m va n =
     (if va = 0 \<or> kCanonicalLimit \<le> va then Done None
      else (case mem_bytes m va n of None \<Rightarrow> Crash | Some bs \<Rightarrow> Done (Some bs)))"

definition direct_u64 :: "mem \<Rightarrow> u64 \<Rightarrow> u64 option guarded" where
  "direct_u64 m va = gbind (direct_read m va 8) (\<lambda>r. Done (map_option u64_of r))"

definition direct_i32 :: "mem \<Rightarrow> u64 \<Rightarrow> int option guarded" where
  "direct_i32 m va = gbind (direct_read m va 4) (\<lambda>r. Done (map_option (\<lambda>bs. sint (u32_of bs)) r))"

definition direct_u32 :: "mem \<Rightarrow> u64 \<Rightarrow> u32 option guarded" where
  "direct_u32 m va = gbind (direct_read m va 4) (\<lambda>r. Done (map_option u32_of r))"

definition direct_u16 :: "mem \<Rightarrow> u64 \<Rightarrow> u16 option guarded" where
  "direct_u16 m va = gbind (direct_read m va 2) (\<lambda>r. Done (map_option u16_of r))"

fun follow_pointer_chain :: "mem \<Rightarrow> u64 \<Rightarrow> u64 list \<Rightarrow> u64 guarded" where
  "follow_pointer_chain m current [] = Done current"
| "follow_pointer_chain m current (offset # offsets) =
     (if current = 0 \<or> kCanonicalLimit \<le> current then Done 0
      else gbind (direct_u64 m (current + offset)) (\<lambda>r.
        case r of
          None \<Rightarrow> Done 0
        | Some nxt \<Rightarrow>
            if nxt = 0 \<or> kCanonicalLimit \<le> nxt then Done 0
            else follow_pointer_chain m nxt offsets))"


section \<open>Lemmas\<close>

lemma gbind_simps [simp]: "gbind Crash k = Crash" "gbind (Done v) k = k v"
  by (simp_all add: gbind_def)

lemma gbind_Done: "gbind r k = Done v \<longleftrightarrow> (\<exists>u. r = Done u \<and> k u = Done v)"
  by (auto simp: gbind_def split: guarded.splits)

text \<open>What a computation does: \<open>E\<close> when it crashes, \<open>P\<close> of the result when it does not.\<close>

definition guaranteed :: "bool \<Rightarrow> ('a \<Rightarrow> bool) \<Rightarrow> 'a guarded \<Rightarrow> bool" where
  "guaranteed E P r = (case r of Crash \<Rightarrow> E | Done x \<Rightarrow> P x)"

lemma guaranteed_simps [simp]: "guaranteed E P Crash = E" "guaranteed E P (Done x) = P x"
  by (simp_all add: guaranteed_def)

lemma guaranteed_gbind:
  "guaranteed E P r \<Longrightarrow> (\<And>x. r = Done x \<Longrightarrow> P x \<Longrightarrow> guaranteed E Q (k x)) \<Longrightarrow> guaranteed E Q (gbind r k)"
  by (cases r) simp_all

lemma guaranteed_mono: "guaranteed E P r \<Longrightarrow> (\<And>x. P x \<Longrightarrow> Q x) \<Longrightarrow> guaranteed E Q r"
  by (cases r) simp_all

lemma length_le_bytes [simp]: "length (le_bytes n v) = n"
  by (induction n arbitrary: v) simp_all

lemma le_value_le_bytes: "le_value (le_bytes n v) = v mod 256 ^ n"
proof (induction n arbitrary: v)
  case (Suc n)
  have "v mod (256 * 256 ^ n) = v mod 256 + 256 * (v div 256 mod 256 ^ n)"
    by (simp add: mod_mult2_eq)
  then show ?case
    by (simp add: Suc.IH unat_of_nat)
qed simp

lemma u32_of_le_bytes [simp]: "u32_of (le_bytes 4 v) = of_nat v"
  by (simp add: u32_of_def le_value_le_bytes word_of_nat_eq_iff take_bit_eq_mod)

lemma mem_bytes_length: "mem_bytes m va n = Some bs \<Longrightarrow> length bs = n"
  by (induction n arbitrary: va bs) (auto split: option.splits)

lemma mem_bytes_append:
  "mem_bytes m va (a + b) =
     (case mem_bytes m va a of
        None \<Rightarrow> None
      | Some xs \<Rightarrow> map_option (\<lambda>ys. xs @ ys) (mem_bytes m (va + of_nat a) b))"
proof (induction a arbitrary: va)
  case 0
  then show ?case by (cases "mem_bytes m va b") simp_all
next
  case (Suc a)
  show ?case
    using Suc.IH [of "va + 1"] by (auto simp: ac_simps option.map_comp o_def split: option.splits)
qed

text \<open>A direct read that survives returns what the fault-safe read returns.\<close>

lemma direct_read_try:
  "n \<noteq> 0 \<Longrightarrow> direct_read m va n = Done r \<Longrightarrow> try_read_bytes m va n = r"
  by (auto simp: direct_read_def try_read_bytes_def split: if_splits option.splits)

lemma direct_u64_try: "direct_u64 m va = Done r \<Longrightarrow> try_read_u64 m va = r"
  using direct_read_try [of 8 m va] by (auto simp: direct_u64_def try_read_u64_def gbind_Done)


lemma direct_u64_canonical: "direct_u64 m va = Done (Some v) \<Longrightarrow> canonical_va va"
  by (auto simp: direct_u64_def gbind_Done direct_read_def canonical_va_def split: if_splits option.splits)

lemma try_read_u64_direct: "try_read_u64 m va = Some v \<Longrightarrow> direct_u64 m va = Done (Some v)"
  by (auto simp: direct_u64_def try_read_u64_def try_read_bytes_def direct_read_def split: if_splits)

text \<open>
  A path of pointers: from each object the word at the offset is readable and is a canonical
  pointer to the next one.
\<close>

inductive pointer_path :: "mem \<Rightarrow> u64 \<Rightarrow> u64 list \<Rightarrow> u64 \<Rightarrow> bool" for m where
  path_here: "pointer_path m a [] a"
| path_hop: "canonical_va a \<Longrightarrow> try_read_u64 m (a + off) = Some n \<Longrightarrow> canonical_va n \<Longrightarrow>
    pointer_path m n offs b \<Longrightarrow> pointer_path m a (off # offs) b"

inductive_simps pointer_path_Nil: "pointer_path m a [] b"
inductive_simps pointer_path_Cons: "pointer_path m a (off # offs) b"

lemma canonical_va_not: "\<not> (va = 0 \<or> kCanonicalLimit \<le> va) \<longleftrightarrow> canonical_va va"
  by (auto simp: canonical_va_def not_le)


section \<open>Properties\<close>

text \<open>Following a chain of pointer offsets gives a non-null object exactly when the memory holds
  that path, each hop a readable word that is a canonical pointer; when it does the walk never
  crashes, and a null or non-canonical pointer on the way ends it with 0.\<close>

lemma follow_pointer_chain_iff:
  "(follow_pointer_chain m a offs = Done b \<and> b \<noteq> 0) \<longleftrightarrow> (pointer_path m a offs b \<and> b \<noteq> 0)"
proof (induction offs arbitrary: a)
  case Nil
  then show ?case by (auto simp: pointer_path_Nil)
next
  case (Cons off offs)
  show ?case
  proof (cases "direct_u64 m (a + off)")
    case Crash
    then have "try_read_u64 m (a + off) = None"
      using try_read_u64_direct by (cases "try_read_u64 m (a + off)") fastforce+
    with Crash show ?thesis
      by (auto simp: pointer_path_Cons)
  next
    case (Done r)
    then have "try_read_u64 m (a + off) = r" by (rule direct_u64_try)
    with Done show ?thesis
      using Cons.IH unfolding pointer_path_Cons
      by (cases r) (auto simp: canonical_va_not [symmetric])
  qed
qed

end
