(* ===== verification/Palmod_Fname_Pool.thy ===== *)
theory Palmod_Fname_Pool
  imports Palmod_Memory Palmod_Utf16
begin

text \<open>
  Unreal's name pool (\<^verbatim>\<open>native/src/fname_pool.cpp\<close>): a comparison index names a block and an
  even byte offset in it, where a 16-bit header and the characters stand.  \<open>fname_resolve\<close>
  reads the name of an index; \<open>fname_lookup\<close> scans the live pool for a narrow name.
\<close>

section \<open>Resolving an index\<close>

definition kMaxNameLen :: nat where
  "kMaxNameLen = 1024"

definition byte_char8 :: "u8 \<Rightarrow> char" where
  "byte_char8 b = char_of (unat b)"

definition latin1_utf8 :: "u8 \<Rightarrow> string" where
  "latin1_utf8 c =
     (if c < 0x80 then [byte_char8 c]
      else [byte_char8 (0xc0 OR drop_bit 6 c), byte_char8 (0x80 OR (c AND 0x3f))])"

fun u16_units :: "u8 list \<Rightarrow> u16 list" where
  "u16_units (a # b # bs) = u16_of [a, b] # u16_units bs"
| "u16_units _ = []"

definition header_len :: "u16 \<Rightarrow> nat" where
  "header_len header = unat (drop_bit 6 header)"

definition header_wide :: "u16 \<Rightarrow> bool" where
  "header_wide header \<longleftrightarrow> header AND 1 \<noteq> 0"

definition entry_text :: "mem \<Rightarrow> u64 \<Rightarrow> string guarded" where
  "entry_text m entry =
     gbind (direct_u16 m entry) (\<lambda>h.
       case h of
         None \<Rightarrow> Done []
       | Some header \<Rightarrow>
           (let len = header_len header
            in if len = 0 \<or> kMaxNameLen < len then Done []
               else if header_wide header then
                 gbind (direct_read m (entry + 2) (len * 2)) (\<lambda>r.
                   case r of None \<Rightarrow> Done [] | Some bs \<Rightarrow> Done (utf16_to_utf8 (Some (u16_units bs))))
               else
                 gbind (direct_read m (entry + 2) len) (\<lambda>r.
                   case r of None \<Rightarrow> Done [] | Some bs \<Rightarrow> Done (concat (map latin1_utf8 bs)))))"

definition fname_resolve :: "mem \<Rightarrow> u64 \<Rightarrow> u32 \<Rightarrow> string guarded" where
  "fname_resolve m blocks_va comparison_index =
     (if blocks_va = 0 \<or> comparison_index = 0 then Done []
      else (let block = drop_bit 16 comparison_index;
                offset = (comparison_index AND 0xffff) * 2
            in gbind (direct_u64 m (blocks_va + ucast block * 8)) (\<lambda>r.
                 case r of
                   None \<Rightarrow> Done []
                 | Some block_ptr \<Rightarrow>
                     if block_ptr = 0 then Done [] else entry_text m (block_ptr + ucast offset))))"


section \<open>Looking a name up\<close>

definition kBlockBytes :: nat where
  "kBlockBytes = 0x20000"

definition align2 :: "nat \<Rightarrow> nat" where
  "align2 n = (n + 1) div 2 * 2"

text \<open>The walk over the entries of one block's bytes; the offset of the entry that matches.\<close>

function scan_entries :: "string \<Rightarrow> u8 list \<Rightarrow> nat \<Rightarrow> nat option" where
  "scan_entries name data off =
     (if length data < off + 2 then None
      else (let header = u16_of (take 2 (drop off data));
                len = header_len header;
                size = len * (if header_wide header then 2 else 1)
            in if header = 0 \<or> len = 0 \<or> length data < off + 2 + size then None
               else if \<not> header_wide header \<and> len = length name \<and>
                       map byte_char8 (take len (drop (off + 2) data)) = name
               then Some off
               else scan_entries name data (align2 (off + 2 + size))))"
  by pat_completeness auto
termination
  by (relation "measure (\<lambda>(name, data, off). length data - off)") (auto simp: align2_def)

declare scan_entries.simps [simp del]

definition block_used :: "u32 \<Rightarrow> u32 \<Rightarrow> nat \<Rightarrow> nat" where
  "block_used current_block cursor block =
     (if block = unat current_block then unat cursor else kBlockBytes)"

definition scan_block :: "mem \<Rightarrow> u64 \<Rightarrow> string \<Rightarrow> nat \<Rightarrow> nat \<Rightarrow> nat option guarded" where
  "scan_block m blocks_va name used block =
     gbind (direct_u64 m (blocks_va + of_nat block * 8)) (\<lambda>r.
       case r of
         None \<Rightarrow> Done None
       | Some block_ptr \<Rightarrow>
           if block_ptr = 0 \<or> used < 2 then Done None
           else gbind (direct_read m block_ptr used) (\<lambda>d.
                  case d of None \<Rightarrow> Done None | Some data \<Rightarrow> Done (scan_entries name data 0)))"

fun scan_blocks :: "mem \<Rightarrow> u64 \<Rightarrow> string \<Rightarrow> (nat \<Rightarrow> nat) \<Rightarrow> nat \<Rightarrow> nat \<Rightarrow> u32 guarded" where
  "scan_blocks m blocks_va name used 0 block = Done 0"
| "scan_blocks m blocks_va name used (Suc left) block =
     gbind (scan_block m blocks_va name (used block) block) (\<lambda>r.
       case r of
         Some off \<Rightarrow> Done (push_bit 16 (of_nat block) OR of_nat (off div 2))
       | None \<Rightarrow> scan_blocks m blocks_va name used left (Suc block))"

definition fname_lookup :: "mem \<Rightarrow> u64 \<Rightarrow> string \<Rightarrow> u32 guarded" where
  "fname_lookup m blocks_va name =
     (if blocks_va = 0 \<or> name = [] \<or> kMaxNameLen < length name then Done 0
      else gbind (direct_u32 m (blocks_va - 8)) (\<lambda>cb.
        case cb of
          None \<Rightarrow> Done 0
        | Some current_block \<Rightarrow>
            gbind (direct_u32 m (blocks_va - 4)) (\<lambda>cu.
              case cu of
                None \<Rightarrow> Done 0
              | Some cursor \<Rightarrow>
                  if 0x100000 < current_block \<or> kBlockBytes < unat cursor then Done 0
                  else scan_blocks m blocks_va name (block_used current_block cursor)
                         (Suc (unat current_block)) 0)))"

section \<open>Lemmas\<close>

text \<open>User space: nothing is mapped at address 0 or above the canonical limit.\<close>

definition user_mem :: "mem \<Rightarrow> bool" where
  "user_mem m \<longleftrightarrow> (\<forall>va. m va \<noteq> None \<longrightarrow> canonical_va va)"

lemma mem_bytes_slice:
  assumes "mem_bytes m va n = Some bs" "i + k \<le> n"
  shows "mem_bytes m (va + of_nat i) k = Some (take k (drop i bs))"
proof -
  obtain r where n: "n = i + (k + r)"
    using assms(2) by (metis add.assoc le_Suc_ex)
  obtain xs ys zs where "mem_bytes m va i = Some xs" "mem_bytes m (va + of_nat i) k = Some ys" "bs = xs @ ys @ zs"
    using assms(1) unfolding n mem_bytes_append by (auto split: option.splits)
  then show ?thesis
    by (auto dest!: mem_bytes_length)
qed

lemma direct_read_mapped:
  assumes "user_mem m" "mem_bytes m va n = Some bs" "n \<noteq> 0"
  shows "direct_read m va n = Done (Some bs)"
proof -
  have "m va \<noteq> None"
    using assms(2,3) by (cases n) (auto split: option.splits)
  then have "canonical_va va"
    using assms(1) by (simp add: user_mem_def)
  with assms(2) show ?thesis
    by (simp add: direct_read_def canonical_va_def flip: not_le)
qed

lemma even_align2: "even (align2 n)"
  by (simp add: align2_def)

lemma scan_entries_Some:
  "scan_entries name data off = Some e \<Longrightarrow> even off \<Longrightarrow>
     even e \<and> e + 2 + length name \<le> length data \<and> name \<noteq> [] \<and>
     header_len (u16_of (take 2 (drop e data))) = length name \<and>
     \<not> header_wide (u16_of (take 2 (drop e data))) \<and>
     map byte_char8 (take (length name) (drop (e + 2) data)) = name"
proof (induction name data off rule: scan_entries.induct)
  case (1 name data off)
  have "scan_entries name data off = Some e" "even off" by fact+
  then show ?case
    using 1(1) [OF _ refl refl refl]
    by (subst (asm) scan_entries.simps) (auto simp: Let_def even_align2 split: if_split_asm)
qed

lemma scan_blocks_Done:
  "scan_blocks m blocks_va name used n b = Done idx \<Longrightarrow> idx \<noteq> 0 \<Longrightarrow>
   \<exists>block off. block < b + n \<and>
     scan_block m blocks_va name (used block) block = Done (Some off) \<and>
     idx = push_bit 16 (of_nat block) OR of_nat (off div 2)"
proof (induction n arbitrary: b)
  case (Suc n)
  obtain r where r: "scan_block m blocks_va name (used b) b = Done r"
    using Suc.prems(1) by (auto simp: gbind_Done)
  show ?case
  proof (cases r)
    case None
    then have "scan_blocks m blocks_va name used n (Suc b) = Done idx"
      using Suc.prems(1) r by simp
    then show ?thesis
      using Suc.IH [of "Suc b"] Suc.prems(2) by auto
  next
    case (Some off)
    then show ?thesis
      using Suc.prems(1) r by (intro exI [of _ b] exI [of _ off]) simp
  qed
qed simp

lemma index_parts:
  assumes "block < 2 ^ 16" "half < 2 ^ 16"
  defines "idx \<equiv> push_bit 16 (of_nat block) OR of_nat half :: u32"
  shows "drop_bit 16 idx = of_nat block" "idx AND 0xffff = of_nat half"
proof -
  have u: "unat (of_nat block :: u32) = block" "unat (of_nat half :: u32) = half"
    using assms(1,2) by (simp_all add: unsigned_of_nat take_bit_nat_eq_self)
  have idx: "unat idx = block * 65536 + half"
    using assms(1,2) unfolding idx_def by (subst unat_join) (simp_all add: u)
  have "unat (drop_bit 16 idx) = drop_bit 16 (unat idx)"
    by (simp only: unat_drop_bit_eq)
  also have "\<dots> = unat (of_nat block :: u32)"
    using assms(2) by (simp only: idx u) (simp add: drop_bit_eq_div)
  finally have "unat (drop_bit 16 idx) = unat (of_nat block :: u32)" .
  then show "drop_bit 16 idx = of_nat block" by (simp add: word_unat_eq_iff)
  have "idx AND 0xffff = take_bit 16 idx"
    by (simp add: take_bit_eq_mask mask_eq_exp_minus_1)
  then have "unat (idx AND 0xffff) = unat (of_nat half :: u32)"
    using assms(2) by (simp only: unsigned_take_bit_eq) (simp add: idx u take_bit_eq_mod)
  then show "idx AND 0xffff = of_nat half" by (simp add: word_unat_eq_iff)
qed

lemma ucast_of_nat_32_64: "n < 2 ^ 32 \<Longrightarrow> ucast (of_nat n :: u32) = (of_nat n :: u64)"
  by (simp add: word_unat_eq_iff unat_ucast_32_64 unsigned_of_nat take_bit_nat_eq_self)

lemma latin1_ascii: "\<forall>c \<in> set (map byte_char8 bs). code c < 0x80 \<Longrightarrow> concat (map latin1_utf8 bs) = map byte_char8 bs"
proof (induction bs)
  case (Cons b bs)
  have "code (byte_char8 b) = unat b"
    using unsigned_less [of b, where ?'a = nat] by (simp add: byte_char8_def)
  with Cons show ?case
    by (simp add: latin1_utf8_def word_less_nat_alt)
qed simp

lemma entry_text_found:
  assumes "user_mem m" "mem_bytes m p used = Some data" "scan_entries name data 0 = Some e"
    and "length name \<le> kMaxNameLen" "\<forall>c \<in> set name. code c < 0x80"
  shows "entry_text m (p + of_nat e) = Done name"
proof -
  note e = scan_entries_Some [OF assms(3)]
  have len: "length data = used" using assms(2) by (rule mem_bytes_length)
  have "mem_bytes m (p + of_nat e) 2 = Some (take 2 (drop e data))"
    using e len by (intro mem_bytes_slice [OF assms(2)]) simp
  then have h: "direct_u16 m (p + of_nat e) = Done (Some (u16_of (take 2 (drop e data))))"
    using direct_read_mapped [OF assms(1)] by (simp add: direct_u16_def)
  let ?bs = "take (length name) (drop (e + 2) data)"
  have "mem_bytes m (p + of_nat (e + 2)) (length name) = Some ?bs"
    using e len by (intro mem_bytes_slice [OF assms(2)]) simp
  moreover have "p + of_nat e + 2 = p + of_nat (e + 2)" by simp
  ultimately have "direct_read m (p + of_nat e + 2) (length name) = Done (Some ?bs)"
    using direct_read_mapped [OF assms(1)] e by (simp only:) simp
  moreover have "concat (map latin1_utf8 ?bs) = name"
  proof -
    have m: "map byte_char8 ?bs = name" using e by simp
    show ?thesis
      using latin1_ascii [of ?bs] assms(5) unfolding m by blast
  qed
  ultimately show ?thesis
    using h e assms(4) by (simp add: entry_text_def Let_def)
qed

text \<open>The sanity bound admits more blocks than an index can name: with sixteen block bits the index of a
  name in block \<open>b + 0x10000\<close> is that of block \<open>b\<close>.\<close>

lemma index_block_wraps:
  "push_bit 16 (of_nat (b + 0x10000)) OR i = (push_bit 16 (of_nat b) OR i :: u32)"
proof -
  have "push_bit 16 (of_nat (b + 0x10000) :: u32) = push_bit 16 (of_nat b) + 2 ^ 32"
    by (simp add: push_bit_eq_mult algebra_simps)
  moreover have "(2 ^ 32 :: u32) = 0" by simp
  ultimately show ?thesis by (simp only: add_0_right)
qed


section \<open>Properties\<close>


text \<open>A pool with one block that holds the names \<^verbatim>\<open>None\<close> and \<^verbatim>\<open>Ab\<close>.\<close>

fun image :: "(u64 \<times> u8 list) list \<Rightarrow> mem" where
  "image [] a = None"
| "image ((va, bs) # segments) a =
     (let i = unat (a - va) in if i < length bs then Some (bs ! i) else image segments a)"

text \<open>Reading from an image: inside its first segment, and past it.\<close>

lemma image_Cons: "image ((va, bs) # segments) a =
    (if unat (a - va) < length bs then Some (bs ! unat (a - va)) else image segments a)"
  by (simp add: Let_def)

lemma unat_Suc_diff: "unat (a - va) + 1 < 2 ^ 64 \<Longrightarrow> unat (a + 1 - va) = unat (a - va) + (1 :: nat)"
  for a va :: u64
proof -
  assume "unat (a - va) + 1 < 2 ^ 64"
  then have "unat ((a - va) + 1) = unat (a - va) + 1"
    by (simp add: unat_word_ariths(1))
  then show ?thesis by (simp only: diff_add_eq)
qed

lemma mem_bytes_image:
  "unat (a - va) + n \<le> length bs \<Longrightarrow> length bs < 2 ^ 64 \<Longrightarrow>
   mem_bytes (image ((va, bs) # segments)) a n = Some (take n (drop (unat (a - va)) bs))"
proof (induction n arbitrary: a)
  case (Suc n)
  have step: "unat (a + 1 - va) = unat (a - va) + 1"
    using Suc.prems by (intro unat_Suc_diff) simp
  have "mem_bytes (image ((va, bs) # segments)) (a + 1) n = Some (take n (drop (unat (a + 1 - va)) bs))"
    using Suc.prems step by (intro Suc.IH) simp_all
  with Suc.prems step show ?case
    using image_Cons [of va bs segments a] Cons_nth_drop_Suc [of "unat (a - va)" bs, symmetric]
    by (simp del: image.simps)
qed simp

lemma mem_bytes_image_skip:
  "length bs \<le> unat (a - va) \<Longrightarrow> unat (a - va) + n < 2 ^ 64 \<Longrightarrow>
   mem_bytes (image ((va, bs) # segments)) a n = mem_bytes (image segments) a n"
proof (induction n arbitrary: a)
  case (Suc n)
  have step: "unat (a + 1 - va) = unat (a - va) + 1"
    using Suc.prems by (intro unat_Suc_diff) simp
  have "mem_bytes (image ((va, bs) # segments)) (a + 1) n = mem_bytes (image segments) (a + 1) n"
    using Suc.prems step by (intro Suc.IH) simp_all
  with Suc.prems show ?case
    using image_Cons [of va bs segments a] by (simp del: image.simps split: option.split)
qed simp

lemmas image_reads = mem_bytes_image mem_bytes_image_skip

definition sample_pool :: mem where
  "sample_pool = image
     [(0xff8, [0, 0, 0, 0, 10, 0, 0, 0, 0x00, 0x20, 0, 0, 0, 0, 0, 0]),
      (0x2000, [0x00, 0x01, 0x4e, 0x6f, 0x6e, 0x65, 0x80, 0x00, 0x41, 0x62])]"

lemma sample_pool_bytes:
  "mem_bytes sample_pool 0xff8 4 = Some [0, 0, 0, 0]"
  "mem_bytes sample_pool 0xffc 4 = Some [10, 0, 0, 0]"
  "mem_bytes sample_pool 0x1000 8 = Some [0, 0x20, 0, 0, 0, 0, 0, 0]"
  "mem_bytes sample_pool 0x2000 10 = Some [0x00, 0x01, 0x4e, 0x6f, 0x6e, 0x65, 0x80, 0x00, 0x41, 0x62]"
  by (simp_all add: sample_pool_def image_reads del: image.simps)

lemma sample_pool_scan:
  "scan_entries ''Ab'' [0x00, 0x01, 0x4e, 0x6f, 0x6e, 0x65, 0x80, 0x00, 0x41, 0x62] 0 = Some 6"
  by (simp add: scan_entries.simps u16_of_def header_len_def header_wide_def align2_def byte_char8_def char_of_eq_code)

lemma sample_pool_lookup: "fname_lookup sample_pool 0x1000 ''Ab'' = Done 3"
  by (simp add: fname_lookup_def direct_u32_def direct_u64_def direct_read_def scan_block_def block_used_def
      sample_pool_bytes sample_pool_scan u32_of_def u64_of_def kCanonicalLimit_def kMaxNameLen_def kBlockBytes_def)

lemma sample_pool_block: "direct_u32 sample_pool (0x1000 - 8) = Done (Some 0)"
  by (simp add: direct_u32_def direct_read_def sample_pool_bytes kCanonicalLimit_def u32_of_def)

lemma image_user_mem:
  "list_all (\<lambda>(va, bs). list_all (\<lambda>i. canonical_va (va + of_nat i)) [0..<length bs]) segments \<Longrightarrow> user_mem (image segments)"
proof (induction segments)
  case (Cons seg segments)
  obtain va bs where seg: "seg = (va, bs)" by (cases seg)
  have "canonical_va a" if "unat (a - va) < length bs" for a
  proof -
    have "\<forall>i < length bs. canonical_va (va + of_nat i)"
      using Cons.prems by (simp add: seg list_all_iff)
    from this [rule_format, OF that] have "canonical_va (va + of_nat (unat (a - va)))" .
    then show ?thesis by simp
  qed
  with Cons show ?case
    by (auto simp: user_mem_def seg Let_def)
qed (simp add: user_mem_def)

lemma sample_pool_user: "user_mem sample_pool"
  unfolding sample_pool_def by (rule image_user_mem) code_simp


end
