(* ===== verification/Palmod_Parms_Decode.thy ===== *)
theory Palmod_Parms_Decode
  imports Palmod_Fname_Pool
begin

text \<open>
  Decoding a reflected parameter buffer (\<^verbatim>\<open>native/src/parms_decode.cpp\<close>): the fields of a
  layout are read at their offsets into a tree of named values.  Every read of the decoder is
  fault-safe and leaves zero where the memory is not mapped (a transfer of one \<^verbatim>\<open>iovec\<close> element
  is all or nothing); the only call that can end the process is the name resolver, a function
  argument of the code that may also be absent.
\<close>

section \<open>Scalars\<close>

definition kMaxArrayElements :: nat where "kMaxArrayElements = 4096"
definition kMaxStructDepth :: nat where "kMaxStructDepth = 8"

definition u8_of :: "u8 list \<Rightarrow> u8" where "u8_of bs = of_nat (le_value bs)"

definition read_raw :: "mem \<Rightarrow> u64 \<Rightarrow> nat \<Rightarrow> u8 list" where
  "read_raw m va n = (case try_read_bytes m va n of None \<Rightarrow> replicate n 0 | Some bs \<Rightarrow> bs)"

text \<open>The widening of a binary32 pattern; a signalling NaN becomes quiet.\<close>

definition double_of_float :: "u32 \<Rightarrow> double" where
  "double_of_float x =
     (let n = unat x; neg = 2 ^ 31 \<le> n; e = n div 2 ^ 23 mod 256; f = n mod 2 ^ 23
      in if e = 255 then of_nat (sign_bit neg + 2047 * 2 ^ 52 + (if f = 0 then 0 else 2 ^ 51 + f mod 2 ^ 22 * 2 ^ 29))
         else (let q = (if e = 0 then f else 2 ^ 23 + f); s = (if e = 0 then - 149 else int e - 150)
               in if 0 \<le> s then double_of_quotient neg (q * 2 ^ nat s) 1 else double_of_quotient neg q (2 ^ nat (- s))))"

definition number_arg :: "double \<Rightarrow> event_arg" where
  "number_arg n = EventArg [] False [] n False False []"

definition text_arg :: "string \<Rightarrow> event_arg" where
  "text_arg s = EventArg [] True s 0 False False []"

definition read_fstring :: "mem \<Rightarrow> u64 \<Rightarrow> string" where
  "read_fstring m field =
     (let data = u64_of (read_raw m field 8);
          num = sint (u32_of (read_raw m (field + 8) 4))
      in if data = 0 \<or> num \<le> 1 then []
         else (let chars = nat (min (num - 1) (2 ^ 16))
               in case try_read_bytes m data (chars * 2) of
                    None \<Rightarrow> []
                  | Some bs \<Rightarrow> utf16_to_utf8 (Some (u16_units bs))))"

type_synonym fname_resolver = "(u32 \<Rightarrow> string guarded) option"

definition decode_name :: "mem \<Rightarrow> fname_resolver \<Rightarrow> u64 \<Rightarrow> event_arg guarded" where
  "decode_name m resolve_fname field =
     (let index = u32_of (read_raw m field 4);
          number = sint (u32_of (read_raw m (field + 4) 4))
      in case resolve_fname of
           None \<Rightarrow> Done (number_arg (double_of_int (uint index)))
         | Some resolve \<Rightarrow>
             gbind (resolve index) (\<lambda>name.
               Done (text_arg (if 0 < number then name @ ''_'' @ show_int (number - 1) else name))))"

definition decode_scalar :: "mem \<Rightarrow> fname_resolver \<Rightarrow> u64 \<Rightarrow> string \<Rightarrow> event_arg option guarded" where
  "decode_scalar m resolve_fname field type =
     (let number = (\<lambda>i. Done (Some (number_arg (double_of_int i))))
      in if type = ''IntProperty'' \<or> type = ''Int32Property'' then number (sint (u32_of (read_raw m field 4)))
         else if type = ''Int64Property'' then number (sint (u64_of (read_raw m field 8)))
         else if type = ''Int16Property'' then number (sint (u16_of (read_raw m field 2)))
         else if type = ''ByteProperty'' \<or> type = ''Int8Property'' then number (sint (u8_of (read_raw m field 1)))
         else if type = ''UInt32Property'' then number (uint (u32_of (read_raw m field 4)))
         else if type = ''UInt16Property'' then number (uint (u16_of (read_raw m field 2)))
         else if type = ''UInt64Property'' then number (uint (u64_of (read_raw m field 8)))
         else if type = ''ObjectProperty'' \<or> type = ''ClassProperty'' \<or> type = ''WeakObjectProperty'' \<or>
                 type = ''InterfaceProperty'' then number (uint (u64_of (read_raw m field 8)))
         else if type = ''FloatProperty'' then
           Done (Some (number_arg (double_of_float (u32_of (read_raw m field 4)))))
         else if type = ''DoubleProperty'' then Done (Some (number_arg (u64_of (read_raw m field 8))))
         else if type = ''BoolProperty'' then number (if u8_of (read_raw m field 1) \<noteq> 0 then 1 else 0)
         else if type = ''EnumProperty'' then number (uint (u8_of (read_raw m field 1)))
         else if type = ''StrProperty'' then Done (Some (text_arg (read_fstring m field)))
         else if type = ''NameProperty'' then
           gbind (decode_name m resolve_fname field) (\<lambda>a. Done (Some a))
         else Done None)"


section \<open>Fields, arrays and structs\<close>

definition with_name :: "string \<Rightarrow> event_arg \<Rightarrow> event_arg" where
  "with_name name a =
     EventArg name (ea_is_text a) (ea_text a) (ea_number a) (ea_is_array a) (ea_is_struct a) (ea_items a)"

definition array_arg :: "string \<Rightarrow> event_arg list \<Rightarrow> event_arg" where
  "array_arg name items = EventArg name False [] 0 True False items"

definition struct_arg :: "string \<Rightarrow> event_arg list \<Rightarrow> event_arg" where
  "struct_arg name items = EventArg name False [] 0 False True items"

definition struct_elements :: "param_spec \<Rightarrow> bool" where
  "struct_elements param \<longleftrightarrow> ps_inner_type param = ''StructProperty'' \<and> ps_fields param \<noteq> []"

lemma size_ps_fields: "size_list size (ps_fields param) < size param"
  by (cases param) simp

function decode_fields :: "mem \<Rightarrow> fname_resolver \<Rightarrow> u64 \<Rightarrow> param_spec list \<Rightarrow> nat \<Rightarrow> event_arg list guarded"
and decode_field :: "mem \<Rightarrow> fname_resolver \<Rightarrow> u64 \<Rightarrow> param_spec \<Rightarrow> nat \<Rightarrow> event_arg option guarded"
and decode_array :: "mem \<Rightarrow> fname_resolver \<Rightarrow> u64 \<Rightarrow> param_spec \<Rightarrow> nat \<Rightarrow> event_arg guarded"
and decode_elements :: "mem \<Rightarrow> fname_resolver \<Rightarrow> u64 \<Rightarrow> param_spec \<Rightarrow> nat \<Rightarrow> nat \<Rightarrow> event_arg list guarded"
where
  "decode_fields m resolve_fname base [] depth = Done []"
| "decode_fields m resolve_fname base (param # params) depth =
     gbind (decode_field m resolve_fname (base + ps_offset param) param depth) (\<lambda>arg.
       gbind (decode_fields m resolve_fname base params depth) (\<lambda>args.
         Done (case arg of None \<Rightarrow> args | Some a \<Rightarrow> a # args)))"
| "decode_field m resolve_fname field param depth =
     (if ps_type param = ''ArrayProperty'' then
        gbind (decode_array m resolve_fname field param depth) (\<lambda>a. Done (Some a))
      else if ps_type param = ''StructProperty'' then
        gbind (if depth < kMaxStructDepth then decode_fields m resolve_fname field (ps_fields param) (depth + 1)
               else Done []) (\<lambda>items. Done (Some (struct_arg (ps_name param) items)))
      else gbind (decode_scalar m resolve_fname field (ps_type param)) (\<lambda>s.
             Done (map_option (with_name (ps_name param)) s)))"
| "decode_array m resolve_fname field param depth =
     (let data = u64_of (read_raw m field 8);
          num = sint (u32_of (read_raw m (field + 8) 4))
      in if data = 0 \<or> kCanonicalLimit \<le> data \<or> num \<le> 0 \<or> ps_inner_size param = 0
         then Done (array_arg (ps_name param) [])
         else gbind (decode_elements m resolve_fname data param depth (min (nat num) kMaxArrayElements)) (\<lambda>items.
                Done (array_arg (ps_name param) items)))"
| "decode_elements m resolve_fname element param depth 0 = Done []"
| "decode_elements m resolve_fname element param depth (Suc left) =
     (if struct_elements param then
        gbind (if depth < kMaxStructDepth then decode_fields m resolve_fname element (ps_fields param) (depth + 1)
               else Done []) (\<lambda>members.
          gbind (decode_elements m resolve_fname (element + ps_inner_size param) param depth left) (\<lambda>items.
            Done (struct_arg [] members # items)))
      else gbind (decode_scalar m resolve_fname element (ps_inner_type param)) (\<lambda>s.
             case s of
               None \<Rightarrow> Done []
             | Some a \<Rightarrow>
                 gbind (decode_elements m resolve_fname (element + ps_inner_size param) param depth left) (\<lambda>items.
                   Done (a # items))))"
  by pat_completeness auto

termination
  by (relation "inv_image (less_than <*lex*> less_than <*lex*> less_than) (\<lambda>x.
        case x of
          Inl (Inl (_, _, _, params, _)) \<Rightarrow> (size_list size params, 0, 0)
        | Inl (Inr (_, _, _, param, _)) \<Rightarrow> (size param, 2, 0)
        | Inr (Inl (_, _, _, param, _)) \<Rightarrow> (size param, 1, 0)
        | Inr (Inr (_, _, _, param, _, n)) \<Rightarrow> (size param, 0, n))")
    (auto simp: size_ps_fields)

declare decode_field.simps [simp del] decode_array.simps [simp del]

definition decode_parms :: "mem \<Rightarrow> u64 \<Rightarrow> param_spec list \<Rightarrow> fname_resolver \<Rightarrow> event_arg list guarded" where
  "decode_parms m parms params resolve_fname =
     (if parms = 0 then Done [] else decode_fields m resolve_fname parms params 0)"

section \<open>The shape of what is decoded\<close>

definition text_type :: "bool \<Rightarrow> string \<Rightarrow> bool" where
  "text_type names type \<longleftrightarrow> type = ''StrProperty'' \<or> type = ''NameProperty'' \<and> names"

definition scalar_type :: "string \<Rightarrow> bool" where
  "scalar_type type \<longleftrightarrow> type \<in> set
     [''IntProperty'', ''Int32Property'', ''Int64Property'', ''Int16Property'', ''ByteProperty'', ''Int8Property'',
      ''UInt32Property'', ''UInt16Property'', ''UInt64Property'', ''ObjectProperty'', ''ClassProperty'',
      ''WeakObjectProperty'', ''InterfaceProperty'', ''FloatProperty'', ''DoubleProperty'', ''BoolProperty'',
      ''EnumProperty'', ''StrProperty'', ''NameProperty'']"

definition scalar_shape :: "bool \<Rightarrow> string \<Rightarrow> event_arg \<Rightarrow> bool" where
  "scalar_shape names type a \<longleftrightarrow>
     scalar_type type \<and> ea_is_text a = text_type names type \<and> \<not> ea_is_array a \<and> \<not> ea_is_struct a \<and> ea_items a = [] \<and>
     (ea_is_text a \<or> ea_text a = []) \<and> (\<not> ea_is_text a \<or> ea_number a = 0)"

definition node_shape :: "bool \<Rightarrow> event_arg \<Rightarrow> bool" where
  "node_shape is_array a \<longleftrightarrow>
     ea_is_array a = is_array \<and> ea_is_struct a = (\<not> is_array) \<and> \<not> ea_is_text a \<and> ea_text a = [] \<and> ea_number a = 0"

function fields_shape :: "bool \<Rightarrow> nat \<Rightarrow> param_spec list \<Rightarrow> event_arg list \<Rightarrow> bool"
and field_shape :: "bool \<Rightarrow> nat \<Rightarrow> param_spec \<Rightarrow> event_arg \<Rightarrow> bool"
and item_shape :: "bool \<Rightarrow> nat \<Rightarrow> param_spec \<Rightarrow> event_arg \<Rightarrow> bool"
where
  "fields_shape names depth [] args = (args = [])"
| "fields_shape names depth (param # params) args =
     (if scalar_type (ps_type param) \<or> ps_type param \<in> {''ArrayProperty'', ''StructProperty''}
      then (case args of [] \<Rightarrow> False | a # as \<Rightarrow> field_shape names depth param a \<and> fields_shape names depth params as)
      else fields_shape names depth params args)"
| "field_shape names depth param a =
     (ea_name a = ps_name param \<and>
      (if ps_type param = ''ArrayProperty''
       then node_shape True a \<and> length (ea_items a) \<le> kMaxArrayElements \<and> (\<forall>x \<in> set (ea_items a). item_shape names depth param x)
       else if ps_type param = ''StructProperty''
       then node_shape False a \<and>
         (if depth < kMaxStructDepth then fields_shape names (depth + 1) (ps_fields param) (ea_items a) else ea_items a = [])
       else scalar_shape names (ps_type param) a))"
| "item_shape names depth param a =
     (ea_name a = [] \<and>
      (if struct_elements param
       then node_shape False a \<and>
         (if depth < kMaxStructDepth then fields_shape names (depth + 1) (ps_fields param) (ea_items a) else ea_items a = [])
       else scalar_shape names (ps_inner_type param) a))"
  by pat_completeness auto
termination
  by (relation "inv_image (less_than <*lex*> less_than) (\<lambda>x.
        case x of
          Inl (_, _, params, _) \<Rightarrow> (size_list size params, 0)
        | Inr (Inl (_, _, param, _)) \<Rightarrow> (size param, 1)
        | Inr (Inr (_, _, param, _)) \<Rightarrow> (size param, 0))")
    (auto simp: size_ps_fields)

definition resolver_crashes :: "fname_resolver \<Rightarrow> bool" where
  "resolver_crashes resolve_fname \<longleftrightarrow> (\<exists>resolve index. resolve_fname = Some resolve \<and> resolve index = Crash)"

lemma decode_scalar_shape:
  "guaranteed (resolver_crashes rs)
     (\<lambda>s. case s of None \<Rightarrow> \<not> scalar_type type | Some a \<Rightarrow> ea_name a = [] \<and> scalar_shape (rs \<noteq> None) type a)
     (decode_scalar m rs field type)"
proof (cases "type = ''NameProperty''")
  case True
  have "guaranteed (resolver_crashes rs) (\<lambda>a. ea_name a = [] \<and> scalar_shape (rs \<noteq> None) type a) (decode_name m rs field)"
  proof (cases rs)
    case (Some resolve)
    then show ?thesis
      using True
      by (cases "resolve (u32_of (read_raw m field 4))")
        (auto simp: decode_name_def Let_def resolver_crashes_def text_arg_def scalar_shape_def scalar_type_def text_type_def)
  qed (simp add: decode_name_def Let_def number_arg_def scalar_shape_def scalar_type_def text_type_def True)
  then show ?thesis
    using True by (auto simp: decode_scalar_def intro: guaranteed_gbind)
next
  case False
  then show ?thesis
    by (simp add: decode_scalar_def number_arg_def text_arg_def scalar_shape_def scalar_type_def text_type_def
        Let_def split: if_split)
qed

lemma decode_shape:
  "guaranteed (resolver_crashes rs) (fields_shape (rs \<noteq> None) depth params) (decode_fields m rs base params depth)"
  "guaranteed (resolver_crashes rs)
     (\<lambda>r. case r of
        None \<Rightarrow> \<not> scalar_type (ps_type param) \<and> ps_type param \<notin> {''ArrayProperty'', ''StructProperty''}
      | Some a \<Rightarrow> (scalar_type (ps_type param) \<or> ps_type param \<in> {''ArrayProperty'', ''StructProperty''}) \<and>
          field_shape (rs \<noteq> None) depth param a) (decode_field m rs field param depth)"
  "guaranteed (resolver_crashes rs)
     (\<lambda>a. ea_name a = ps_name param \<and> node_shape True a \<and> length (ea_items a) \<le> kMaxArrayElements \<and>
        (\<forall>x \<in> set (ea_items a). item_shape (rs \<noteq> None) depth param x)) (decode_array m rs field param depth)"
  "guaranteed (resolver_crashes rs)
     (\<lambda>items. length items \<le> n \<and> (\<forall>x \<in> set items. item_shape (rs \<noteq> None) depth param x))
     (decode_elements m rs element param depth n)"
proof (induction m rs base params depth and m rs field param depth and m rs field param depth
    and m rs element param depth n
    rule: decode_fields_decode_field_decode_array_decode_elements.induct)
  case (2 m rs base param params depth)
  show ?case
    unfolding decode_fields.simps
    by (rule guaranteed_gbind [OF 2(1)], rule guaranteed_gbind [OF 2(2)]) (auto split: option.splits)
next
  case (3 m rs field param depth)
  consider "ps_type param = ''ArrayProperty''" | "ps_type param = ''StructProperty''"
    | "ps_type param \<notin> {''ArrayProperty'', ''StructProperty''}" by blast
  then show ?case
  proof cases
    case 1
    show ?thesis
      using 1 by (simp add: decode_field.simps) (rule guaranteed_gbind [OF 3(1)], auto)
  next
    case 2
    show ?thesis
      using 2 3(2) by (auto simp: decode_field.simps struct_arg_def node_shape_def intro!: guaranteed_gbind)
  next
    case 3
    then show ?thesis
      by (simp add: decode_field.simps)
        (rule guaranteed_gbind [OF decode_scalar_shape],
          auto simp: with_name_def scalar_shape_def split: option.splits)
  qed
next
  case (4 m rs field param depth)
  show ?case
  proof (cases "u64_of (read_raw m field 8) = 0 \<or> kCanonicalLimit \<le> u64_of (read_raw m field 8) \<or>
      sint (u32_of (read_raw m (field + 8) 4)) \<le> 0 \<or> ps_inner_size param = 0")
    case True
    then show ?thesis
      by (auto simp: decode_array.simps Let_def array_arg_def node_shape_def)
  next
    case False
    show ?thesis
      using False by (simp only: decode_array.simps Let_def if_False)
        (rule guaranteed_gbind [OF 4], auto simp: array_arg_def node_shape_def)
  qed
next
  case (6 m rs element param depth n)
  show ?case
  proof (cases "struct_elements param")
    case True
    have members: "guaranteed (resolver_crashes rs)
        (\<lambda>xs. if depth < kMaxStructDepth then fields_shape (rs \<noteq> None) (depth + 1) (ps_fields param) xs else xs = [])
        (if depth < kMaxStructDepth then decode_fields m rs element (ps_fields param) (depth + 1) else Done [])"
      using 6(1) [OF True] by simp
    show ?thesis
      using True by (simp only: decode_elements.simps if_True)
        (rule guaranteed_gbind [OF members], rule guaranteed_gbind [OF 6(2) [OF True]],
          auto simp: struct_arg_def node_shape_def)
  next
    case False
    then show ?thesis
      by (simp only: decode_elements.simps if_False)
        (rule guaranteed_gbind [OF decode_scalar_shape],
          auto split: option.splits intro!: guaranteed_gbind [OF 6(3)])
  qed
qed simp_all

text \<open>A byte is read as signed: what was written as 200 comes back as -56.\<close>

lemma byte_200_read:
  "try_read_bytes m va 1 = Some [200] \<Longrightarrow>
     decode_scalar m names va ''ByteProperty'' = Done (Some (number_arg (double_of_int (- 56))))"
  by (simp add: decode_scalar_def read_raw_def u8_of_def)


section \<open>Properties\<close>

text \<open>C23: Decoding is fault-safe and well-typed.  Whatever the memory holds, the decoder ends the
  process only if the name resolver it was given does; otherwise its result has the shape of the
  layout: one value per field of a supported type, in order and under the field's name; a text for
  a string (and for a name when there is a resolver), a number for the other scalars; at most 4096
  nameless elements in an array, each of the element type; the members of a struct down to depth 8.\<close>

theorem decode_parms_typed:
  "case decode_parms m parms params resolve_fname of
     Crash \<Rightarrow> resolver_crashes resolve_fname
   | Done args \<Rightarrow> if parms = 0 then args = [] else fields_shape (resolve_fname \<noteq> None) 0 params args"
  using decode_shape(1) [of resolve_fname 0 params m parms]
  by (auto simp: decode_parms_def guaranteed_def split: guarded.splits)

end
