(* ===== verification/Palmod_Hooks.thy ===== *)
theory Palmod_Hooks
  imports Palmod_Parms_Decode
begin

text \<open>
  Data-pointer hooks: one swapped pointer slot (\<^verbatim>\<open>PointerSlotHook\<close> of
  \<^verbatim>\<open>native/src/reflection_backend.cpp\<close>) and the table of by-name hooks built on it
  (\<^verbatim>\<open>native/src/generic_hook.cpp\<close>).

  Installing and removing a hook changes the process's memory, so each operation takes and returns
  it.  The page size, the answer of \<^verbatim>\<open>mprotect\<close> and the addresses of the compiled trampolines
  are arguments.  A null pointer is 0, as is an address of no function.
\<close>

section \<open>Writing memory\<close>

fun mem_write :: "mem \<Rightarrow> u64 \<Rightarrow> u8 list \<Rightarrow> mem" where
  "mem_write m va [] = m"
| "mem_write m va (b # bs) = (mem_write m (va + 1) bs)(va \<mapsto> b)"

definition load_word :: "mem \<Rightarrow> u64 \<Rightarrow> u64 guarded" where
  "load_word m va = (case mem_bytes m va 8 of None \<Rightarrow> Crash | Some bs \<Rightarrow> Done (u64_of bs))"

definition store_word :: "u64 \<Rightarrow> u64 \<Rightarrow> mem \<Rightarrow> mem guarded" where
  "store_word va v m = (case mem_bytes m va 8 of None \<Rightarrow> Crash | Some _ \<Rightarrow> Done (mem_write m va (le_bytes 8 (unat v))))"


section \<open>One pointer slot\<close>

record paging =
  pg_size :: int
  pg_mprotect :: "u64 \<Rightarrow> bool"

definition make_slot_writable :: "paging \<Rightarrow> u64 \<Rightarrow> unit outcome" where
  "make_slot_writable pg slot =
     (if pg_size pg \<le> 0 then Inl ''cannot determine page size''
      else if \<not> pg_mprotect pg (slot AND NOT (of_int (pg_size pg) - 1))
      then Inl ''cannot make reflection pointer slot writable''
      else Inr ())"

record slot_hook =
  sh_slot :: u64
  sh_original :: u64

definition slot_new :: slot_hook where
  "slot_new = \<lparr>sh_slot = 0, sh_original = 0\<rparr>"

definition slot_active :: "slot_hook \<Rightarrow> bool" where
  "slot_active h \<longleftrightarrow> sh_slot h \<noteq> 0"

definition slot_install ::
  "paging \<Rightarrow> u64 \<Rightarrow> u64 \<Rightarrow> slot_hook \<Rightarrow> mem \<Rightarrow> (unit outcome \<times> slot_hook \<times> mem) guarded" where
  "slot_install pg slot replacement h m =
     (if sh_slot h \<noteq> 0 then Done (Inl ''pointer slot hook is already installed'', h, m)
      else if slot = 0 then Done (Inl ''pointer slot address is null'', h, m)
      else if slot mod 8 \<noteq> 0
      then Done (Inl ''pointer slot is not 8-byte aligned; refusing a non-atomic write'', h, m)
      else (case make_slot_writable pg slot of
              Inl e \<Rightarrow> Done (Inl e, h, m)
            | Inr _ \<Rightarrow>
                gbind (load_word m slot) (\<lambda>original.
                  gbind (store_word slot replacement m) (\<lambda>m'.
                    Done (Inr (), \<lparr>sh_slot = slot, sh_original = original\<rparr>, m')))))"

definition slot_uninstall :: "slot_hook \<Rightarrow> mem \<Rightarrow> (slot_hook \<times> mem) guarded" where
  "slot_uninstall h m =
     (if sh_slot h = 0 then Done (h, m)
      else gbind (store_word (sh_slot h) (sh_original h) m) (\<lambda>m'. Done (slot_new, m')))"


text \<open>Repeated attempts, until one succeeds or the time is up.\<close>

fun attempts :: "('a \<Rightarrow> 'h \<Rightarrow> mem \<Rightarrow> (unit outcome \<times> 'h \<times> mem) guarded) \<Rightarrow> 'a list \<Rightarrow> 'h \<Rightarrow> mem \<Rightarrow> (bool \<times> 'h \<times> mem) guarded" where
  "attempts install [] h m = Done (False, h, m)"
| "attempts install (a # as) h m =
     gbind (install a h m) (\<lambda>(res, h', m').
       case res of Inr _ \<Rightarrow> Done (True, h', m') | Inl _ \<Rightarrow> attempts install as h' m')"


section \<open>The hook table\<close>

record generic_event =
  gv_name :: string
  gv_args :: "event_arg list"

record hook_spec =
  hs_thunk_va :: u64
  hs_func_slot_va :: u64
  hs_fframe_locals_offset :: u64
  hs_name :: string
  hs_params :: "param_spec list"

definition spec_new :: hook_spec where
  "spec_new = \<lparr>hs_thunk_va = 0, hs_func_slot_va = 0, hs_fframe_locals_offset = 0x18, hs_name = [], hs_params = []\<rparr>"

text \<open>A callback is a value of type \<open>'d\<close>, or absent.\<close>

record 'd hook_entry =
  he_active :: bool
  he_spec :: hook_spec
  he_resolve :: fname_resolver
  he_deliver :: "'d option"
  he_hook :: slot_hook

definition entry_new :: "'d hook_entry" where
  "entry_new = \<lparr>he_active = False, he_spec = spec_new, he_resolve = None, he_deliver = None, he_hook = slot_new\<rparr>"

definition kCapacity :: nat where "kCapacity = 128"

type_synonym 'd hook_table = "'d hook_entry list"

text \<open>The stub pool belongs to the first table that was constructed.\<close>

definition table_construct :: "'i \<Rightarrow> 'i option \<Rightarrow> 'd hook_table \<times> 'i option" where
  "table_construct self active_table =
     (replicate kCapacity entry_new, if active_table = None then Some self else active_table)"

fun free_entry :: "'d hook_table \<Rightarrow> nat \<Rightarrow> nat option" where
  "free_entry [] i = None"
| "free_entry (e # es) i = (if \<not> he_active e then Some i else free_entry es (i + 1))"

definition table_install ::
  "paging \<Rightarrow> (nat \<Rightarrow> u64) \<Rightarrow> bool \<Rightarrow> (u64 \<Rightarrow> u64 outcome) \<Rightarrow> hook_spec \<Rightarrow> fname_resolver \<Rightarrow> 'd option \<Rightarrow>
   'd hook_table \<Rightarrow> mem \<Rightarrow> (nat outcome \<times> 'd hook_table \<times> mem) guarded" where
  "table_install pg stubs owner resolve spec resolve_fname deliver t m =
     (if \<not> owner then Done (Inl ''another GenericHookTable already owns the stub pool'', t, m)
      else if hs_thunk_va spec = 0 \<and> hs_func_slot_va spec = 0 \<or> deliver = None
      then Done (Inl ''generic hook requires a thunk or slot address and a deliver callback'', t, m)
      else (case free_entry t 0 of
              None \<Rightarrow> Done (Inl ''generic hook table is full'', t, m)
            | Some i \<Rightarrow>
                (case (if hs_func_slot_va spec \<noteq> 0 then Inr (hs_func_slot_va spec) else resolve (hs_thunk_va spec)) of
                   Inl e \<Rightarrow> Done (Inl e, t, m)
                 | Inr slot \<Rightarrow>
                     gbind (slot_install pg slot (stubs i) (he_hook (t ! i)) m) (\<lambda>(res, h, m').
                       case res of
                         Inl e \<Rightarrow>
                           Done (Inl e, t[i := (t ! i)\<lparr>he_spec := spec, he_resolve := None, he_deliver := None\<rparr>], m')
                       | Inr _ \<Rightarrow>
                           Done (Inr i, t[i := \<lparr>he_active = True, he_spec = spec, he_resolve = resolve_fname,
                                                 he_deliver = deliver, he_hook = h\<rparr>], m')))))"

definition table_uninstall :: "nat \<Rightarrow> 'd hook_table \<Rightarrow> mem \<Rightarrow> ('d hook_table \<times> mem) guarded" where
  "table_uninstall i t m =
     (if length t \<le> i \<or> \<not> he_active (t ! i) then Done (t, m)
      else gbind (slot_uninstall (he_hook (t ! i)) m) (\<lambda>(h, m').
        Done (t[i := (t ! i)\<lparr>he_active := False, he_resolve := None, he_deliver := None, he_hook := h\<rparr>], m')))"

fun uninstall_from :: "nat list \<Rightarrow> 'd hook_table \<Rightarrow> mem \<Rightarrow> ('d hook_table \<times> mem) guarded" where
  "uninstall_from [] t m = Done (t, m)"
| "uninstall_from (i # is) t m = gbind (table_uninstall i t m) (\<lambda>(t', m'). uninstall_from is t' m')"

definition uninstall_all :: "'d hook_table \<Rightarrow> mem \<Rightarrow> ('d hook_table \<times> mem) guarded" where
  "uninstall_all t m = uninstall_from [0..<kCapacity] t m"

definition table_destroy :: "'i \<Rightarrow> 'i option \<Rightarrow> 'd hook_table \<Rightarrow> mem \<Rightarrow> ('i option \<times> mem) guarded" where
  "table_destroy self active_table t m =
     gbind (uninstall_all t m) (\<lambda>(_, m'). Done (if active_table = Some self then None else active_table, m'))"

definition active_count :: "'d hook_table \<Rightarrow> nat" where
  "active_count t = length (filter he_active t)"

text \<open>A call through stub \<open>i\<close>: what is delivered, and the function that is chained.\<close>

definition hook_dispatch :: "mem \<Rightarrow> nat \<Rightarrow> u64 \<Rightarrow> 'd hook_table \<Rightarrow> (('d \<times> generic_event) option \<times> u64 option) guarded" where
  "hook_dispatch m i fframe t =
     (let entry = t ! i;
          original = sh_original (he_hook entry);
          chain = (if original \<noteq> 0 then Some original else None)
      in case (if he_active entry \<and> fframe \<noteq> 0 then he_deliver entry else None) of
           None \<Rightarrow> Done (None, chain)
         | Some deliver \<Rightarrow>
             gbind (load_word m (fframe + hs_fframe_locals_offset (he_spec entry))) (\<lambda>locals.
               if locals = 0 then Done (None, chain)
               else gbind (decode_parms m locals (hs_params (he_spec entry)) (he_resolve entry)) (\<lambda>args.
                 Done (Some (deliver, \<lparr>gv_name = hs_name (he_spec entry), gv_args = args\<rparr>), chain))))"


section \<open>Lemmas\<close>

lemma mem_bytes_iff:
  "mem_bytes m va n = Some bs \<longleftrightarrow> length bs = n \<and> (\<forall>i<n. m (va + of_nat i) = Some (bs ! i))"
proof (induction n arbitrary: va bs)
  case (Suc n)
  have split: "(\<forall>i<Suc n. P i) \<longleftrightarrow> P 0 \<and> (\<forall>i<n. P (Suc i))" for P :: "nat \<Rightarrow> bool"
    by (metis Suc_less_eq gr0_conv_Suc less_Suc_eq_0_disj)
  have "mem_bytes m va (Suc n) = Some (b # cs) \<longleftrightarrow> m va = Some b \<and> mem_bytes m (va + 1) n = Some cs" for b cs
    by (auto split: option.split)
  then show ?case
    by (cases bs) (auto simp: split Suc.IH ac_simps dest: mem_bytes_length simp del: mem_bytes.simps)
qed auto

lemma mem_write_at:
  "length bs < 2 ^ 64 \<Longrightarrow>
     mem_write m va bs a = (if unat (a - va) < length bs then Some (bs ! unat (a - va)) else m a)"
proof (induction m va bs rule: mem_write.induct)
  case (2 m va b bs)
  show ?case
  proof (cases "a = va")
    case False
    then have "a - va \<noteq> 0" by simp
    then have "unat (a - va) = Suc (unat (a - va - 1))"
      using unat_minus_one [of "a - va"] by (simp add: unat_gt_0)
    then have step: "unat (a - va) = Suc (unat (a - (va + 1)))" by (simp add: diff_diff_add)
    show ?thesis
      using False 2 by (simp add: step)
  qed simp
qed simp

text \<open>The eight bytes of an aligned slot.\<close>

definition in_slot :: "u64 \<Rightarrow> u64 \<Rightarrow> bool" where
  "in_slot s a \<longleftrightarrow> unat a div 8 = unat s div 8"

definition aligned8 :: "u64 \<Rightarrow> bool" where
  "aligned8 s \<longleftrightarrow> s mod 8 = 0"

lemma aligned8_unat: "aligned8 s \<longleftrightarrow> 8 dvd unat s"
  by (simp add: aligned8_def unat_mod dvd_eq_mod_eq_0 flip: unat_eq_0)

lemma aligned8_offset:
  assumes "aligned8 s" "i < 8"
  shows "unat (s + of_nat i) = unat s + i" "in_slot s (s + of_nat i)"
proof -
  obtain k where k: "unat s = 8 * k" using assms(1) aligned8_unat by (auto elim: dvdE)
  moreover have "unat s < 2 ^ 64" by (rule unat_u64)
  ultimately have "8 * k < 18446744073709551616" by simp
  with assms(2) have "8 * k + i < 18446744073709551616" by presburger
  then show sum: "unat (s + of_nat i) = unat s + i"
    using assms(2) k by (simp add: unat_word_ariths unat_of_nat)
  show "in_slot s (s + of_nat i)"
    using assms(2) k by (simp add: in_slot_def sum)
qed

lemma in_slot_iff: "aligned8 s \<Longrightarrow> unat (a - s) < 8 \<longleftrightarrow> in_slot s a"
proof
  assume s: "aligned8 s" and "unat (a - s) < 8"
  moreover have "a = s + of_nat (unat (a - s))" by simp
  ultimately show "in_slot s a" using aligned8_offset(2) by metis
next
  assume s: "aligned8 s" and "in_slot s a"
  obtain k where k: "unat s = 8 * k" using s aligned8_unat by (auto elim: dvdE)
  with \<open>in_slot s a\<close> have "unat a div 8 = k" by (simp add: in_slot_def)
  with k have "unat s \<le> unat a" "unat a - unat s < 8" by auto
  then show "unat (a - s) < 8"
    by (simp add: unat_sub word_le_nat_alt)
qed

lemma slots_disjoint:
  assumes "aligned8 s" "aligned8 s'" "in_slot s a" "in_slot s' a"
  shows "s = s'"
proof -
  obtain k k' where "unat s = 8 * k" "unat s' = 8 * k'"
    using assms(1,2) aligned8_unat by (auto elim!: dvdE)
  with assms(3,4) have "unat s = unat s'" by (simp add: in_slot_def)
  then show ?thesis by (rule unsigned_word_eqI)
qed

lemma u64_of_inverse: "length bs = 8 \<Longrightarrow> le_bytes 8 (unat (u64_of bs)) = bs"
proof -
  have gen: "le_bytes n (le_value bs) = bs \<and> le_value bs < 256 ^ n" if "length bs = n" for n
    using that
  proof (induction n arbitrary: bs)
    case (Suc n)
    then obtain b cs where bs: "bs = b # cs" "length cs = n" by (cases bs) auto
    have b: "unat b < 256" using unsigned_less [of b] by simp
    have "(256 :: u8) = 0" by simp
    then have zero: "256 * w = 0" for w :: u8 by (simp only: mult_zero_left)
    with b Suc.IH [OF bs(2)] show ?case
      by (simp add: bs(1))
  qed simp
  assume "length bs = 8"
  from gen [OF this] show ?thesis
    by (simp add: u64_of_def unat_of_nat)
qed


lemma load_word_Done: "load_word m s = Done v \<longleftrightarrow> mem_bytes m s 8 = Some (le_bytes 8 (unat v))"
proof
  assume "load_word m s = Done v"
  then obtain bs where "mem_bytes m s 8 = Some bs" "u64_of bs = v"
    by (auto simp: load_word_def split: option.split_asm)
  then show "mem_bytes m s 8 = Some (le_bytes 8 (unat v))"
    using u64_of_inverse [of bs] mem_bytes_length [of m s 8 bs] by auto
next
  assume "mem_bytes m s 8 = Some (le_bytes 8 (unat v))"
  moreover have "u64_of (le_bytes 8 (unat v)) = v"
    using unat_u64 [of v] by (simp add: u64_of_def le_value_le_bytes)
  ultimately show "load_word m s = Done v" by (simp add: load_word_def)
qed

lemma mem_write_slot:
  assumes "aligned8 s"
  shows "mem_write m s (le_bytes 8 v) a = (if in_slot s a then Some (le_bytes 8 v ! unat (a - s)) else m a)"
  using in_slot_iff [OF assms, of a] by (simp add: mem_write_at)

text \<open>A store to a slot is read back there and leaves every other slot alone.\<close>

lemma load_word_cong:
  assumes "aligned8 s" "\<And>a. in_slot s a \<Longrightarrow> m a = m' a"
  shows "load_word m s = load_word m' s"
proof -
  have "mem_bytes m s 8 = Some bs \<longleftrightarrow> mem_bytes m' s 8 = Some bs" for bs
    using assms(2) aligned8_offset(2) [OF assms(1)] by (auto simp: mem_bytes_iff)
  then have "mem_bytes m s 8 = mem_bytes m' s 8"
    by (metis option.exhaust_sel)
  then show ?thesis by (simp add: load_word_def)
qed

lemma store_word_facts:
  assumes "store_word s v m = Done m'" "aligned8 s"
  shows "load_word m' s = Done v" "\<not> in_slot s a \<Longrightarrow> m' a = m a"
    "aligned8 s' \<Longrightarrow> s' \<noteq> s \<Longrightarrow> load_word m' s' = load_word m s'"
proof -
  have m': "m' = mem_write m s (le_bytes 8 (unat v))"
    using assms(1) by (auto simp: store_word_def split: option.split_asm)
  show other: "m' a = m a" if "\<not> in_slot s a" for a
    using that assms(2) by (simp add: m' mem_write_slot)
  have "unat ((s + of_nat i) - s) = i" if "i < 8" for i
    using that by (simp add: unat_of_nat)
  then show "load_word m' s = Done v"
    using aligned8_offset(2) [OF assms(2)]
    by (auto simp: load_word_Done mem_bytes_iff m' mem_write_slot [OF assms(2)])
  show "load_word m' s' = load_word m s'" if "aligned8 s'" "s' \<noteq> s"
    using that assms(2) other by (intro load_word_cong) (auto dest: slots_disjoint)
qed

text \<open>Writing the old word back undoes a change that was confined to the slot.\<close>

lemma store_word_restores:
  assumes "load_word m0 s = Done v" "aligned8 s" "load_word m s = Done w"
  obtains m' where "store_word s v m = Done m'" "\<And>a. in_slot s a \<Longrightarrow> m' a = m0 a" "\<And>a. \<not> in_slot s a \<Longrightarrow> m' a = m a"
proof -
  let ?m = "mem_write m s (le_bytes 8 (unat v))"
  have stored: "store_word s v m = Done ?m"
    using assms(3) by (simp add: store_word_def load_word_Done)
  have "?m a = m0 a" if "in_slot s a" for a
  proof -
    have i: "unat (a - s) < 8" "a = s + of_nat (unat (a - s))"
      using that in_slot_iff [OF assms(2)] by simp_all
    have "m0 (s + of_nat (unat (a - s))) = Some (le_bytes 8 (unat v) ! unat (a - s))"
      using assms(1) i(1) by (auto simp: load_word_Done mem_bytes_iff)
    with that i(2) show ?thesis by (simp add: mem_write_slot [OF assms(2)])
  qed
  then show ?thesis
    using that [OF stored] store_word_facts(2) [OF stored assms(2)] by blast
qed


lemma slot_install_Done:
  assumes "slot_install pg slot replacement h m = Done (res, h', m')"
  obtains e where "res = Inl e" "h' = h" "m' = m"
  | "res = Inr ()" "sh_slot h = 0" "slot \<noteq> 0" "aligned8 slot" "load_word m slot = Done (sh_original h')"
    "sh_slot h' = slot" "store_word slot replacement m = Done m'"
proof (cases "make_slot_writable pg slot")
  case (Inl e)
  with assms have "(\<exists>e. res = Inl e) \<and> h' = h \<and> m' = m"
    by (cases res) (auto simp: slot_install_def split: if_split_asm)
  then show ?thesis using that(1) by blast
next
  case (Inr u)
  with assms that show ?thesis
    by (auto simp: slot_install_def aligned8_def gbind_Done split: if_split_asm)
qed


section \<open>Reversible installation\<close>

text \<open>The contract of everything that is installed in memory: from an idle state, removing what was installed
  restores the memory, and a failed installation changed nothing.\<close>

locale reversible =
  fixes install :: "'a \<Rightarrow> 'h \<Rightarrow> mem \<Rightarrow> (unit outcome \<times> 'h \<times> mem) guarded"
    and uninstall :: "'h \<Rightarrow> mem \<Rightarrow> ('h \<times> mem) guarded"
    and idle :: "'h \<Rightarrow> bool"
  assumes idle_uninstall: "idle h \<Longrightarrow> \<exists>h'. uninstall h m = Done (h', m)"
    and undo: "install a h m = Done (Inr (), h', m') \<Longrightarrow> idle h \<Longrightarrow> \<exists>h''. uninstall h' m' = Done (h'', m)"
    and failed: "install a h m = Done (Inl e, h', m') \<Longrightarrow> idle h \<Longrightarrow> idle h' \<and> m' = m"
begin

lemma install_uninstall:
  assumes "install a h m = Done (res, h', m')" "idle h"
  shows "\<exists>h''. uninstall h' m' = Done (h'', m)"
proof (cases res)
  case (Inl e)
  with assms have "idle h'" "m' = m" using failed by blast+
  then show ?thesis using idle_uninstall by simp
next
  case (Inr u)
  with assms undo show ?thesis by simp
qed

lemma attempts_uninstall:
  "attempts install as h m = Done (ok, h', m') \<Longrightarrow> idle h \<Longrightarrow> \<exists>h''. uninstall h' m' = Done (h'', m)"
proof (induction "as" arbitrary: h m)
  case Nil
  then show ?case by (auto intro: idle_uninstall)
next
  case (Cons a "as")
  obtain res h1 m1 where first: "install a h m = Done (res, h1, m1)"
    using Cons.prems(1) by (auto simp: gbind_Done)
  show ?case
  proof (cases res)
    case (Inl e)
    have "idle h1 \<and> m1 = m" using failed first Inl Cons.prems(2) by blast
    moreover have "attempts install as h1 m1 = Done (ok, h', m')" using Cons.prems(1) first Inl by simp
    ultimately show ?thesis using Cons.IH by blast
  next
    case (Inr u)
    with Cons.prems first undo show ?thesis by auto
  qed
qed

end

definition slot_idle :: "slot_hook \<Rightarrow> bool" where
  "slot_idle h \<longleftrightarrow> sh_slot h = 0"

interpretation slots: reversible "\<lambda>(pg, slot, replacement). slot_install pg slot replacement" slot_uninstall slot_idle
proof
  fix h m
  show "slot_idle h \<Longrightarrow> \<exists>h'. slot_uninstall h m = Done (h', m)"
    by (simp add: slot_idle_def slot_uninstall_def)
next
  fix a h m h' m'
  assume "(case a of (pg, slot, replacement) \<Rightarrow> slot_install pg slot replacement) h m = Done (Inr (), h', m')"
  then obtain pg slot replacement where "slot_install pg slot replacement h m = Done (Inr (), h', m')" by (cases a) auto
  then show "\<exists>h''. slot_uninstall h' m' = Done (h'', m)"
  proof (cases rule: slot_install_Done)
    case 2
    note stored = store_word_facts [OF 2(7) 2(4)]
    obtain m'' where m'': "store_word slot (sh_original h') m' = Done m''"
      "\<And>a. in_slot slot a \<Longrightarrow> m'' a = m a" "\<And>a. \<not> in_slot slot a \<Longrightarrow> m'' a = m' a"
      using store_word_restores [OF 2(5) 2(4) stored(1)] by blast
    have "m'' = m"
      using m''(2,3) stored(2) by (intro ext) (metis (full_types))
    with m''(1) 2(3,6) show ?thesis by (simp add: slot_uninstall_def)
  qed simp
next
  fix a h m e h' m'
  assume "(case a of (pg, slot, replacement) \<Rightarrow> slot_install pg slot replacement) h m = Done (Inl e, h', m')" "slot_idle h"
  then obtain pg slot replacement where "slot_install pg slot replacement h m = Done (Inl e, h', m')" by (cases a) auto
  then show "slot_idle h' \<and> m' = m"
    by (cases rule: slot_install_Done) (use \<open>slot_idle h\<close> in auto)
qed


section \<open>Runs of the table\<close>

definition active_slots :: "'d hook_table \<Rightarrow> u64 list" where
  "active_slots t = map (\<lambda>e. sh_slot (he_hook e)) (filter he_active t)"

text \<open>Any sequence of installations and removals in which no slot is hooked twice at a time.\<close>

inductive hooks_run :: "(nat \<Rightarrow> u64) \<Rightarrow> mem \<Rightarrow> 'd hook_table \<Rightarrow> mem \<Rightarrow> bool" for stubs m0 where
  constructed: "hooks_run stubs m0 (replicate kCapacity entry_new) m0"
| installed: "hooks_run stubs m0 t m \<Longrightarrow>
    table_install pg stubs owner resolve spec resolve_fname deliver t m = Done (res, t', m') \<Longrightarrow>
    distinct (active_slots t') \<Longrightarrow> hooks_run stubs m0 t' m'"
| removed: "hooks_run stubs m0 t m \<Longrightarrow> table_uninstall i t m = Done (t', m') \<Longrightarrow> hooks_run stubs m0 t' m'"

definition hook_ok :: "(nat \<Rightarrow> u64) \<Rightarrow> mem \<Rightarrow> mem \<Rightarrow> nat \<Rightarrow> 'd hook_entry \<Rightarrow> bool" where
  "hook_ok stubs m0 m i e \<longleftrightarrow>
     (if he_active e
      then aligned8 (sh_slot (he_hook e)) \<and> sh_slot (he_hook e) \<noteq> 0 \<and>
        load_word m0 (sh_slot (he_hook e)) = Done (sh_original (he_hook e)) \<and>
        load_word m (sh_slot (he_hook e)) = Done (stubs i)
      else he_hook e = slot_new)"

definition table_ok :: "(nat \<Rightarrow> u64) \<Rightarrow> mem \<Rightarrow> 'd hook_table \<Rightarrow> mem \<Rightarrow> bool" where
  "table_ok stubs m0 t m \<longleftrightarrow>
     (\<forall>i<length t. hook_ok stubs m0 m i (t ! i)) \<and>
     (\<forall>i<length t. \<forall>j<length t. he_active (t ! i) \<longrightarrow> he_active (t ! j) \<longrightarrow>
        sh_slot (he_hook (t ! i)) = sh_slot (he_hook (t ! j)) \<longrightarrow> i = j) \<and>
     (\<forall>a. m a \<noteq> m0 a \<longrightarrow> (\<exists>i<length t. he_active (t ! i) \<and> in_slot (sh_slot (he_hook (t ! i))) a))"

lemma distinct_map_filter_nth:
  "distinct (map f (filter P xs)) \<Longrightarrow> i < length xs \<Longrightarrow> j < length xs \<Longrightarrow> P (xs ! i) \<Longrightarrow> P (xs ! j) \<Longrightarrow>
     f (xs ! i) = f (xs ! j) \<Longrightarrow> i = j"
proof (induction xs arbitrary: i j)
  case (Cons x xs)
  show ?case
  proof (cases i; cases j)
    fix i' j' assume "i = Suc i'" "j = Suc j'"
    with Cons show ?thesis by (auto split: if_split_asm)
  qed (use Cons.prems in \<open>auto split: if_split_asm simp: image_iff\<close>)
qed simp

lemma free_entry_Some: "free_entry t n = Some i \<Longrightarrow> n \<le> i \<and> i < n + length t \<and> \<not> he_active (t ! (i - n))"
proof (induction t arbitrary: n)
  case (Cons e t)
  show ?case
  proof (cases "he_active e")
    case True
    with Cons.prems have "free_entry t (Suc n) = Some i" by simp
    from Cons.IH [OF this] have "Suc n \<le> i \<and> i < Suc n + length t \<and> \<not> he_active (t ! (i - Suc n))" by simp
    then show ?thesis by (auto simp: nth_Cons' Suc_diff_le)
  qed (use Cons.prems in simp)
qed simp

lemma table_install_Done:
  assumes "table_install pg stubs owner resolve spec resolve_fname deliver t m = Done (res, t', m')"
  obtains e i where "res = Inl e" "m' = m" "t' = t \<or> free_entry t 0 = Some i \<and>
      t' = t[i := (t ! i)\<lparr>he_spec := spec, he_resolve := None, he_deliver := None\<rparr>]"
  | i h slot where "res = Inr i" "free_entry t 0 = Some i"
    "t' = t[i := \<lparr>he_active = True, he_spec = spec, he_resolve = resolve_fname, he_deliver = deliver, he_hook = h\<rparr>]"
    "slot \<noteq> 0" "aligned8 slot" "load_word m slot = Done (sh_original h)" "sh_slot h = slot"
    "store_word slot (stubs i) m = Done m'"
proof (cases "\<not> owner \<or> hs_thunk_va spec = 0 \<and> hs_func_slot_va spec = 0 \<or> deliver = None \<or> free_entry t 0 = None")
  case True
  with assms that(1) show ?thesis by (auto simp: table_install_def split: if_split_asm)
next
  case False
  then obtain i where i: "free_entry t 0 = Some i" by auto
  show ?thesis
  proof (cases "if hs_func_slot_va spec \<noteq> 0 then Inr (hs_func_slot_va spec) else resolve (hs_thunk_va spec)")
    case (Inl e)
    with False i assms that(1) show ?thesis by (auto simp: table_install_def split: if_split_asm)
  next
    case (Inr slot)
    obtain res1 h m1 where
      sl: "slot_install pg slot (stubs i) (he_hook (t ! i)) m = Done (res1, h, m1)"
      using False i assms Inr by (cases "slot_install pg slot (stubs i) (he_hook (t ! i)) m")
        (auto simp: table_install_def split: if_split_asm)
    have r: "(case res1 of
        Inl e \<Rightarrow> Done (Inl e, t[i := (t ! i)\<lparr>he_spec := spec, he_resolve := None, he_deliver := None\<rparr>], m1)
      | Inr _ \<Rightarrow> Done (Inr i, t[i := \<lparr>he_active = True, he_spec = spec, he_resolve = resolve_fname,
                              he_deliver = deliver, he_hook = h\<rparr>], m1)) = Done (res, t', m')"
      using False i assms Inr sl by (auto simp: table_install_def split: if_split_asm)
    from sl show ?thesis
    proof (cases rule: slot_install_Done)
      case (1 e)
      with r i that(1) show ?thesis by auto
    next
      case 2
      with r i that(2) show ?thesis by auto
    qed
  qed
qed


lemma table_ok_active:
  assumes "table_ok stubs m0 t m" "j < length t" "he_active (t ! j)"
  shows "aligned8 (sh_slot (he_hook (t ! j)))" "sh_slot (he_hook (t ! j)) \<noteq> 0"
    "load_word m0 (sh_slot (he_hook (t ! j))) = Done (sh_original (he_hook (t ! j)))"
    "load_word m (sh_slot (he_hook (t ! j))) = Done (stubs j)"
  using assms by (auto simp: table_ok_def hook_ok_def)

lemma table_ok_changed:
  assumes "table_ok stubs m0 t m" "m a \<noteq> m0 a"
  obtains j where "j < length t" "he_active (t ! j)" "in_slot (sh_slot (he_hook (t ! j))) a"
  using assms by (auto simp: table_ok_def)

lemma table_install_ok:
  assumes "table_install pg stubs owner resolve spec resolve_fname deliver t m = Done (res, t', m')"
    "distinct (active_slots t')" "table_ok stubs m0 t m"
  shows "table_ok stubs m0 t' m' \<and> length t' = length t"
  using assms(1)
proof (cases rule: table_install_Done)
  case (1 e i)
  show ?thesis
  proof (cases "t' = t")
    case False
    with 1 have i: "free_entry t 0 = Some i"
      and t': "t' = t[i := (t ! i)\<lparr>he_spec := spec, he_resolve := None, he_deliver := None\<rparr>]" by auto
    have same: "he_active (t' ! j) = he_active (t ! j)" "he_hook (t' ! j) = he_hook (t ! j)" if "j < length t" for j
      using that free_entry_Some [OF i] by (auto simp: t' nth_list_update)
    then show ?thesis
      using assms(3) 1(2) by (simp add: t' table_ok_def hook_ok_def cong: conj_cong)
  qed (use 1 assms in simp)
next
  case (2 i h slot)
  have i: "i < length t" "\<not> he_active (t ! i)"
    using free_entry_Some [OF 2(2)] by simp_all
  have old: "he_active (t ! j) \<Longrightarrow> j < length t \<Longrightarrow> j \<noteq> i \<and> t' ! j = t ! j" for j
    using i by (auto simp: 2(3) nth_list_update)
  have fresh: "sh_slot (he_hook (t ! j)) \<noteq> slot" if "j < length t" "he_active (t ! j)" for j
    using distinct_map_filter_nth [OF assms(2) [unfolded active_slots_def], of i j] old [OF that(2,1)] that i 2(3,7)
    by auto
  note store = store_word_facts [OF 2(8) 2(5)]
  have unchanged: "m a = m0 a" if "in_slot slot a" for a
  proof (rule ccontr)
    assume "m a \<noteq> m0 a"
    then obtain j where "j < length t" "he_active (t ! j)" "in_slot (sh_slot (he_hook (t ! j))) a"
      by (rule table_ok_changed [OF assms(3)])
    with that fresh show False
      using slots_disjoint [OF table_ok_active(1) [OF assms(3)] 2(5)] by blast
  qed
  have "load_word m0 slot = Done (sh_original h)"
    using 2(6) load_word_cong [OF 2(5), of m m0] unchanged by simp
  then have ok: "hook_ok stubs m0 m' j (t' ! j)" if "j < length t" for j
    using assms(3) that fresh store i 2(4-7) by (auto simp: table_ok_def hook_ok_def 2(3) nth_list_update)
  have "\<exists>j<length t'. he_active (t' ! j) \<and> in_slot (sh_slot (he_hook (t' ! j))) a" if "m' a \<noteq> m0 a" for a
  proof (cases "in_slot slot a")
    case True
    then show ?thesis using i 2(3,7) by (intro exI [of _ i]) simp
  next
    case False
    then have "m a \<noteq> m0 a" using that store(2) by simp
    then obtain j where "j < length t" "he_active (t ! j)" "in_slot (sh_slot (he_hook (t ! j))) a"
      by (rule table_ok_changed [OF assms(3)])
    then show ?thesis using old by (intro exI [of _ j]) (auto simp: 2(3))
  qed
  then show ?thesis
    using ok distinct_map_filter_nth [OF assms(2) [unfolded active_slots_def]]
    by (auto simp: table_ok_def 2(3))
qed

lemma table_uninstall_ok:
  assumes "table_ok stubs m0 t m"
  obtains t' m' where "table_uninstall i t m = Done (t', m')" "table_ok stubs m0 t' m'" "length t' = length t"
    "\<And>j. j < length t \<Longrightarrow> he_active (t' ! j) \<longleftrightarrow> he_active (t ! j) \<and> j \<noteq> i"
proof (cases "length t \<le> i \<or> \<not> he_active (t ! i)")
  case True
  with assms that [of t m] show ?thesis by (auto simp: table_uninstall_def)
next
  case False
  let ?s = "sh_slot (he_hook (t ! i))"
  have h: "aligned8 ?s" "?s \<noteq> 0" "load_word m0 ?s = Done (sh_original (he_hook (t ! i)))" "load_word m ?s = Done (stubs i)"
    using assms False by (auto simp: table_ok_def hook_ok_def)
  obtain m' where m': "store_word ?s (sh_original (he_hook (t ! i))) m = Done m'"
    "\<And>a. in_slot ?s a \<Longrightarrow> m' a = m0 a" "\<And>a. \<not> in_slot ?s a \<Longrightarrow> m' a = m a"
    using store_word_restores [OF h(3,1,4)] by blast
  let ?t = "t[i := (t ! i)\<lparr>he_active := False, he_resolve := None, he_deliver := None, he_hook := slot_new\<rparr>]"
  have un: "table_uninstall i t m = Done (?t, m')"
    using False h(2) m'(1) by (simp add: table_uninstall_def slot_uninstall_def)
  have active: "he_active (?t ! j) \<longleftrightarrow> he_active (t ! j) \<and> j \<noteq> i" if "j < length t" for j
    using that False by (auto simp: nth_list_update)
  have other: "aligned8 (sh_slot (he_hook (t ! j))) \<and> sh_slot (he_hook (t ! j)) \<noteq> ?s"
    if "j < length t" "he_active (t ! j)" "j \<noteq> i" for j
    using assms that False by (auto simp: table_ok_def hook_ok_def not_le)
  have i: "i < length t" using False by simp
  have "hook_ok stubs m0 m' j (?t ! j)" if "j < length t" for j
  proof (cases "he_active (t ! j) \<and> j \<noteq> i")
    case True
    then show ?thesis
      using that other [of j] table_ok_active [OF assms that] store_word_facts(3) [OF m'(1) h(1)]
      by (simp add: hook_ok_def)
  next
    case False
    then show ?thesis
      using assms that i by (auto simp: table_ok_def hook_ok_def nth_list_update)
  qed
  moreover have "\<exists>j<length t. he_active (?t ! j) \<and> in_slot (sh_slot (he_hook (?t ! j))) a" if "m' a \<noteq> m0 a" for a
  proof -
    have out: "\<not> in_slot ?s a" and "m a \<noteq> m0 a" using that m'(2,3) by (cases "in_slot ?s a"; simp)+
    then obtain j where "j < length t" "he_active (t ! j)" "in_slot (sh_slot (he_hook (t ! j))) a"
      using assms by (auto simp: table_ok_def)
    with out i show ?thesis by (intro exI [of _ j]) (auto simp: nth_list_update)
  qed
  ultimately have "table_ok stubs m0 ?t m'"
    using assms active by (auto simp: table_ok_def nth_list_update)
  with that [OF un] active show ?thesis by simp
qed


lemma hooks_run_ok: "hooks_run stubs m0 t m \<Longrightarrow> table_ok stubs m0 t m \<and> length t = kCapacity"
proof (induction rule: hooks_run.induct)
  case constructed
  show ?case by (simp add: table_ok_def hook_ok_def entry_new_def)
next
  case (installed t m pg owner resolve spec resolve_fname deliver res t' m')
  then show ?case using table_install_ok [OF installed(2,3), of m0] by simp
next
  case (removed t m i t' m')
  then show ?case by (metis guarded.inject prod.inject table_uninstall_ok)
qed

lemma uninstall_from_ok:
  "table_ok stubs m0 t m \<Longrightarrow>
     \<exists>t' m'. uninstall_from is t m = Done (t', m') \<and> table_ok stubs m0 t' m' \<and> length t' = length t \<and>
       (\<forall>j<length t. he_active (t' ! j) \<longleftrightarrow> he_active (t ! j) \<and> j \<notin> set is)"
proof (induction "is" arbitrary: t m)
  case (Cons i "is")
  obtain t1 m1 where un: "table_uninstall i t m = Done (t1, m1)" "table_ok stubs m0 t1 m1" "length t1 = length t"
    "\<And>j. j < length t \<Longrightarrow> he_active (t1 ! j) \<longleftrightarrow> he_active (t ! j) \<and> j \<noteq> i"
    using table_uninstall_ok [OF Cons.prems] by metis
  from Cons.IH [OF un(2)] show ?case
    by (auto simp: un)
qed simp

text \<open>Removing all hooks restores the memory from before the first.\<close>

lemma uninstall_all_restores:
  assumes "hooks_run stubs m0 t m"
  shows "\<exists>t'. uninstall_all t m = Done (t', m0) \<and> active_count t' = 0 \<and> length t' = kCapacity"
proof -
  have ok: "table_ok stubs m0 t m" "length t = kCapacity"
    using hooks_run_ok [OF assms] by auto
  obtain t' m' where un: "uninstall_from [0..<kCapacity] t m = Done (t', m')" "table_ok stubs m0 t' m'"
    "length t' = length t" "\<forall>j<length t. \<not> he_active (t' ! j)"
    using uninstall_from_ok [OF ok(1), of "[0..<kCapacity]"] ok(2) by auto
  then have "m' = m0" "filter he_active t' = []"
    by (auto simp: table_ok_def fun_eq_iff filter_empty_conv in_set_conv_nth)
  with un ok(2) show ?thesis by (simp add: uninstall_all_def active_count_def)
qed


section \<open>A run\<close>

definition sample_paging :: paging where
  "sample_paging = \<lparr>pg_size = 4096, pg_mprotect = (\<lambda>_. True)\<rparr>"

definition sample_target :: u64 where "sample_target = 0x500"

definition sample_slots :: mem where
  "sample_slots = mem_write (\<lambda>_. None) 0x10 (le_bytes 8 (unat sample_target))"

definition sample_stub :: "nat \<Rightarrow> u64" where
  "sample_stub i = 0x9000 + of_nat i"

definition sample_hook :: hook_spec where
  "sample_hook = spec_new\<lparr>hs_func_slot_va := 0x10, hs_name := ''Foo''\<rparr>"

definition sample_entry :: "u64 \<Rightarrow> unit hook_entry" where
  "sample_entry original = \<lparr>he_active = True, he_spec = sample_hook, he_resolve = None, he_deliver = Some (),
     he_hook = \<lparr>sh_slot = 0x10, sh_original = original\<rparr>\<rparr>"

lemma aligned8_0x10: "aligned8 0x10"
  by (simp add: aligned8_def)

lemma load_written: "aligned8 s \<Longrightarrow> load_word (mem_write m s (le_bytes 8 (unat v))) s = Done v"
  using aligned8_offset(2) [of s]
  by (auto simp: load_word_Done mem_bytes_iff mem_write_slot unat_of_nat)

lemma store_loaded: "load_word m s = Done w \<Longrightarrow> store_word s v m = Done (mem_write m s (le_bytes 8 (unat v)))"
  by (simp add: load_word_Done store_word_def)

lemma sample_install:
  assumes "free_entry t 0 = Some i" "he_hook (t ! i) = slot_new" "load_word m 0x10 = Done original"
  shows "table_install sample_paging sample_stub True (\<lambda>_. Inl []) sample_hook None (Some ()) t m =
    Done (Inr i, t[i := sample_entry original], mem_write m 0x10 (le_bytes 8 (unat (sample_stub i))))"
  using assms
  by (simp add: table_install_def sample_hook_def spec_new_def slot_install_def make_slot_writable_def sample_paging_def
      store_loaded [OF assms(3)] sample_entry_def slot_new_def)

definition sample_table :: "unit hook_table" where
  "sample_table = (replicate kCapacity entry_new)[0 := sample_entry sample_target]"

definition sample_hooked :: mem where
  "sample_hooked = mem_write sample_slots 0x10 (le_bytes 8 (unat (sample_stub 0)))"

lemma free_entry_replicate: "free_entry (replicate kCapacity entry_new) 0 = Some 0"
  by (simp add: kCapacity_def entry_new_def numeral_eq_Suc)

lemma sample_hooks_run: "hooks_run sample_stub sample_slots sample_table sample_hooked"
proof (rule hooks_run.installed [OF hooks_run.constructed])
  show "table_install sample_paging sample_stub True (\<lambda>_. Inl []) sample_hook None (Some ())
      (replicate kCapacity entry_new) sample_slots = Done (Inr 0, sample_table, sample_hooked)"
    unfolding sample_table_def sample_hooked_def
    by (rule sample_install [OF free_entry_replicate])
      (simp_all add: kCapacity_def entry_new_def sample_slots_def load_written aligned8_0x10)
  show "distinct (active_slots sample_table)"
    by (simp add: active_slots_def sample_table_def kCapacity_def entry_new_def numeral_eq_Suc)
qed


section \<open>Properties\<close>




text \<open>Hooking one slot twice is not undone: removal goes in the order of the table, so the second hook puts
  back the stub of the first, which is then inactive and chains nothing.\<close>

lemma double_hook_keeps_stub:
  assumes "table_install sample_paging sample_stub True (\<lambda>_. Inl []) sample_hook None (Some ()) sample_table sample_hooked =
    Done (res, t, m)"
  shows "\<exists>t' m'. gbind (table_uninstall 0 t m) (\<lambda>(t1, m1). table_uninstall 1 t1 m1) = Done (t', m') \<and>
    load_word m' 0x10 = Done (sample_stub 0) \<and> \<not> he_active (t' ! 0) \<and> sh_original (he_hook (t' ! 0)) = 0"
proof -
  have loaded: "load_word sample_hooked 0x10 = Done (sample_stub 0)"
    by (simp add: sample_hooked_def load_written aligned8_0x10)
  have "free_entry sample_table 0 = Some 1" "he_hook (sample_table ! 1) = slot_new"
    by (simp_all add: sample_table_def kCapacity_def entry_new_def numeral_eq_Suc sample_entry_def)
  from sample_install [OF this loaded] assms
  have tm: "t = sample_table[1 := sample_entry (sample_stub 0)]"
    "m = mem_write sample_hooked 0x10 (le_bytes 8 (unat (sample_stub 1)))" by simp_all
  have len: "length t = 128" by (simp add: tm sample_table_def kCapacity_def)
  have entries: "t ! 0 = sample_entry sample_target" "t ! 1 = sample_entry (sample_stub 0)"
    by (simp_all add: tm sample_table_def kCapacity_def)
  show ?thesis
    using len entries
    by (simp add: table_uninstall_def slot_uninstall_def sample_entry_def store_loaded load_written aligned8_0x10 tm(2)
        slot_new_def)
qed

end
