(* ===== verification/Palmod_Resolver.thy ===== *)
theory Palmod_Resolver
  imports Palmod_Memory
begin

text \<open>
  Finding the live function slot of an exec thunk (\<^verbatim>\<open>native/src/reflection_resolver.cpp\<close>): the
  memory map of the process is read line by line, the writable anonymous regions are scanned in
  chunks for a word that points to the thunk, and each hit is confirmed by the vtable pointer of the
  enclosing object.  Exactly one hit is accepted.

  The lines of \<^verbatim>\<open>/proc/self/maps\<close> and the address of the scan buffer are arguments.  A bulk read
  transfers the longest readable prefix; the memory is one snapshot.
\<close>

section \<open>The memory map\<close>

record region =
  rg_start :: u64
  rg_end :: u64

text \<open>Reading a word of a stream skips blanks; the rest of the line follows.\<close>

definition stream_word :: "string \<Rightarrow> string \<times> string" where
  "stream_word s = (let r = dropWhile isspace s in (takeWhile (\<lambda>c. \<not> isspace c) r, dropWhile (\<lambda>c. \<not> isspace c) r))"

text \<open>\<^verbatim>\<open>std::stoull\<close> in base 16: the longest prefix of digits after blanks, a sign and a prefix; no digit or
  a value of more than 64 bits throws.\<close>

fun hex_prefix :: "string \<Rightarrow> nat option \<Rightarrow> nat option" where
  "hex_prefix [] acc = acc"
| "hex_prefix (c # cs) acc =
     (case hex_value c of
        None \<Rightarrow> acc
      | Some d \<Rightarrow> hex_prefix cs (Some (16 * (case acc of None \<Rightarrow> 0 | Some v \<Rightarrow> v) + d)))"

definition skip_0x :: "string \<Rightarrow> string" where
  "skip_0x s =
     (case s of
        a # b # c # r \<Rightarrow>
          if a = CHR ''0'' \<and> (b = CHR ''x'' \<or> b = CHR ''X'') \<and> hex_value c \<noteq> None then c # r else s
      | _ \<Rightarrow> s)"

definition stoull16 :: "string \<Rightarrow> u64 option" where
  "stoull16 s =
     (let r = dropWhile isspace s;
          negative = (take 1 r = ''-'');
          digits = skip_0x (if negative \<or> take 1 r = ''+'' then drop 1 r else r)
      in case hex_prefix digits None of
           None \<Rightarrow> None
         | Some v \<Rightarrow> if 2 ^ 64 \<le> v then None else Some (if negative then - of_nat v else of_nat v))"

text \<open>A line gives a region or none; \<open>None\<close> is an exception that leaves the scan.\<close>

definition region_of_line :: "string \<Rightarrow> region option option" where
  "region_of_line line =
     (let (range, r1) = stream_word line;
          (perms, r2) = stream_word r1;
          (_, r3) = stream_word r2;
          (_, r4) = stream_word r3;
          (_, r5) = stream_word r4;
          path = dropWhile (\<lambda>c. c = CHR '' '') r5
      in if length perms < 2 \<or> perms ! 0 \<noteq> CHR ''r'' \<or> perms ! 1 \<noteq> CHR ''w'' then Some None
         else if path \<noteq> [] \<and> path ! 0 = CHR ''/'' then Some None
         else if CHR ''-'' \<notin> set range then Some None
         else (case (stoull16 (takeWhile (\<lambda>c. c \<noteq> CHR ''-'') range),
                     stoull16 (drop 1 (dropWhile (\<lambda>c. c \<noteq> CHR ''-'') range))) of
                 (Some lo, Some hi) \<Rightarrow> Some (if lo < hi then Some \<lparr>rg_start = lo, rg_end = hi\<rparr> else None)
               | _ \<Rightarrow> None))"

fun scannable_regions :: "string list \<Rightarrow> region list option" where
  "scannable_regions [] = Some []"
| "scannable_regions (l # ls) =
     (case region_of_line l of
        None \<Rightarrow> None
      | Some r \<Rightarrow> map_option (\<lambda>rs. case r of None \<Rightarrow> rs | Some g \<Rightarrow> g # rs) (scannable_regions ls))"


section \<open>The scan\<close>

definition kChunkBytes :: nat where "kChunkBytes = 4 * 1024 * 1024"

text \<open>How many bytes \<^verbatim>\<open>process_vm_readv\<close> transfers.\<close>

fun readable :: "mem \<Rightarrow> u64 \<Rightarrow> nat \<Rightarrow> nat" where
  "readable m base 0 = 0"
| "readable m base (Suc n) = (if m base = None then 0 else Suc (readable m (base + 1) n))"

record resolver =
  rs_func_offset :: u64
  rs_vtable_va :: u64

definition region_maps :: "region list \<Rightarrow> u64 \<Rightarrow> bool" where
  "region_maps regions va \<longleftrightarrow> (\<exists>r \<in> set regions. rg_start r \<le> va \<and> va + 8 \<le> rg_end r)"

text \<open>Whether the word at a scanned address is the function slot of a live function object.\<close>

definition slot_match :: "mem \<Rightarrow> resolver \<Rightarrow> region list \<Rightarrow> u64 \<times> u64 \<Rightarrow> u64 \<Rightarrow> u64 \<Rightarrow> bool" where
  "slot_match m rs regions buffer thunk_va slot_va \<longleftrightarrow>
     map_option u64_of (mem_bytes m slot_va 8) = Some thunk_va \<and>
     \<not> (fst buffer \<le> slot_va \<and> slot_va < snd buffer) \<and>
     \<not> slot_va < rs_func_offset rs \<and>
     region_maps regions (slot_va - rs_func_offset rs) \<and>
     try_read_u64 m (slot_va - rs_func_offset rs) = Some (rs_vtable_va rs)"

text \<open>The words of one chunk, then the chunks of one region; the state is the number of matches and the
  last of them.\<close>

definition scan_word :: "mem \<Rightarrow> resolver \<Rightarrow> region list \<Rightarrow> u64 \<times> u64 \<Rightarrow> u64 \<Rightarrow> u64 \<Rightarrow> nat \<times> u64 \<Rightarrow> nat \<times> u64" where
  "scan_word m rs regions buffer thunk_va slot_va s =
     (if slot_match m rs regions buffer thunk_va slot_va then (fst s + 1, slot_va) else s)"

definition scan_chunk ::
  "mem \<Rightarrow> resolver \<Rightarrow> region list \<Rightarrow> u64 \<times> u64 \<Rightarrow> u64 \<Rightarrow> u64 \<Rightarrow> nat \<Rightarrow> nat \<times> u64 \<Rightarrow> nat \<times> u64" where
  "scan_chunk m rs regions buffer thunk_va base valid s =
     fold (\<lambda>i. scan_word m rs regions buffer thunk_va (base + of_nat (8 * i))) [0..<valid div 8] s"

function scan_region ::
  "mem \<Rightarrow> resolver \<Rightarrow> region list \<Rightarrow> u64 \<times> u64 \<Rightarrow> u64 \<Rightarrow> u64 \<Rightarrow> nat \<Rightarrow> nat \<times> u64 \<Rightarrow> nat \<times> u64" where
  "scan_region m rs regions buffer thunk_va base left s =
     (if left = 0 then s
      else (let got = readable m base (min kChunkBytes left)
            in if got = 0 then s
               else scan_region m rs regions buffer thunk_va (base + of_nat got) (left - got)
                      (scan_chunk m rs regions buffer thunk_va base got s)))"
  by pat_completeness auto
termination
  by (relation "measure (\<lambda>(m, rs, regions, buffer, thunk_va, base, left, s). left)") auto

declare scan_region.simps [simp del]

definition resolve_slot ::
  "mem \<Rightarrow> resolver \<Rightarrow> region list \<Rightarrow> u64 \<times> u64 \<Rightarrow> u64 \<Rightarrow> u64 outcome" where
  "resolve_slot m rs regions buffer thunk_va =
     (let (match_count, found_slot) =
            fold (\<lambda>r. scan_region m rs regions buffer thunk_va (rg_start r) (unat (rg_end r - rg_start r))) regions (0, 0)
      in if match_count = 0 then Inl ''no UFunction::Func slot found for the exec thunk''
         else if 1 < match_count then Inl ''UFunction::Func slot is not unique; refusing to guess''
         else Inr found_slot)"


section \<open>Lemmas\<close>

lemma readable_le: "readable m base n \<le> n"
  by (induction m base n rule: readable.induct) auto

lemma readable_add:
  "readable m base (a + b) =
     (if readable m base a < a then readable m base a else a + readable m (base + of_nat a) b)"
proof (induction m base a rule: readable.induct)
  case (2 m base n)
  then show ?case by (simp add: ac_simps)
qed simp

lemma readable_stops: "readable m base n < n \<Longrightarrow> m (base + of_nat (readable m base n)) = None"
proof (induction m base n rule: readable.induct)
  case (2 m base n)
  then show ?case by (auto simp: ac_simps split: if_split_asm)
qed simp

lemma readable_none: "m base = None \<Longrightarrow> readable m base n = 0"
  by (cases n) simp_all

text \<open>The reference: the aligned words of the readable prefix of a region.\<close>

definition words_of :: "u64 \<Rightarrow> nat \<Rightarrow> u64 list" where
  "words_of base n = map (\<lambda>i. base + of_nat (8 * i)) [0..<n div 8]"

definition region_words :: "mem \<Rightarrow> region \<Rightarrow> u64 list" where
  "region_words m r = words_of (rg_start r) (readable m (rg_start r) (unat (rg_end r - rg_start r)))"

lemma words_of_append: "8 dvd a \<Longrightarrow> words_of base (a + b) = words_of base a @ words_of (base + of_nat a) b"
proof (elim dvdE)
  fix k assume a: "a = 8 * k"
  have "[0..<k + b div 8] = [0..<k] @ map (\<lambda>i. i + k) [0..<b div 8]"
    by (simp add: map_add_upt upt_add_eq_append [symmetric] add.commute)
  then show ?thesis
    by (simp add: words_of_def a distrib_left ac_simps)
qed

lemma scan_chunk_words:
  "scan_chunk m rs regions buffer thunk_va base valid s = fold (scan_word m rs regions buffer thunk_va) (words_of base valid) s"
  by (simp add: scan_chunk_def words_of_def fold_map comp_def)

lemma scan_region_words:
  "scan_region m rs regions buffer thunk_va base left s =
     fold (scan_word m rs regions buffer thunk_va) (words_of base (readable m base left)) s"
proof (induction m rs regions buffer thunk_va base left s rule: scan_region.induct)
  case (1 m rs regions buffer thunk_va base left s)
  let ?want = "min kChunkBytes left"
  let ?got = "readable m base ?want"
  let ?rest = "readable m (base + of_nat ?got) (left - ?got)"
  show ?case
  proof (cases "left = 0 \<or> ?got = 0")
    case True
    have "left = 0 \<or> readable m base left = 0"
    proof (cases left)
      case (Suc n)
      with True have "m base = None"
        by (cases ?want) (auto simp: kChunkBytes_def split: if_split_asm)
      then show ?thesis by (simp add: readable_none)
    qed simp
    with True show ?thesis
      by (subst scan_region.simps) (auto simp: words_of_def)
  next
    case False
    have parts: "words_of base (readable m base left) = words_of base ?got @ words_of (base + of_nat ?got) ?rest"
    proof (cases "?got < ?want")
      case True
      have "readable m base left = ?got"
        using readable_add [of m base ?want "left - ?want"] True by simp
      moreover have "?rest = 0"
        by (rule readable_none, rule readable_stops [OF True])
      ultimately show ?thesis by (simp add: words_of_def)
    next
      case full: False
      have got: "?got = ?want" using full readable_le [of m base ?want] by linarith
      then have total: "readable m base left = ?want + readable m (base + of_nat ?want) (left - ?want)"
        using readable_add [of m base ?want "left - ?want"] by simp
      show ?thesis
      proof (cases "left \<le> kChunkBytes")
        case True
        with got total show ?thesis by (simp add: words_of_def)
      next
        case False
        then have "8 dvd ?want" by (simp add: kChunkBytes_def min_def)
        with got total show ?thesis using words_of_append by simp
      qed
    qed
    show ?thesis
      using False 1 [of ?got] by (subst scan_region.simps) (simp add: Let_def parts scan_chunk_words)
  qed
qed

lemma fold_scan_word:
  "fold (scan_word m rs regions buffer thunk_va) ws (n, found) =
     (let hits = filter (slot_match m rs regions buffer thunk_va) ws
      in (n + length hits, if hits = [] then found else last hits))"
  by (induction ws arbitrary: n found) (auto simp: scan_word_def Let_def)

lemma fold_regions:
  "fold (\<lambda>r. scan_region m rs regions buffer thunk_va (rg_start r) (unat (rg_end r - rg_start r))) gs s =
     fold (scan_word m rs regions buffer thunk_va) (concat (map (region_words m) gs)) s"
  by (induction gs arbitrary: s) (simp_all add: scan_region_words region_words_def)


section \<open>Properties\<close>

text \<open>C19: The chunked scan decides exactly what a plain search over all aligned words of the readable
  prefix of each writable region decides: no match and several matches are distinct errors, and a
  single match is the answer.\<close>

theorem resolve_slot_unique:
  "resolve_slot m rs regions buffer thunk_va =
     (case filter (slot_match m rs regions buffer thunk_va) (concat (map (region_words m) regions)) of
        [] \<Rightarrow> Inl ''no UFunction::Func slot found for the exec thunk''
      | [slot] \<Rightarrow> Inr slot
      | _ \<Rightarrow> Inl ''UFunction::Func slot is not unique; refusing to guess'')"
  by (simp add: resolve_slot_def fold_regions fold_scan_word Let_def split: list.split)

end
