(* ===== verification/Palmod_Chat.thy ===== *)
theory Palmod_Chat
  imports Palmod_Hooks Palmod_Resolver Palmod_Fname_Pool
begin

text \<open>
  Chat interception: decoding a chat message from live memory
  (\<^verbatim>\<open>native/src/chat_message.cpp\<close>) and the hook on the broadcast function
  (\<^verbatim>\<open>native/src/chat_hook.cpp\<close>).

  Every read of the message is fault-safe.  The handler that a decoded message is given to acts on a
  state \<open>'w\<close>, may end the process and answers whether the broadcast is to be suppressed.
\<close>

section \<open>Decoding\<close>

definition kMaxChars :: int where "kMaxChars = 65536"

definition chat_fstring :: "mem \<Rightarrow> u64 \<Rightarrow> string" where
  "chat_fstring m field_va =
     (case try_read_u64 m field_va of
        None \<Rightarrow> []
      | Some data \<Rightarrow>
          (case try_read_u64 m (field_va + 8) of
             None \<Rightarrow> []
           | Some num_word \<Rightarrow>
               (let num = sint (ucast (num_word AND 0xffffffff) :: u32)
                in if data = 0 \<or> num \<le> 1 then []
                   else (let chars = nat (if num - 1 < kMaxChars then num - 1 else kMaxChars)
                         in case try_read_bytes m data (chars * 2) of
                              None \<Rightarrow> []
                            | Some bs \<Rightarrow> utf16_to_utf8 (Some (u16_units bs))))))"

record chat_layout =
  cl_sender_fstring_offset :: u64
  cl_text_fstring_offset :: u64
  cl_sender_uid_offset :: u64

definition event_new :: plugin_event where
  "event_new = \<lparr>pe_kind = [], pe_sequence = 0, pe_source = [], pe_text = [], pe_subject = [], pe_handle = 0,
     pe_number = 0, pe_args = []\<rparr>"

definition decode_chat_event :: "mem \<Rightarrow> u64 \<Rightarrow> chat_layout \<Rightarrow> plugin_event option" where
  "decode_chat_event m message layout =
     (if message = 0 then None
      else Some (event_new\<lparr>pe_kind := ''chat'',
                   pe_source := chat_fstring m (message + cl_sender_fstring_offset layout),
                   pe_text := chat_fstring m (message + cl_text_fstring_offset layout)\<rparr>))"


section \<open>The hook\<close>

record decoded_chat =
  dc_event :: plugin_event
  dc_sender_uid :: "u8 list"
  dc_has_sender_uid :: bool
  dc_category :: u8

type_synonym 'w chat_deliver = "decoded_chat \<Rightarrow> 'w \<Rightarrow> (bool \<times> 'w) guarded"

definition decode_broadcast :: "mem \<Rightarrow> u64 \<Rightarrow> chat_layout \<Rightarrow> decoded_chat option" where
  "decode_broadcast m locals layout =
     map_option (\<lambda>event.
       let uid = (if cl_sender_uid_offset layout = 0 then None
                  else try_read_bytes m (locals + cl_sender_uid_offset layout) 16)
       in \<lparr>dc_event = event,
           dc_sender_uid = (case uid of None \<Rightarrow> replicate 16 0 | Some bs \<Rightarrow> bs),
           dc_has_sender_uid = (uid \<noteq> None),
           dc_category = (case try_read_bytes m locals 1 of None \<Rightarrow> 0 | Some bs \<Rightarrow> hd bs)\<rparr>)
       (decode_chat_event m locals layout)"

definition handle_broadcast_chat ::
  "mem \<Rightarrow> u64 \<Rightarrow> u64 \<Rightarrow> chat_layout \<Rightarrow> 'w chat_deliver option \<Rightarrow> 'w \<Rightarrow> (bool \<times> 'w) guarded" where
  "handle_broadcast_chat m fframe locals_offset layout deliver w =
     (case (if fframe = 0 then None else deliver) of
        None \<Rightarrow> Done (False, w)
      | Some d \<Rightarrow>
          (case try_read_u64 m (fframe + locals_offset) of
             None \<Rightarrow> Done (False, w)
           | Some locals \<Rightarrow>
               if locals = 0 then Done (False, w)
               else (case decode_broadcast m locals layout of None \<Rightarrow> Done (False, w) | Some chat \<Rightarrow> d chat w)))"

record chat_config =
  cc_broadcast_thunk_va :: u64
  cc_fframe_locals_offset :: u64
  cc_layout :: chat_layout

text \<open>\<open>ch_current\<close>: the static of the trampoline points to this hook.\<close>

record 'd chat_hook =
  ch_hook :: slot_hook
  ch_deliver :: "'d option"
  ch_config :: chat_config
  ch_current :: bool

definition chat_install ::
  "paging \<Rightarrow> u64 \<Rightarrow> (u64 \<Rightarrow> u64 outcome) \<Rightarrow> chat_config \<Rightarrow> 'd option \<Rightarrow> 'd chat_hook \<Rightarrow> mem \<Rightarrow>
   (unit outcome \<times> 'd chat_hook \<times> mem) guarded" where
  "chat_install pg trampoline resolve config deliver h m =
     (if cc_broadcast_thunk_va config = 0 \<or> deliver = None
      then Done (Inl ''chat hook requires a broadcast thunk address and a deliver callback'', h, m)
      else (case resolve (cc_broadcast_thunk_va config) of
              Inl e \<Rightarrow> Done (Inl e, h, m)
            | Inr slot \<Rightarrow>
                gbind (slot_install pg slot trampoline (ch_hook h) m) (\<lambda>(res, hook, m').
                  case res of
                    Inl e \<Rightarrow> Done (Inl e, h\<lparr>ch_hook := hook, ch_config := config, ch_deliver := None, ch_current := False\<rparr>, m')
                  | Inr _ \<Rightarrow>
                      Done (Inr (), \<lparr>ch_hook = hook, ch_deliver = deliver, ch_config = config, ch_current = True\<rparr>, m'))))"

definition chat_uninstall :: "'d chat_hook \<Rightarrow> mem \<Rightarrow> ('d chat_hook \<times> mem) guarded" where
  "chat_uninstall h m =
     gbind (slot_uninstall (ch_hook h) m) (\<lambda>(hook, m').
       Done (h\<lparr>ch_hook := hook, ch_deliver := None, ch_current := False\<rparr>, m'))"

text \<open>A call of the hooked function: the function that is chained, unless the broadcast is suppressed.\<close>

definition chat_trampoline :: "mem \<Rightarrow> u64 \<Rightarrow> 'w chat_deliver chat_hook \<Rightarrow> 'w \<Rightarrow> (u64 option \<times> 'w) guarded" where
  "chat_trampoline m fframe h w =
     (if \<not> ch_current h then Done (None, w)
      else gbind (handle_broadcast_chat m fframe (cc_fframe_locals_offset (ch_config h)) (cc_layout (ch_config h))
                    (ch_deliver h) w) (\<lambda>(suppress, w').
        let original = sh_original (ch_hook h)
        in Done (if suppress \<or> original = 0 then None else Some original, w')))"


section \<open>Lemmas\<close>

lemma decode_broadcast_uid: "decode_broadcast m locals layout = Some chat \<Longrightarrow> length (dc_sender_uid chat) = 16"
  by (auto simp: decode_broadcast_def Let_def try_read_bytes_def dest: mem_bytes_length split: option.split if_split_asm)

lemma decode_broadcast_kind: "decode_broadcast m locals layout = Some chat \<Longrightarrow> pe_kind (dc_event chat) = ''chat''"
  by (auto simp: decode_broadcast_def Let_def decode_chat_event_def split: if_split_asm)

definition chat_idle :: "'d chat_hook \<Rightarrow> bool" where
  "chat_idle h \<longleftrightarrow> slot_idle (ch_hook h)"

lemma chat_install_Done:
  assumes "chat_install pg trampoline attempt config deliver h m = Done (res, h', m')"
  obtains e where "res = Inl e" "h' = h" "m' = m"
  | slot hook where "slot_install pg slot trampoline (ch_hook h) m = Done (res, hook, m')" "ch_hook h' = hook"
proof (cases "cc_broadcast_thunk_va config = 0 \<or> deliver = None \<or> (\<exists>e. attempt (cc_broadcast_thunk_va config) = Inl e)")
  case True
  with assms that(1) show ?thesis by (auto simp: chat_install_def split: if_split_asm)
next
  case False
  then obtain slot where slot: "attempt (cc_broadcast_thunk_va config) = Inr slot"
    by (cases "attempt (cc_broadcast_thunk_va config)") auto
  then obtain res1 hook m1 where sl: "slot_install pg slot trampoline (ch_hook h) m = Done (res1, hook, m1)"
    using assms False by (cases "slot_install pg slot trampoline (ch_hook h) m") (auto simp: chat_install_def)
  have "res = res1" "ch_hook h' = hook" "m' = m1"
    using assms False slot sl by (cases res1; auto simp: chat_install_def)+
  with sl that(2) show ?thesis by blast
qed

lemma chat_uninstall_slot: "slot_uninstall (ch_hook h) m = Done (hook, m') \<Longrightarrow> \<exists>h'. chat_uninstall h m = Done (h', m')"
  by (simp add: chat_uninstall_def)

interpretation chats: reversible "\<lambda>attempt. chat_install pg trampoline attempt config deliver" chat_uninstall chat_idle
  for pg trampoline config deliver
proof
  fix h :: "'a chat_hook" and m
  show "chat_idle h \<Longrightarrow> \<exists>h'. chat_uninstall h m = Done (h', m)"
    using slots.idle_uninstall chat_uninstall_slot by (fastforce simp: chat_idle_def)
next
  fix attempt and h h' :: "'a chat_hook" and m m'
  assume "chat_install pg trampoline attempt config deliver h m = Done (Inr (), h', m')" "chat_idle h"
  then show "\<exists>h''. chat_uninstall h' m' = Done (h'', m)"
    using slots.undo [of "(pg, _, trampoline)"] chat_uninstall_slot
    by (elim chat_install_Done) (fastforce simp: chat_idle_def)+
next
  fix attempt e and h h' :: "'a chat_hook" and m m'
  assume "chat_install pg trampoline attempt config deliver h m = Done (Inl e, h', m')" "chat_idle h"
  then show "chat_idle h' \<and> m' = m"
    using slots.failed [of "(pg, _, trampoline)"]
    by (elim chat_install_Done) (fastforce simp: chat_idle_def)+
qed

text \<open>A suppressed broadcast is not chained.\<close>

lemma suppressed_not_chained:
  assumes "ch_current h"
    "handle_broadcast_chat m fframe (cc_fframe_locals_offset (ch_config h)) (cc_layout (ch_config h)) (ch_deliver h) w =
       Done (True, w')"
  shows "chat_trampoline m fframe h w = Done (None, w')"
  using assms by (simp add: chat_trampoline_def Let_def)


end
