(* ===== verification/Palmod_Sha256.thy ===== *)
theory Palmod_Sha256
  imports Palmod_Prelude
begin

text \<open>
  The streaming SHA-256 of \<^verbatim>\<open>native/src/sha256.cpp\<close>: the object \<^verbatim>\<open>Sha256\<close> with its
  partial block \<^verbatim>\<open>buffer_\<close>, \<^verbatim>\<open>update\<close>, \<^verbatim>\<open>finish\<close> and \<^verbatim>\<open>transform\<close>, the hexadecimal
  printer, and the refinement of the one-shot definition (pad the whole message, fold the
  compression function over its 64-byte blocks) by any sequence of updates.
\<close>

section \<open>The compression function\<close>

text \<open>The table of \<^verbatim>\<open>kRound\<close>, row by row as the source lays it out.\<close>

definition kRound :: "u32 list" where
  "kRound = concat
    [[0x428a2f98, 0x71374491, 0xb5c0fbcf, 0xe9b5dba5, 0x3956c25b],
     [0x59f111f1, 0x923f82a4, 0xab1c5ed5, 0xd807aa98, 0x12835b01],
     [0x243185be, 0x550c7dc3, 0x72be5d74, 0x80deb1fe, 0x9bdc06a7],
     [0xc19bf174, 0xe49b69c1, 0xefbe4786, 0x0fc19dc6, 0x240ca1cc],
     [0x2de92c6f, 0x4a7484aa, 0x5cb0a9dc, 0x76f988da, 0x983e5152],
     [0xa831c66d, 0xb00327c8, 0xbf597fc7, 0xc6e00bf3, 0xd5a79147],
     [0x06ca6351, 0x14292967, 0x27b70a85, 0x2e1b2138, 0x4d2c6dfc],
     [0x53380d13, 0x650a7354, 0x766a0abb, 0x81c2c92e, 0x92722c85],
     [0xa2bfe8a1, 0xa81a664b, 0xc24b8b70, 0xc76c51a3, 0xd192e819],
     [0xd6990624, 0xf40e3585, 0x106aa070, 0x19a4c116, 0x1e376c08],
     [0x2748774c, 0x34b0bcb5, 0x391c0cb3, 0x4ed8aa4a, 0x5b9cca4f],
     [0x682e6ff3, 0x748f82ee, 0x78a5636f, 0x84c87814, 0x8cc70208],
     [0x90befffa, 0xa4506ceb, 0xbef9a3f7, 0xc67178f2]]"

definition rotate_u32 :: "u32 \<Rightarrow> nat \<Rightarrow> u32" where
  "rotate_u32 value count = drop_bit count value OR push_bit (32 - count) value"

definition read_be32 :: "u8 list \<Rightarrow> u32" where
  "read_be32 bytes =
     push_bit 24 (ucast (bytes ! 0)) OR push_bit 16 (ucast (bytes ! 1)) OR
     push_bit 8 (ucast (bytes ! 2)) OR ucast (bytes ! 3)"

definition write_be32 :: "u32 \<Rightarrow> u8 list" where
  "write_be32 value =
     [ucast (drop_bit 24 value), ucast (drop_bit 16 value), ucast (drop_bit 8 value), ucast value]"

fun block_words :: "nat \<Rightarrow> u8 list \<Rightarrow> u32 list" where
  "block_words 0 block = []"
| "block_words (Suc n) block = read_be32 (take 4 block) # block_words n (drop 4 block)"

definition next_word :: "u32 list \<Rightarrow> u32" where
  "next_word words =
     (let i = length words;
          w15 = words ! (i - 15);
          w2 = words ! (i - 2);
          s0 = rotate_u32 w15 7 XOR rotate_u32 w15 18 XOR drop_bit 3 w15;
          s1 = rotate_u32 w2 17 XOR rotate_u32 w2 19 XOR drop_bit 10 w2
      in words ! (i - 16) + s0 + words ! (i - 7) + s1)"

fun extend_words :: "nat \<Rightarrow> u32 list \<Rightarrow> u32 list" where
  "extend_words 0 words = words"
| "extend_words (Suc n) words = extend_words n (words @ [next_word words])"

type_synonym regs = "u32 \<times> u32 \<times> u32 \<times> u32 \<times> u32 \<times> u32 \<times> u32 \<times> u32"

definition sha_round :: "u32 \<times> u32 \<Rightarrow> regs \<Rightarrow> regs" where
  "sha_round kw r =
     (case r of (a, b, c, d, e, f, g, h) \<Rightarrow>
        (let sum1 = rotate_u32 e 6 XOR rotate_u32 e 11 XOR rotate_u32 e 25;
             chosen = (e AND f) XOR (NOT e AND g);
             temp1 = h + sum1 + chosen + fst kw + snd kw;
             sum0 = rotate_u32 a 2 XOR rotate_u32 a 13 XOR rotate_u32 a 22;
             majority = (a AND b) XOR (a AND c) XOR (b AND c);
             temp2 = sum0 + majority
         in (temp1 + temp2, a, b, c, d + temp1, e, f, g)))"

definition add_regs :: "regs \<Rightarrow> regs \<Rightarrow> regs" where
  "add_regs s r =
     (case s of (s0, s1, s2, s3, s4, s5, s6, s7) \<Rightarrow>
      case r of (a, b, c, d, e, f, g, h) \<Rightarrow>
        (s0 + a, s1 + b, s2 + c, s3 + d, s4 + e, s5 + f, s6 + g, s7 + h))"

definition transform :: "regs \<Rightarrow> u8 list \<Rightarrow> regs" where
  "transform st block =
     (let words = extend_words 48 (block_words 16 block)
      in add_regs st (fold sha_round (zip kRound words) st))"


section \<open>The streaming object\<close>

record sha256 =
  sh_state :: regs
  sh_buffer :: "u8 list"
  sh_total :: u64
  sh_buffered :: nat
  sh_finished :: bool

definition sha256_initial :: regs where
  "sha256_initial = (0x6a09e667, 0xbb67ae85, 0x3c6ef372, 0xa54ff53a,
                     0x510e527f, 0x9b05688c, 0x1f83d9ab, 0x5be0cd19)"

definition sha256_new :: sha256 where
  "sha256_new = \<lparr>sh_state = sha256_initial, sh_buffer = replicate 64 0, sh_total = 0,
                 sh_buffered = 0, sh_finished = False\<rparr>"

text \<open>\<^verbatim>\<open>memcpy\<close> and \<^verbatim>\<open>std::fill\<close> into the buffer at an offset.\<close>

definition overwrite :: "nat \<Rightarrow> 'a list \<Rightarrow> 'a list \<Rightarrow> 'a list" where
  "overwrite at src dst = take at dst @ src @ drop (at + length src) dst"

text \<open>One round of the loop of \<^verbatim>\<open>update\<close>: copy \<open>src\<close> in, compress a full buffer.\<close>

definition update_step :: "sha256 \<Rightarrow> u8 list \<Rightarrow> sha256" where
  "update_step st src =
     (let buffer = overwrite (sh_buffered st) src (sh_buffer st);
          buffered = sh_buffered st + length src
      in if buffered = 64
         then st\<lparr>sh_buffer := buffer, sh_state := transform (sh_state st) buffer, sh_buffered := 0\<rparr>
         else st\<lparr>sh_buffer := buffer, sh_buffered := buffered\<rparr>)"

text \<open>
  The object keeps \<open>sh_buffered < 64\<close>; a larger value never occurs (\<open>absorbed\<close> below), and
  the loop is stopped there only to make the model total.
\<close>

function update_loop :: "sha256 \<Rightarrow> u8 list \<Rightarrow> sha256" where
  "update_loop st bytes =
     (if bytes = [] \<or> 64 \<le> sh_buffered st then st
      else
        (let amount = min (64 - sh_buffered st) (length bytes)
         in update_loop (update_step st (take amount bytes)) (drop amount bytes)))"
  by pat_completeness auto
termination
  by (relation "measure (\<lambda>(st, bytes). length bytes)") auto

declare update_loop.simps [simp del]

definition sha256_update :: "sha256 \<Rightarrow> u8 list \<Rightarrow> sha256" where
  "sha256_update st bytes =
     (if sh_finished st then st
      else update_loop (st\<lparr>sh_total := sh_total st + of_nat (length bytes)\<rparr>) bytes)"

definition write_be64 :: "u64 \<Rightarrow> u8 list" where
  "write_be64 v = map (\<lambda>i. ucast (drop_bit (i * 8) v)) (rev [0..<8])"

definition finish_blocks :: "sha256 \<Rightarrow> sha256" where
  "finish_blocks st =
     (let bit_length = sh_total st * 8;
          b1 = overwrite (sh_buffered st) [0x80] (sh_buffer st);
          n1 = sh_buffered st + 1;
          (s2, b2, n2) =
            (if n1 > 56 then
               (let b = overwrite n1 (replicate (64 - n1) 0) b1 in (transform (sh_state st) b, b, 0))
             else (sh_state st, b1, n1));
          b3 = overwrite n2 (replicate (56 - n2) 0) b2;
          b4 = overwrite 56 (write_be64 bit_length) b3
      in st\<lparr>sh_state := transform s2 b4, sh_buffer := b4, sh_buffered := 0, sh_finished := True\<rparr>)"

definition regs_bytes :: "regs \<Rightarrow> u8 list" where
  "regs_bytes r =
     (case r of (a, b, c, d, e, f, g, h) \<Rightarrow>
        write_be32 a @ write_be32 b @ write_be32 c @ write_be32 d @
        write_be32 e @ write_be32 f @ write_be32 g @ write_be32 h)"

definition sha256_finish :: "sha256 \<Rightarrow> u8 list \<times> sha256" where
  "sha256_finish st =
     (let st' = (if sh_finished st then st else finish_blocks st)
      in (regs_bytes (sh_state st'), st'))"


section \<open>Hexadecimal text and the digests of text and files\<close>

definition hex_byte :: "u8 \<Rightarrow> string" where
  "hex_byte b = [''0123456789abcdef'' ! unat (drop_bit 4 b), ''0123456789abcdef'' ! unat (b AND 15)]"

definition hex :: "u8 list \<Rightarrow> string" where
  "hex bytes = concat (map hex_byte bytes)"

definition text_bytes :: "string \<Rightarrow> u8 list" where
  "text_bytes s = map (\<lambda>c. of_nat (code c)) s"

definition sha256_text :: "string \<Rightarrow> string" where
  "sha256_text s = hex (fst (sha256_finish (sha256_update sha256_new (text_bytes s))))"

text \<open>
  \<^verbatim>\<open>sha256_file\<close> with the file system as a parameter: what opening the file and reading
  it to the end gives, as the chunks of the successive \<^verbatim>\<open>read\<close> calls and whether the
  stream ended by reaching the end of the file.
\<close>

datatype file_read = OpenFailed | Chunks "u8 list list" bool

definition sha256_file :: "(string \<Rightarrow> file_read) \<Rightarrow> string \<Rightarrow> string outcome" where
  "sha256_file fs path =
     (case fs path of
        OpenFailed \<Rightarrow> Inl (''cannot open executable for hashing: '' @ path)
      | Chunks cs eof \<Rightarrow>
          (let h = fold (\<lambda>c st. if c = [] then st else sha256_update st c) cs sha256_new
           in if \<not> eof then Inl (''I/O error while hashing executable: '' @ path)
              else Inr (hex (fst (sha256_finish h)))))"


section \<open>The one-shot specification\<close>

text \<open>Fold the compression function over the complete 64-byte blocks of a message.\<close>

function fold_blocks :: "regs \<Rightarrow> u8 list \<Rightarrow> regs" where
  "fold_blocks st msg =
     (if length msg < 64 then st else fold_blocks (transform st (take 64 msg)) (drop 64 msg))"
  by pat_completeness auto
termination
  by (relation "measure (\<lambda>(st, msg). length msg)") auto

declare fold_blocks.simps [simp del]

definition pad_zeros :: "nat \<Rightarrow> nat" where
  "pad_zeros n = (if n mod 64 < 56 then 55 - n mod 64 else 119 - n mod 64)"

definition sha256_pad :: "u8 list \<Rightarrow> u8 list" where
  "sha256_pad msg =
     msg @ [0x80] @ replicate (pad_zeros (length msg)) 0 @ write_be64 (of_nat (8 * length msg))"

definition sha256_spec :: "u8 list \<Rightarrow> u8 list" where
  "sha256_spec msg = regs_bytes (fold_blocks sha256_initial (sha256_pad msg))"

lemma fold_blocks_short [simp]: "length msg < 64 \<Longrightarrow> fold_blocks st msg = st"
  by (simp add: fold_blocks.simps)

lemma fold_blocks_append:
  "64 dvd length p \<Longrightarrow> fold_blocks st (p @ q) = fold_blocks (fold_blocks st p) q"
proof (induction st p rule: fold_blocks.induct)
  case (1 st p)
  show ?case
  proof (cases "length p < 64")
    case True
    with "1.prems" have "p = []" by (auto elim: dvdE)
    then show ?thesis by simp
  next
    case False
    moreover have "64 dvd length (drop 64 p)"
      using "1.prems" by (simp add: dvd_diff_nat)
    ultimately show ?thesis
      using "1.IH" by (simp add: fold_blocks.simps [of st "p @ q"] fold_blocks.simps [of st p])
  qed
qed

lemma fold_blocks_one: "length b = 64 \<Longrightarrow> fold_blocks st b = transform st b"
  by (simp add: fold_blocks.simps)

lemma length_write_be64 [simp]: "length (write_be64 v) = 8"
  by (simp add: write_be64_def)

lemma length_overwrite [simp]:
  "at + length src \<le> length dst \<Longrightarrow> length (overwrite at src dst) = length dst"
  by (simp add: overwrite_def)

lemma take_overwrite:
  "at \<le> length dst \<Longrightarrow> take (at + length src) (overwrite at src dst) = take at dst @ src"
  by (simp add: overwrite_def)


section \<open>The object absorbs the message\<close>

definition absorbed :: "sha256 \<Rightarrow> u8 list \<Rightarrow> bool" where
  "absorbed st msg \<longleftrightarrow>
     \<not> sh_finished st \<and> length (sh_buffer st) = 64 \<and> sh_buffered st < 64 \<and>
     sh_total st = of_nat (length msg) \<and>
     (\<exists>p. 64 dvd length p \<and> msg = p @ take (sh_buffered st) (sh_buffer st) \<and>
          sh_state st = fold_blocks sha256_initial p)"

lemma absorbed_new: "absorbed sha256_new []"
  by (auto simp: absorbed_def sha256_new_def intro: exI [of _ "[]"])

text \<open>One round of the loop, without the byte counter, which is advanced before it.\<close>

definition holds :: "sha256 \<Rightarrow> u8 list \<Rightarrow> bool" where
  "holds st msg \<longleftrightarrow>
     length (sh_buffer st) = 64 \<and> sh_buffered st < 64 \<and>
     (\<exists>p. 64 dvd length p \<and> msg = p @ take (sh_buffered st) (sh_buffer st) \<and>
          sh_state st = fold_blocks sha256_initial p)"

lemma absorbed_holds:
  "absorbed st msg \<longleftrightarrow> \<not> sh_finished st \<and> sh_total st = of_nat (length msg) \<and> holds st msg"
  by (auto simp: absorbed_def holds_def)

lemma holds_step:
  assumes "holds st msg" and "sh_buffered st + length src \<le> 64"
  shows "holds (update_step st src) (msg @ src)"
proof -
  obtain p where p: "64 dvd length p" "msg = p @ take (sh_buffered st) (sh_buffer st)"
    "sh_state st = fold_blocks sha256_initial p"
    and len: "length (sh_buffer st) = 64" "sh_buffered st < 64"
    using assms(1) by (auto simp: holds_def)
  define buffer where "buffer = overwrite (sh_buffered st) src (sh_buffer st)"
  have buf: "length buffer = 64"
    "take (sh_buffered st + length src) buffer = take (sh_buffered st) (sh_buffer st) @ src"
    using assms(2) len by (simp_all add: buffer_def take_overwrite)
  show ?thesis
  proof (cases "sh_buffered st + length src = 64")
    case True
    then have msg: "msg @ src = p @ buffer"
      using buf p(2) by simp
    moreover have "transform (sh_state st) buffer = fold_blocks sha256_initial (p @ buffer)"
      using p(1,3) buf(1) by (simp add: fold_blocks_append fold_blocks_one)
    ultimately show ?thesis
      using True p(1) buf(1) by (simp add: holds_def update_step_def flip: buffer_def)
  next
    case False
    then show ?thesis
      using p buf assms(2) by (auto simp: holds_def update_step_def simp flip: buffer_def)
  qed
qed

lemma update_loop_holds: "holds st msg \<Longrightarrow> holds (update_loop st bytes) (msg @ bytes)"
proof (induction st bytes arbitrary: msg rule: update_loop.induct)
  case (1 st bytes)
  show ?case
  proof (cases "bytes = []")
    case False
    let ?n = "min (64 - sh_buffered st) (length bytes)"
    have less: "\<not> 64 \<le> sh_buffered st" using "1.prems" by (simp add: holds_def)
    have "holds (update_step st (take ?n bytes)) (msg @ take ?n bytes)"
      using "1.prems" less by (intro holds_step) auto
    then have "holds (update_loop (update_step st (take ?n bytes)) (drop ?n bytes))
        ((msg @ take ?n bytes) @ drop ?n bytes)"
      using "1.IH" False less by blast
    then show ?thesis
      using False less by (simp only: append_assoc append_take_drop_id)
        (simp add: update_loop.simps [of st bytes] Let_def)
  qed (use "1.prems" in \<open>simp add: update_loop.simps\<close>)
qed

lemma update_loop_frame:
  "sh_finished (update_loop st bytes) = sh_finished st \<and> sh_total (update_loop st bytes) = sh_total st"
proof (induction st bytes rule: update_loop.induct)
  case (1 st bytes)
  have "sh_finished (update_step st src) = sh_finished st \<and> sh_total (update_step st src) = sh_total st"
    for src by (simp add: update_step_def Let_def)
  with 1 show ?case
    by (cases "bytes = [] \<or> 64 \<le> sh_buffered st") (simp_all add: update_loop.simps [of st bytes] Let_def)
qed

lemma update_absorbs:
  assumes "absorbed st msg"
  shows "absorbed (sha256_update st bytes) (msg @ bytes)"
proof -
  let ?st = "st\<lparr>sh_total := sh_total st + of_nat (length bytes)\<rparr>"
  have "holds ?st msg" using assms by (simp add: absorbed_holds holds_def)
  then have "holds (update_loop ?st bytes) (msg @ bytes)" by (rule update_loop_holds)
  then show ?thesis
    using assms update_loop_frame [of ?st bytes] by (simp add: absorbed_holds sha256_update_def)
qed

lemma updates_absorb:
  "absorbed st msg \<Longrightarrow> absorbed (fold (\<lambda>c st. sha256_update st c) cs st) (msg @ concat cs)"
proof (induction cs arbitrary: st msg)
  case (Cons c cs)
  then show ?case
    using Cons.IH [OF update_absorbs [OF Cons.prems], of c] by simp
qed simp


section \<open>Finishing pads as the specification does\<close>

lemma finish_blocks_spec:
  assumes "absorbed st msg"
  shows "sh_state (finish_blocks st) = fold_blocks sha256_initial (sha256_pad msg)"
proof -
  define t where "t = take (sh_buffered st) (sh_buffer st)"
  define len8 where "len8 = write_be64 (of_nat (8 * length msg))"
  obtain p where p: "64 dvd length p" "msg = p @ t" "sh_state st = fold_blocks sha256_initial p"
    and buf: "length (sh_buffer st) = 64" "sh_buffered st < 64"
    using assms by (auto simp: absorbed_def t_def)
  have lt: "length t = sh_buffered st" "length t < 64"
    using buf by (simp_all add: t_def)
  have msg_mod: "length msg mod 64 = length t"
    using p(1,2) lt by (auto elim!: dvdE simp: mod_mult_self4)
  have l8: "write_be64 (sh_total st * 8) = len8"
    using assms by (simp add: absorbed_def len8_def mult.commute)
  show ?thesis
  proof (cases "sh_buffered st + 1 > 56")
    case False
    let ?b = "t @ [0x80] @ replicate (55 - length t) 0 @ len8"
    have "overwrite 56 len8 (overwrite (sh_buffered st + 1) (replicate (56 - (sh_buffered st + 1)) 0)
        (overwrite (sh_buffered st) [0x80] (sh_buffer st))) = ?b"
      using False buf lt by (simp add: overwrite_def t_def len8_def Suc_diff_le [of _ 55, simplified])
    then have "sh_state (finish_blocks st) = transform (sh_state st) ?b"
      using False by (simp add: finish_blocks_def Let_def l8)
    moreover have "pad_zeros (length msg) = 55 - length t"
      using False lt by (simp add: pad_zeros_def msg_mod)
    then have "sha256_pad msg = msg @ [0x80] @ replicate (55 - length t) 0 @ len8"
      by (simp only: sha256_pad_def len8_def)
    then have "sha256_pad msg = p @ ?b" by (simp add: p(2))
    ultimately show ?thesis
      using False lt p by (simp add: fold_blocks_append fold_blocks_one len8_def)
  next
    case True
    let ?b = "t @ [0x80] @ replicate (63 - length t) 0"
    let ?c = "replicate 56 0 @ len8"
    have "overwrite (sh_buffered st + 1) (replicate (64 - (sh_buffered st + 1)) 0)
        (overwrite (sh_buffered st) [0x80] (sh_buffer st)) = ?b"
      using True buf lt by (simp add: overwrite_def t_def)
    moreover have "overwrite 56 len8 (overwrite 0 (replicate (56 - 0) 0) ?b) = ?c"
      using True lt by (simp add: overwrite_def len8_def)
    ultimately have "sh_state (finish_blocks st) = transform (transform (sh_state st) ?b) ?c"
      using True by (simp add: finish_blocks_def Let_def l8)
    moreover have "pad_zeros (length msg) = (63 - length t) + 56"
      using True lt by (simp add: pad_zeros_def msg_mod)
    then have "sha256_pad msg = msg @ [0x80] @ replicate (63 - length t) 0 @ ?c"
      by (simp only: sha256_pad_def len8_def replicate_add append_assoc)
    then have "sha256_pad msg = p @ ?b @ ?c" by (simp add: p(2))
    moreover have "fold_blocks r (?b @ ?c) = transform (transform r ?b) ?c" for r
      using True lt by (subst fold_blocks_append) (simp_all add: fold_blocks_one len8_def)
    ultimately show ?thesis
      using p(1,3) by (simp only: fold_blocks_append)
  qed
qed

lemma finish_state:
  assumes "absorbed st msg"
  shows "fst (sha256_finish st) = sha256_spec msg"
  using assms finish_blocks_spec [OF assms]
  by (simp add: sha256_finish_def sha256_spec_def absorbed_def Let_def)

lemma finish_sets_finished: "sh_finished (snd (sha256_finish st))"
  by (simp add: sha256_finish_def finish_blocks_def Let_def case_prod_beta)

lemma update_finished: "sh_finished st \<Longrightarrow> sha256_update st bytes = st"
  by (simp add: sha256_update_def)

lemma finish_finished: "sh_finished st \<Longrightarrow> sha256_finish st = (regs_bytes (sh_state st), st)"
  by (simp add: sha256_finish_def)

lemma updates_finished: "sh_finished st \<Longrightarrow> fold (\<lambda>c st. sha256_update st c) cs st = st"
  by (induction cs) (simp_all add: update_finished)

lemma length_regs_bytes [simp]: "length (regs_bytes r) = 32"
  by (simp add: regs_bytes_def write_be32_def split: prod.split)

lemma length_hex [simp]: "length (hex bytes) = 2 * length bytes"
  by (induction bytes) (simp_all add: hex_def hex_byte_def)

lemma update_nil: "absorbed st msg \<Longrightarrow> sha256_update st [] = st"
  by (simp add: sha256_update_def update_loop.simps absorbed_def)

lemma file_chunks_absorb:
  "absorbed st msg \<Longrightarrow>
   absorbed (fold (\<lambda>c st. if c = [] then st else sha256_update st c) cs st) (msg @ concat cs)"
proof (induction cs arbitrary: st msg)
  case (Cons c cs)
  then show ?case
    using Cons.IH [OF update_absorbs [OF Cons.prems], of c] by (cases "c = []") auto
qed simp


section \<open>Properties\<close>

text \<open>C20: However a message is cut into chunks, feeding the chunks to \<^verbatim>\<open>update\<close> and calling
  \<^verbatim>\<open>finish\<close> gives the digest of the whole message as the one-shot definition computes it:
  pad, then fold the compression function over the 64-byte blocks.\<close>

theorem sha256_streaming:
  "fst (sha256_finish (fold (\<lambda>c st. sha256_update st c) chunks sha256_new)) = sha256_spec (concat chunks)"
  using finish_state [OF updates_absorb [OF absorbed_new]] by simp

text \<open>A finished hash object is frozen: further updates and further calls of \<^verbatim>\<open>finish\<close>
  change neither the object nor the digest.\<close>

theorem sha256_finish_idempotent:
  "sha256_finish (fold (\<lambda>c s. sha256_update s c) chunks (snd (sha256_finish st))) = sha256_finish st"
proof -
  let ?st = "snd (sha256_finish st)"
  have "sh_finished ?st" by (rule finish_sets_finished)
  moreover have "sha256_finish st = (regs_bytes (sh_state ?st), ?st)"
    by (simp add: sha256_finish_def Let_def)
  ultimately show ?thesis
    by (simp add: updates_finished finish_finished)
qed

text \<open>Hashing a file reads it to the end or reports an error: the digest it returns is that
  of the file's whole contents as 64 hexadecimal digits, independent of how the reads were cut,
  and an unopenable file or a read that stopped before the end gives an error.\<close>

theorem sha256_file_correct:
  "sha256_file fs path =
     (case fs path of
        OpenFailed \<Rightarrow> Inl (''cannot open executable for hashing: '' @ path)
      | Chunks cs eof \<Rightarrow>
          if eof then Inr (hex (sha256_spec (concat cs)))
          else Inl (''I/O error while hashing executable: '' @ path)) \<and>
   (case sha256_file fs path of Inl e \<Rightarrow> True | Inr d \<Rightarrow> length d = 64)"
  using finish_state [OF file_chunks_absorb [OF absorbed_new]]
  by (auto simp: sha256_file_def sha256_spec_def Let_def split: file_read.splits)

end
