(* ===== verification/Palmod_Build_Profile.thy ===== *)
theory Palmod_Build_Profile
  imports Palmod_Json Palmod_Sha256
begin

text \<open>
  The build profile (\<^verbatim>\<open>native/src/build_profile.cpp\<close>): the JSON document that names the one
  server executable a profile was made for and the addresses and offsets palmod may use in it.
  \<open>parse_json\<close> is split along the document's sections; each section returns the profile with its
  fields filled in or the error the code returns.  Where the code evaluates several
  \<^verbatim>\<open>require_string\<close> calls before it tests them, the last failing one has set the message.
\<close>

section \<open>Data\<close>

record hook_profile =
  hp_name :: string
  hp_rva :: u64
  hp_expected_bytes :: string

record build_fingerprint =
  fp_executable :: string
  fp_sha256 :: string
  fp_elf_build_id :: string
  fp_size :: u64

record build_profile =
  bp_schema :: u32
  bp_profile_id :: string
  bp_status :: string
  bp_steam_build_id :: string
  bp_sha256 :: string
  bp_elf_build_id :: string
  bp_elf_type :: string
  bp_image_base :: u64
  bp_executable_size :: u64
  bp_hooks :: "(string, hook_profile) smap"
  bp_func_offset :: u64
  bp_vtable_va :: u64
  bp_fframe_locals_offset :: u64
  bp_fname_pool_blocks_va :: u64
  bp_guobjectarray_objects_va :: u64
  bp_super_struct_offset :: u64
  bp_gengine_global_va :: u64
  bp_engine_tick_vtable_slot :: u64
  bp_process_event_slot :: u64
  bp_admin_controller_class :: string
  bp_admin_player_state_offset :: u64
  bp_admin_player_uid_offset :: u64
  bp_admin_badmin_offset :: u64
  bp_admin_sender_uid_offset :: u64
  bp_chat_broadcast_thunk_rva :: u64
  bp_chat_fframe_locals_offset :: u64
  bp_chat_sender_offset :: u64
  bp_chat_text_offset :: u64

definition profile_new :: build_profile where
  "profile_new =
     \<lparr>bp_schema = 0, bp_profile_id = [], bp_status = [], bp_steam_build_id = [], bp_sha256 = [],
      bp_elf_build_id = [], bp_elf_type = [], bp_image_base = 0, bp_executable_size = 0, bp_hooks = [],
      bp_func_offset = 0, bp_vtable_va = 0, bp_fframe_locals_offset = 0x18, bp_fname_pool_blocks_va = 0,
      bp_guobjectarray_objects_va = 0, bp_super_struct_offset = 0, bp_gengine_global_va = 0,
      bp_engine_tick_vtable_slot = 0, bp_process_event_slot = 0, bp_admin_controller_class = [],
      bp_admin_player_state_offset = 0, bp_admin_player_uid_offset = 0, bp_admin_badmin_offset = 0,
      bp_admin_sender_uid_offset = 0, bp_chat_broadcast_thunk_rva = 0, bp_chat_fframe_locals_offset = 0,
      bp_chat_sender_offset = 0, bp_chat_text_offset = 0\<rparr>"

definition has_reflection :: "build_profile \<Rightarrow> bool" where
  "has_reflection p \<longleftrightarrow> bp_func_offset p \<noteq> 0 \<and> bp_vtable_va p \<noteq> 0"

definition has_chat_hook :: "build_profile \<Rightarrow> bool" where
  "has_chat_hook p \<longleftrightarrow> has_reflection p \<and> bp_chat_broadcast_thunk_rva p \<noteq> 0"


section \<open>Fields\<close>

definition require_string :: "json_obj \<Rightarrow> string \<Rightarrow> string outcome" where
  "require_string obj key =
     (case json_get obj key of
        Some (JString s) \<Rightarrow>
          if s = [] then Inl (''profile field '' @ tick key @ '' must be a non-empty string'') else Inr s
      | _ \<Rightarrow> Inl (''profile field '' @ tick key @ '' must be a non-empty string''))"

definition unsigned_text :: "string \<Rightarrow> u64 option" where
  "unsigned_text tok =
     (if take 2 tok = ''0x'' \<or> take 2 tok = ''0X'' then from_chars_u64 16 (drop 2 tok)
      else from_chars_u64 10 tok)"

fun unsigned_value :: "json \<Rightarrow> u64 option" where
  "unsigned_value (JInt i) = (if 0 \<le> i then Some (of_int i) else None)"
| "unsigned_value (JString tok) = unsigned_text tok"
| "unsigned_value _ = None"

definition require_exact_string :: "json_obj \<Rightarrow> string \<Rightarrow> string \<Rightarrow> unit outcome" where
  "require_exact_string obj key expected =
     ok_then (require_string obj key) (\<lambda>v.
       if v \<noteq> expected then Inl (''profile field '' @ tick key @ '' must equal '' @ tick expected)
       else Inr ())"

text \<open>Three required strings, evaluated left to right before any is tested.\<close>

definition require3 :: "json_obj \<Rightarrow> string \<Rightarrow> string \<Rightarrow> string \<Rightarrow> (string \<times> string \<times> string) outcome" where
  "require3 obj k1 k2 k3 =
     ok_then (require_string obj k3) (\<lambda>v3.
       ok_then (require_string obj k2) (\<lambda>v2.
         ok_then (require_string obj k1) (\<lambda>v1. Inr (v1, v2, v3))))"

definition get_object :: "json_obj \<Rightarrow> string \<Rightarrow> json_obj option" where
  "get_object obj key = (case json_get obj key of None \<Rightarrow> None | Some v \<Rightarrow> json_object v)"

definition is_int :: "json_obj \<Rightarrow> string \<Rightarrow> int \<Rightarrow> bool" where
  "is_int obj key n \<longleftrightarrow> json_get obj key = Some (JInt n)"

definition get_unsigned :: "json_obj \<Rightarrow> string \<Rightarrow> u64 option" where
  "get_unsigned obj key = (case json_get obj key of None \<Rightarrow> None | Some v \<Rightarrow> unsigned_value v)"

definition has_key :: "json_obj \<Rightarrow> string \<Rightarrow> bool" where
  "has_key obj key \<longleftrightarrow> json_get obj key \<noteq> None"


section \<open>Sections of the document\<close>

definition profile_elf :: "json_obj \<Rightarrow> build_profile \<Rightarrow> build_profile outcome" where
  "profile_elf elf p =
     ok_then (require3 elf ''sha256'' ''build_id'' ''elf_type'') (\<lambda>(sha, build_id, elf_type).
     ok_then (require_exact_string elf ''machine'' ''x86_64'') (\<lambda>_.
     ok_then (require_exact_string elf ''endian'' ''little'') (\<lambda>_.
       if \<not> is_int elf ''bits'' 64 \<or> \<not> has_key elf ''image_base'' \<or> \<not> has_key elf ''file_size''
       then Inl ''profile elf bits/image_base/file_size are missing or malformed''
       else (case (get_unsigned elf ''image_base'', get_unsigned elf ''file_size'') of
               (Some base, Some sz) \<Rightarrow>
                 if elf_type \<noteq> ''ET_EXEC'' then Inl ''only ET_EXEC server profiles are supported''
                 else if length (lower sha) \<noteq> 64 \<or> lower build_id = []
                 then Inl ''profile has malformed SHA-256 or ELF build-id''
                 else Inr (p\<lparr>bp_sha256 := lower sha, bp_elf_build_id := lower build_id,
                             bp_elf_type := elf_type, bp_image_base := base, bp_executable_size := sz\<rparr>)
             | _ \<Rightarrow> Inl ''profile elf image_base/file_size must be unsigned integers''))))"

definition profile_anchor :: "string \<Rightarrow> json \<Rightarrow> hook_profile outcome" where
  "profile_anchor name v =
     (case json_object v of
        None \<Rightarrow> Inl (''anchor '' @ tick name @ '' must be an object'')
      | Some anchor \<Rightarrow>
          ok_then (require_string anchor ''expected_bytes'') (\<lambda>expected.
            (case (json_get anchor ''rva'', json_get anchor ''validators'') of
               (Some rva, Some (JArray validators)) \<Rightarrow>
                 (case unsigned_value rva of
                    None \<Rightarrow> Inl (''anchor '' @ tick name @ '' has invalid rva/expected_bytes'')
                  | Some r \<Rightarrow>
                      if list_all (\<lambda>w. json_string w \<noteq> None) validators
                      then Inr \<lparr>hp_name = name, hp_rva = r, hp_expected_bytes = expected\<rparr>
                      else Inl (''anchor '' @ tick name @ '' validators must be strings''))
             | _ \<Rightarrow> Inl (''anchor '' @ tick name @ '' is missing critical fields''))))"

fun profile_anchors :: "(string \<times> json) list \<Rightarrow> (string, hook_profile) smap \<Rightarrow> (string, hook_profile) smap outcome" where
  "profile_anchors [] hooks = Inr hooks"
| "profile_anchors ((name, v) # rest) hooks =
     ok_then (profile_anchor name v) (\<lambda>h. profile_anchors rest (fst (smap_emplace name h hooks)))"

definition reflection_chat :: "json_obj \<Rightarrow> build_profile \<Rightarrow> build_profile outcome" where
  "reflection_chat rf p =
     (case json_get rf ''chat'' of
        None \<Rightarrow> Inr p
      | Some v \<Rightarrow>
          (case json_object v of
             None \<Rightarrow> Inl ''reflection.chat must be an object''
           | Some chat \<Rightarrow>
               if \<not> (has_key chat ''broadcast_thunk_rva'' \<and> has_key chat ''fframe_locals_offset'' \<and>
                    has_key chat ''message_sender_offset'' \<and> has_key chat ''message_text_offset'')
               then Inl ''reflection.chat requires broadcast_thunk_rva and the offsets''
               else (case (get_unsigned chat ''broadcast_thunk_rva'', get_unsigned chat ''fframe_locals_offset'',
                           get_unsigned chat ''message_sender_offset'', get_unsigned chat ''message_text_offset'') of
                       (Some thunk, Some locals, Some sender, Some txt) \<Rightarrow>
                         if thunk = 0 then Inl ''reflection.chat offsets must be unsigned integers''
                         else Inr (p\<lparr>bp_chat_broadcast_thunk_rva := thunk, bp_chat_fframe_locals_offset := locals,
                                     bp_chat_sender_offset := sender, bp_chat_text_offset := txt\<rparr>)
                     | _ \<Rightarrow> Inl ''reflection.chat offsets must be unsigned integers'')))"

text \<open>An optional unsigned field with a range test.\<close>

definition optional_fact ::
  "json_obj \<Rightarrow> string \<Rightarrow> (u64 \<Rightarrow> bool) \<Rightarrow> string \<Rightarrow> (u64 \<Rightarrow> build_profile \<Rightarrow> build_profile) \<Rightarrow>
   build_profile \<Rightarrow> build_profile outcome" where
  "optional_fact rf key ok msg upd p =
     (case json_get rf key of
        None \<Rightarrow> Inr p
      | Some v \<Rightarrow>
          (case unsigned_value v of
             None \<Rightarrow> Inl msg
           | Some n \<Rightarrow> if ok n then Inr (upd n p) else Inl msg))"

definition reflection_engine_tick :: "json_obj \<Rightarrow> build_profile \<Rightarrow> build_profile outcome" where
  "reflection_engine_tick rf p =
     (case json_get rf ''engine_tick'' of
        None \<Rightarrow> Inr p
      | Some v \<Rightarrow>
          (case json_object v of
             None \<Rightarrow> Inl ''reflection.engine_tick must be an object''
           | Some tck \<Rightarrow>
               if \<not> (has_key tck ''gengine_global_va'' \<and> has_key tck ''tick_vtable_slot'')
               then Inl ''reflection.engine_tick requires gengine_global_va and tick_vtable_slot''
               else (case (get_unsigned tck ''gengine_global_va'', get_unsigned tck ''tick_vtable_slot'') of
                       (Some gengine, Some slot) \<Rightarrow>
                         if gengine = 0 \<or> 0x1000 < slot
                         then Inl ''reflection.engine_tick values are out of the expected range''
                         else Inr (p\<lparr>bp_gengine_global_va := gengine, bp_engine_tick_vtable_slot := slot\<rparr>)
                     | _ \<Rightarrow> Inl ''reflection.engine_tick values are out of the expected range'')))"

definition reflection_admin :: "json_obj \<Rightarrow> build_profile \<Rightarrow> build_profile outcome" where
  "reflection_admin rf p =
     (case json_get rf ''admin'' of
        None \<Rightarrow> Inr p
      | Some v \<Rightarrow>
          (case json_object v of
             None \<Rightarrow> Inl ''reflection.admin must be an object''
           | Some admin \<Rightarrow>
               (case require_string admin ''controller_class'' of
                  Inl _ \<Rightarrow> Inl ''reflection.admin requires controller_class + the four offsets''
                | Inr klass \<Rightarrow>
                    if \<not> (has_key admin ''player_state_offset'' \<and> has_key admin ''player_uid_offset'' \<and>
                         has_key admin ''badmin_offset'' \<and> has_key admin ''sender_player_uid_offset'')
                    then Inl ''reflection.admin requires controller_class + the four offsets''
                    else (case (get_unsigned admin ''player_state_offset'', get_unsigned admin ''player_uid_offset'',
                                get_unsigned admin ''badmin_offset'', get_unsigned admin ''sender_player_uid_offset'') of
                            (Some ps, Some uid, Some badmin, Some sender) \<Rightarrow>
                              if badmin = 0 then Inl ''reflection.admin offsets must be valid unsigned integers''
                              else Inr (p\<lparr>bp_admin_controller_class := klass, bp_admin_player_state_offset := ps,
                                          bp_admin_player_uid_offset := uid, bp_admin_badmin_offset := badmin,
                                          bp_admin_sender_uid_offset := sender\<rparr>)
                          | _ \<Rightarrow> Inl ''reflection.admin offsets must be valid unsigned integers''))))"

definition reflection_head :: "json_obj \<Rightarrow> build_profile \<Rightarrow> build_profile outcome" where
  "reflection_head rf p =
     (if \<not> (has_key rf ''ufunction_func_offset'' \<and> has_key rf ''ufunction_vtable_va'')
      then Inl ''reflection requires ufunction_func_offset and ufunction_vtable_va''
      else (case (get_unsigned rf ''ufunction_func_offset'', get_unsigned rf ''ufunction_vtable_va'') of
              (Some off, Some vt) \<Rightarrow>
                if off = 0 \<or> 0x1000 < off \<or> vt = 0
                then Inl ''reflection facts are out of the expected range''
                else Inr (p\<lparr>bp_func_offset := off, bp_vtable_va := vt\<rparr>)
            | _ \<Rightarrow> Inl ''reflection facts are out of the expected range''))"

definition reflection_facts :: "json_obj \<Rightarrow> build_profile \<Rightarrow> build_profile outcome" where
  "reflection_facts rf p =
     ok_then (optional_fact rf ''fframe_locals_offset'' (\<lambda>n. n \<le> 0x1000)
       ''reflection.fframe_locals_offset must be a small unsigned integer'' (\<lambda>n q. q\<lparr>bp_fframe_locals_offset := n\<rparr>) p) (\<lambda>p1.
     ok_then (optional_fact rf ''fname_pool_blocks_va'' (\<lambda>n. n \<noteq> 0)
       ''reflection.fname_pool_blocks_va must be a nonzero unsigned integer'' (\<lambda>n q. q\<lparr>bp_fname_pool_blocks_va := n\<rparr>) p1) (\<lambda>p2.
     ok_then (optional_fact rf ''process_event_vtable_slot'' (\<lambda>n. n \<le> 0x1000)
       ''reflection.process_event_vtable_slot must be a small unsigned integer'' (\<lambda>n q. q\<lparr>bp_process_event_slot := n\<rparr>) p2) (\<lambda>p3.
     ok_then (optional_fact rf ''guobjectarray_objects_va'' (\<lambda>n. n \<noteq> 0)
       ''reflection.guobjectarray_objects_va must be a nonzero unsigned integer'' (\<lambda>n q. q\<lparr>bp_guobjectarray_objects_va := n\<rparr>) p3)
       (optional_fact rf ''super_struct_offset'' (\<lambda>n. n \<le> 0x1000)
         ''reflection.super_struct_offset must be a small unsigned integer'' (\<lambda>n q. q\<lparr>bp_super_struct_offset := n\<rparr>)))))"

definition profile_reflection :: "json_obj \<Rightarrow> build_profile \<Rightarrow> build_profile outcome" where
  "profile_reflection root p =
     (case json_get root ''reflection'' of
        None \<Rightarrow> Inr p
      | Some v \<Rightarrow>
          (case json_object v of
             None \<Rightarrow> Inl ''profile reflection must be an object''
           | Some rf \<Rightarrow>
               ok_then (reflection_head rf p) (\<lambda>p1.
               ok_then (reflection_chat rf p1) (\<lambda>p2.
               ok_then (reflection_facts rf p2) (\<lambda>p3.
               ok_then (reflection_engine_tick rf p3) (reflection_admin rf))))))"

definition profile_of_object :: "json_obj \<Rightarrow> build_profile outcome" where
  "profile_of_object root =
     (if \<not> is_int root ''schema'' 1 then Inl ''profile schema must be 1''
      else ok_then (require3 root ''status'' ''profile_id'' ''steam_build_id'') (\<lambda>(status, pid, steam).
        (case get_object root ''elf'' of
           None \<Rightarrow> Inl ''profile elf field must be an object''
         | Some elf \<Rightarrow>
             ok_then (profile_elf elf (profile_new\<lparr>bp_schema := 1, bp_status := status, bp_profile_id := pid,
               bp_steam_build_id := steam\<rparr>)) (\<lambda>p1.
               (case get_object root ''anchors'' of
                  None \<Rightarrow> Inl ''validated profile must contain at least one anchor''
                | Some anchors \<Rightarrow>
                    if anchors = [] then Inl ''validated profile must contain at least one anchor''
                    else ok_then (profile_anchors anchors []) (\<lambda>hooks.
                           profile_reflection root (p1\<lparr>bp_hooks := hooks\<rparr>)))))))"

definition parse_json :: "string \<Rightarrow> build_profile outcome" where
  "parse_json text =
     (case parse text of
        Inl e \<Rightarrow> Inl (''invalid profile JSON: '' @ e)
      | Inr v \<Rightarrow>
          (case json_object v of
             None \<Rightarrow> Inl ''profile root must be an object''
           | Some root \<Rightarrow> profile_of_object root))"

definition exactly_matches :: "build_profile \<Rightarrow> build_fingerprint \<Rightarrow> unit outcome" where
  "exactly_matches p actual =
     (if bp_status p \<noteq> ''validated'' then Inl (''profile is not validated (status='' @ bp_status p @ '')'')
      else if bp_sha256 p \<noteq> lower (fp_sha256 actual) then Inl ''executable SHA-256 mismatch''
      else if bp_elf_build_id p \<noteq> lower (fp_elf_build_id actual) then Inl ''ELF build-id mismatch''
      else if bp_executable_size p \<noteq> fp_size actual then Inl ''executable size mismatch''
      else Inr ())"

section \<open>What an accepted profile satisfies\<close>

definition profile_core :: "build_profile \<Rightarrow> bool" where
  "profile_core p \<longleftrightarrow>
     bp_schema p = 1 \<and> bp_status p \<noteq> [] \<and> bp_profile_id p \<noteq> [] \<and> bp_steam_build_id p \<noteq> [] \<and>
     length (bp_sha256 p) = 64 \<and> lower (bp_sha256 p) = bp_sha256 p \<and>
     bp_elf_build_id p \<noteq> [] \<and> lower (bp_elf_build_id p) = bp_elf_build_id p \<and>
     bp_elf_type p = ''ET_EXEC'' \<and>
     bp_hooks p \<noteq> [] \<and> smap_inv (bp_hooks p) \<and>
     (\<forall>(name, h) \<in> set (bp_hooks p). hp_name h = name \<and> hp_expected_bytes h \<noteq> [])"

definition profile_ranges :: "build_profile \<Rightarrow> bool" where
  "profile_ranges p \<longleftrightarrow>
     bp_func_offset p \<le> 0x1000 \<and> bp_fframe_locals_offset p \<le> 0x1000 \<and>
     bp_super_struct_offset p \<le> 0x1000 \<and> bp_process_event_slot p \<le> 0x1000 \<and>
     bp_engine_tick_vtable_slot p \<le> 0x1000 \<and>
     (bp_func_offset p = 0 \<longleftrightarrow> bp_vtable_va p = 0) \<and>
     (bp_engine_tick_vtable_slot p \<noteq> 0 \<longrightarrow> bp_gengine_global_va p \<noteq> 0) \<and>
     (bp_admin_controller_class p = [] \<longleftrightarrow> bp_admin_badmin_offset p = 0)"

definition profile_wf :: "build_profile \<Rightarrow> bool" where
  "profile_wf p \<longleftrightarrow> profile_core p \<and> profile_ranges p \<and>
     (bp_chat_broadcast_thunk_rva p \<noteq> 0 \<longrightarrow> has_chat_hook p)"

lemma require_string_nonempty: "require_string obj key = Inr s \<Longrightarrow> s \<noteq> []"
  by (auto simp: require_string_def split: option.splits json.splits if_splits)

lemma require3_nonempty: "require3 obj k1 k2 k3 = Inr (a, b, c) \<Longrightarrow> a \<noteq> [] \<and> b \<noteq> [] \<and> c \<noteq> []"
  by (auto simp: require3_def dest: require_string_nonempty)

text \<open>Each section of the reflection object leaves the rest of the profile alone.\<close>

definition keeps :: "build_profile \<Rightarrow> build_profile \<Rightarrow> bool" where
  "keeps p q \<longleftrightarrow> (profile_core p \<longrightarrow> profile_core q) \<and> (profile_ranges p \<longrightarrow> profile_ranges q) \<and>
     (has_reflection p \<longrightarrow> has_reflection q)"

lemmas keeps_defs = keeps_def profile_core_def profile_ranges_def has_reflection_def

lemma keeps_refl: "keeps p p"
  by (simp add: keeps_def)

lemma keeps_trans: "keeps p q \<Longrightarrow> keeps q r \<Longrightarrow> keeps p r"
  by (simp add: keeps_def)

lemma reflection_head_cases:
  "reflection_head rf p = Inr q \<Longrightarrow> \<exists>off vt. off \<noteq> 0 \<and> off \<le> 0x1000 \<and> vt \<noteq> 0 \<and>
     q = p\<lparr>bp_func_offset := off, bp_vtable_va := vt\<rparr>"
  by (cases "get_unsigned rf ''ufunction_func_offset''"; cases "get_unsigned rf ''ufunction_vtable_va''")
    (auto simp: reflection_head_def split: if_split_asm)

lemma reflection_head_ok: "reflection_head rf p = Inr q \<Longrightarrow> keeps p q \<and> has_reflection q"
  by (drule reflection_head_cases) (auto simp: keeps_defs)

lemma reflection_chat_cases:
  assumes "reflection_chat rf p = Inr q"
  shows "q = p \<or> (\<exists>a b c d. q = p\<lparr>bp_chat_broadcast_thunk_rva := a, bp_chat_fframe_locals_offset := b,
    bp_chat_sender_offset := c, bp_chat_text_offset := d\<rparr>)"
proof (cases "json_get rf ''chat''")
  case (Some v)
  then obtain chat where "json_object v = Some chat"
    using assms by (auto simp: reflection_chat_def split: option.split_asm)
  with Some assms show ?thesis
    by (auto simp: reflection_chat_def split: option.split_asm if_split_asm)
qed (use assms in \<open>simp add: reflection_chat_def\<close>)

lemma reflection_chat_ok: "reflection_chat rf p = Inr q \<Longrightarrow> keeps p q"
  by (drule reflection_chat_cases) (auto simp: keeps_defs)

lemma optional_fact_ok:
  "optional_fact rf key ok msg upd p = Inr q \<Longrightarrow> (\<And>n. ok n \<Longrightarrow> keeps p (upd n p)) \<Longrightarrow> keeps p q"
  by (auto simp: optional_fact_def keeps_refl split: option.split_asm if_split_asm)

lemma reflection_facts_ok:
  assumes "reflection_facts rf p = Inr q"
  shows "keeps p q"
proof -
  obtain p1 p2 p3 p4 where
    p1: "optional_fact rf ''fframe_locals_offset'' (\<lambda>n. n \<le> 0x1000)
       ''reflection.fframe_locals_offset must be a small unsigned integer'' (\<lambda>n q. q\<lparr>bp_fframe_locals_offset := n\<rparr>) p = Inr p1"
    and p2: "optional_fact rf ''fname_pool_blocks_va'' (\<lambda>n. n \<noteq> 0)
       ''reflection.fname_pool_blocks_va must be a nonzero unsigned integer'' (\<lambda>n q. q\<lparr>bp_fname_pool_blocks_va := n\<rparr>) p1 = Inr p2"
    and p3: "optional_fact rf ''process_event_vtable_slot'' (\<lambda>n. n \<le> 0x1000)
       ''reflection.process_event_vtable_slot must be a small unsigned integer'' (\<lambda>n q. q\<lparr>bp_process_event_slot := n\<rparr>) p2 = Inr p3"
    and p4: "optional_fact rf ''guobjectarray_objects_va'' (\<lambda>n. n \<noteq> 0)
       ''reflection.guobjectarray_objects_va must be a nonzero unsigned integer'' (\<lambda>n q. q\<lparr>bp_guobjectarray_objects_va := n\<rparr>) p3 = Inr p4"
    and p5: "optional_fact rf ''super_struct_offset'' (\<lambda>n. n \<le> 0x1000)
       ''reflection.super_struct_offset must be a small unsigned integer'' (\<lambda>n q. q\<lparr>bp_super_struct_offset := n\<rparr>) p4 = Inr q"
    using assms by (auto simp: reflection_facts_def)
  have "keeps p p1" "keeps p1 p2" "keeps p2 p3" "keeps p3 p4" "keeps p4 q"
    by (rule optional_fact_ok [OF p1] optional_fact_ok [OF p2] optional_fact_ok [OF p3]
        optional_fact_ok [OF p4] optional_fact_ok [OF p5]; simp add: keeps_defs)+
  then show ?thesis by (blast intro: keeps_trans)
qed

lemma reflection_engine_tick_cases:
  assumes "reflection_engine_tick rf p = Inr q"
  shows "q = p \<or> (\<exists>g slot. g \<noteq> 0 \<and> slot \<le> 0x1000 \<and>
    q = p\<lparr>bp_gengine_global_va := g, bp_engine_tick_vtable_slot := slot\<rparr>)"
proof (cases "json_get rf ''engine_tick''")
  case (Some v)
  then obtain t where "json_object v = Some t"
    using assms by (auto simp: reflection_engine_tick_def split: option.split_asm)
  with Some assms show ?thesis
    by (auto simp: reflection_engine_tick_def linorder_not_less split: option.split_asm if_split_asm)
qed (use assms in \<open>simp add: reflection_engine_tick_def\<close>)

lemma reflection_engine_tick_ok: "reflection_engine_tick rf p = Inr q \<Longrightarrow> keeps p q"
  by (drule reflection_engine_tick_cases) (auto simp: keeps_defs)

lemma reflection_admin_cases:
  assumes "reflection_admin rf p = Inr q"
  shows "q = p \<or> (\<exists>klass ps uid b s. klass \<noteq> [] \<and> b \<noteq> 0 \<and>
    q = p\<lparr>bp_admin_controller_class := klass, bp_admin_player_state_offset := ps,
          bp_admin_player_uid_offset := uid, bp_admin_badmin_offset := b, bp_admin_sender_uid_offset := s\<rparr>)"
proof (cases "json_get rf ''admin''")
  case (Some v)
  then obtain admin klass where "json_object v = Some admin" "require_string admin ''controller_class'' = Inr klass"
    using assms by (auto simp: reflection_admin_def split: option.split_asm sum.split_asm)
  with Some assms require_string_nonempty [OF this(2)] show ?thesis
    by (auto simp: reflection_admin_def split: option.split_asm if_split_asm) blast
qed (use assms in \<open>simp add: reflection_admin_def\<close>)

lemma reflection_admin_ok: "reflection_admin rf p = Inr q \<Longrightarrow> keeps p q"
  by (drule reflection_admin_cases) (auto simp: keeps_defs)

lemma profile_reflection_wf:
  assumes "profile_reflection root p = Inr q" "profile_core p" "profile_ranges p"
    "bp_chat_broadcast_thunk_rva p = 0"
  shows "profile_wf q"
proof (cases "json_get root ''reflection''")
  case None
  with assms show ?thesis by (simp add: profile_reflection_def profile_wf_def)
next
  case (Some v)
  then obtain rf p1 p2 p3 p4 where
    "reflection_head rf p = Inr p1" "reflection_chat rf p1 = Inr p2" "reflection_facts rf p2 = Inr p3"
    "reflection_engine_tick rf p3 = Inr p4" "reflection_admin rf p4 = Inr q"
    using assms(1) by (auto simp: profile_reflection_def split: option.splits)
  then have "keeps p p1" "has_reflection p1" "keeps p1 p2" "keeps p2 p3" "keeps p3 p4" "keeps p4 q"
    using reflection_head_ok reflection_chat_ok reflection_facts_ok reflection_engine_tick_ok
      reflection_admin_ok by blast+
  with assms show ?thesis
    by (simp add: profile_wf_def keeps_def has_chat_hook_def)
qed

lemma profile_anchor_ok:
  assumes "profile_anchor name v = Inr h"
  shows "hp_name h = name \<and> hp_expected_bytes h \<noteq> []"
proof -
  obtain anchor where a: "json_object v = Some anchor"
    using assms by (auto simp: profile_anchor_def split: option.split_asm)
  then obtain e where "require_string anchor ''expected_bytes'' = Inr e"
    using assms by (auto simp: profile_anchor_def)
  with a assms require_string_nonempty [OF this] show ?thesis
    by (auto simp: profile_anchor_def split: option.split_asm json.split_asm if_split_asm)
qed

lemma set_smap_put_subset: "set (smap_put k v m) \<subseteq> insert (k, v) (set m)"
  by (induction k v m rule: smap_put.induct) auto

lemma profile_anchors_ok:
  assumes "profile_anchors kvs hooks = Inr hooks'" "smap_inv hooks"
    and "\<forall>(n, h) \<in> set hooks. hp_name h = n \<and> hp_expected_bytes h \<noteq> []"
  shows "smap_inv hooks' \<and> (\<forall>(n, h) \<in> set hooks'. hp_name h = n \<and> hp_expected_bytes h \<noteq> []) \<and>
    (kvs \<noteq> [] \<or> hooks \<noteq> [] \<longrightarrow> hooks' \<noteq> [])"
  using assms
proof (induction kvs hooks arbitrary: hooks' rule: profile_anchors.induct)
  case (2 name v rest hooks)
  obtain h where h: "profile_anchor name v = Inr h"
    "profile_anchors rest (fst (smap_emplace name h hooks)) = Inr hooks'"
    using 2(2) by auto
  let ?m = "fst (smap_emplace name h hooks)"
  have sub: "set ?m \<subseteq> insert (name, h) (set hooks)"
    using set_smap_put_subset [of name h hooks] by (auto simp: smap_emplace_def split: option.splits)
  have "\<forall>(n, h) \<in> set ?m. hp_name h = n \<and> hp_expected_bytes h \<noteq> []"
    using 2(4) profile_anchor_ok [OF h(1)] sub by fastforce
  moreover have "?m \<noteq> []"
    using set_fst_smap_put [of name h hooks] by (auto simp: smap_emplace_def split: option.splits)
  ultimately show ?case
    using 2(1) [OF h(2) smap_emplace_inv [OF 2(3)]] by simp
qed simp

lemma profile_elf_ok:
  "profile_elf elf p = Inr q \<Longrightarrow> \<exists>sha bid base sz. length sha = 64 \<and> bid \<noteq> [] \<and>
     q = p\<lparr>bp_sha256 := lower sha, bp_elf_build_id := lower bid, bp_elf_type := ''ET_EXEC'',
           bp_image_base := base, bp_executable_size := sz\<rparr>"
  by (auto simp: profile_elf_def split: if_splits option.splits) blast?

lemma parse_json_wf:
  assumes "parse_json text = Inr p"
  shows "profile_wf p"
proof -
  obtain root where "profile_of_object root = Inr p"
    using assms by (auto simp: parse_json_def split: sum.splits option.splits)
  then obtain status pid steam elf p1 anchors hooks where r:
    "require3 root ''status'' ''profile_id'' ''steam_build_id'' = Inr (status, pid, steam)"
    "profile_elf elf (profile_new\<lparr>bp_schema := 1, bp_status := status, bp_profile_id := pid,
       bp_steam_build_id := steam\<rparr>) = Inr p1"
    "anchors \<noteq> []" "profile_anchors anchors [] = Inr hooks"
    "profile_reflection root (p1\<lparr>bp_hooks := hooks\<rparr>) = Inr p"
    by (auto simp: profile_of_object_def split: if_splits option.splits)
  have h: "smap_inv hooks" "\<forall>(n, h) \<in> set hooks. hp_name h = n \<and> hp_expected_bytes h \<noteq> []" "hooks \<noteq> []"
    using profile_anchors_ok [OF r(4)] r(3) by auto
  show ?thesis
    by (rule profile_reflection_wf [OF r(5)])
      (use require3_nonempty [OF r(1)] profile_elf_ok [OF r(2)] h in
        \<open>auto simp: profile_core_def profile_ranges_def profile_new_def\<close>)
qed


lemma exactly_matches_iff:
  "exactly_matches p actual = Inr () \<longleftrightarrow>
     bp_status p = ''validated'' \<and> bp_sha256 p = lower (fp_sha256 actual) \<and>
     bp_elf_build_id p = lower (fp_elf_build_id actual) \<and> bp_executable_size p = fp_size actual"
  by (auto simp: exactly_matches_def)


section \<open>Properties\<close>


end
