(* ===== verification/Palmod_Fingerprint.thy ===== *)
theory Palmod_Fingerprint
  imports Palmod_Memory Palmod_Build_Profile
begin

text \<open>
  The fingerprint of the running executable (\<^verbatim>\<open>native/src/fingerprint.cpp\<close>): its size, its SHA-256
  and its GNU build identifier, which is searched in the note segments and then in the note sections
  of the ELF file.  A file is its byte list; reading a range that is not wholly inside it fails.
\<close>

section \<open>Notes\<close>

definition align4 :: "nat \<Rightarrow> nat" where
  "align4 n = (n + 3) div 4 * 4"

definition slice :: "u8 list \<Rightarrow> nat \<Rightarrow> nat \<Rightarrow> u8 list option" where
  "slice file offset n = (if offset + n \<le> length file then Some (take n (drop offset file)) else None)"

definition u32_at :: "u8 list \<Rightarrow> nat \<Rightarrow> nat" where
  "u32_at bs off = unat (u32_of (take 4 (drop off bs)))"

definition u16_at :: "u8 list \<Rightarrow> nat \<Rightarrow> nat" where
  "u16_at bs off = unat (u16_of (take 2 (drop off bs)))"

definition u64_at :: "u8 list \<Rightarrow> nat \<Rightarrow> nat" where
  "u64_at bs off = unat (u64_of (take 8 (drop off bs)))"

function note_scan :: "u8 list \<Rightarrow> nat \<Rightarrow> string option" where
  "note_scan bytes cursor =
     (if length bytes < cursor + 12 then None
      else (let namesz = u32_at bytes cursor; descsz = u32_at bytes (cursor + 4);
                name_start = cursor + 12;
                desc_start = name_start + align4 namesz;
                nxt = desc_start + align4 descsz
            in if length bytes < nxt then None
               else if u32_at bytes (cursor + 8) = 3 \<and> 3 \<le> namesz \<and> take 3 (drop name_start bytes) = [0x47, 0x4e, 0x55]
               then Some (hex (take descsz (drop desc_start bytes)))
               else note_scan bytes nxt))"
  by pat_completeness auto
termination
  by (relation "measure (\<lambda>(bytes, cursor). length bytes - cursor)") auto

declare note_scan.simps [simp del]

definition parse_note_region :: "u8 list \<Rightarrow> nat \<Rightarrow> nat \<Rightarrow> string option" where
  "parse_note_region file offset n =
     (if n = 0 \<or> 16 * 1024 * 1024 < n then None
      else (case slice file offset n of None \<Rightarrow> None | Some bytes \<Rightarrow> note_scan bytes 0))"


section \<open>The ELF file\<close>

text \<open>Entries of a table: \<open>n\<close> entries of \<open>stride\<close> bytes.\<close>

definition table_entries :: "u8 list \<Rightarrow> nat \<Rightarrow> nat \<Rightarrow> u8 list list" where
  "table_entries bytes stride n = map (\<lambda>i. take stride (drop (i * stride) bytes)) [0..<n]"

fun first_note :: "u8 list \<Rightarrow> (u8 list \<Rightarrow> (nat \<times> nat) option) \<Rightarrow> u8 list list \<Rightarrow> string option" where
  "first_note file region [] = None"
| "first_note file region (e # es) =
     (case region e of
        None \<Rightarrow> first_note file region es
      | Some (offset, n) \<Rightarrow>
          (case parse_note_region file offset n of
             Some bid \<Rightarrow> Some bid
           | None \<Rightarrow> first_note file region es))"

definition program_region :: "u8 list \<Rightarrow> (nat \<times> nat) option" where
  "program_region e = (if u32_at e 0 \<noteq> 4 then None else Some (u64_at e 8, u64_at e 32))"

definition section_region :: "u8 list \<Rightarrow> (nat \<times> nat) option" where
  "section_region e = (if u32_at e 4 \<noteq> 7 then None else Some (u64_at e 24, u64_at e 32))"

definition elf_supported :: "u8 list \<Rightarrow> bool" where
  "elf_supported h \<longleftrightarrow>
     take 4 h = [0x7f, 0x45, 0x4c, 0x46] \<and> h ! 4 = 2 \<and> h ! 5 = 1 \<and> u16_at h 18 = 62"

text \<open>One table of headers; \<open>Inr None\<close> when it holds no build identifier.\<close>

definition table_build_id ::
  "u8 list \<Rightarrow> bool \<Rightarrow> nat \<Rightarrow> nat \<Rightarrow> nat \<Rightarrow> (u8 list \<Rightarrow> (nat \<times> nat) option) \<Rightarrow> string \<Rightarrow> string option outcome" where
  "table_build_id file usable offset stride n region failure =
     (if \<not> usable \<or> n = 0 then Inr None
      else (case slice file offset (n * stride) of
              None \<Rightarrow> Inl failure
            | Some bytes \<Rightarrow> Inr (first_note file region (table_entries bytes stride n))))"

definition read_build_id :: "u8 list option \<Rightarrow> string \<Rightarrow> string outcome" where
  "read_build_id content path =
     (case content of
        None \<Rightarrow> Inl (''cannot open ELF for build-id: '' @ path)
      | Some file \<Rightarrow>
          (case slice file 0 64 of
             None \<Rightarrow> Inl ''expected a little-endian x86-64 ELF executable''
           | Some h \<Rightarrow>
               if \<not> elf_supported h then Inl ''expected a little-endian x86-64 ELF executable''
               else
                 ok_then (table_build_id file (u16_at h 54 = 56) (u64_at h 32) 56 (u16_at h 56) program_region
                    ''cannot read ELF program headers'') (\<lambda>r.
                 case r of
                   Some bid \<Rightarrow> Inr bid
                 | None \<Rightarrow>
                     ok_then (table_build_id file (u16_at h 58 = 64) (u64_at h 40) 64 (u16_at h 60) section_region
                        ''cannot read ELF section headers'') (\<lambda>r'.
                     case r' of
                       Some bid \<Rightarrow> Inr bid
                     | None \<Rightarrow> Inl ''ELF has no GNU build-id note''))))"

definition fingerprint_elf ::
  "(string \<Rightarrow> nat outcome) \<Rightarrow> (string \<Rightarrow> file_read) \<Rightarrow> (string \<Rightarrow> u8 list option) \<Rightarrow> string \<Rightarrow> build_fingerprint outcome" where
  "fingerprint_elf file_size hash_read content executable =
     (case file_size executable of
        Inl e \<Rightarrow> Inl (''cannot stat executable: '' @ e)
      | Inr bytes \<Rightarrow>
          ok_then (sha256_file hash_read executable) (\<lambda>digest.
          ok_then (read_build_id (content executable) executable) (\<lambda>build_id.
            Inr \<lparr>fp_executable = executable, fp_sha256 = digest, fp_elf_build_id = build_id, fp_size = of_nat bytes\<rparr>)))"

definition fingerprint_self ::
  "(string \<Rightarrow> nat outcome) \<Rightarrow> (string \<Rightarrow> file_read) \<Rightarrow> (string \<Rightarrow> u8 list option) \<Rightarrow> string option \<Rightarrow> build_fingerprint outcome" where
  "fingerprint_self file_size hash_read content exe_link =
     (case exe_link of
        None \<Rightarrow> Inl ''readlink(/proc/self/exe) failed''
      | Some path \<Rightarrow> fingerprint_elf file_size hash_read content path)"


section \<open>Lemmas\<close>

text \<open>A note as a linker writes it.\<close>

record elf_note =
  nt_type :: nat
  nt_name :: "u8 list"
  nt_desc :: "u8 list"

definition pad4 :: "u8 list \<Rightarrow> u8 list" where
  "pad4 bs = bs @ replicate (align4 (length bs) - length bs) 0"

definition note_bytes :: "elf_note \<Rightarrow> u8 list" where
  "note_bytes n =
     le_bytes 4 (length (nt_name n)) @ le_bytes 4 (length (nt_desc n)) @ le_bytes 4 (nt_type n) @
     pad4 (nt_name n) @ pad4 (nt_desc n)"

definition note_ok :: "elf_note \<Rightarrow> bool" where
  "note_ok n \<longleftrightarrow> length (nt_name n) < 2 ^ 32 \<and> length (nt_desc n) < 2 ^ 32 \<and> nt_type n < 2 ^ 32"

definition gnu_build_id :: "elf_note \<Rightarrow> bool" where
  "gnu_build_id n \<longleftrightarrow> nt_type n = 3 \<and> 3 \<le> length (nt_name n) \<and> take 3 (nt_name n) = [0x47, 0x4e, 0x55]"

lemma length_pad4 [simp]: "length (pad4 bs) = align4 (length bs)"
  by (simp add: pad4_def align4_def)

lemma length_note_bytes: "length (note_bytes n) = 12 + align4 (length (nt_name n)) + align4 (length (nt_desc n))"
  by (simp add: note_bytes_def)

lemma align4_ge: "n \<le> align4 n"
  by (simp add: align4_def)

lemma u32_at_append: "u32_at (pre @ bs) (length pre + k) = u32_at bs k"
  by (simp add: u32_at_def)

lemma note_fields:
  assumes "note_ok n"
  shows "u32_at (note_bytes n @ rest) 0 = length (nt_name n)"
    "u32_at (note_bytes n @ rest) 4 = length (nt_desc n)"
    "u32_at (note_bytes n @ rest) 8 = nt_type n"
    "3 \<le> length (nt_name n) \<Longrightarrow> take 3 (drop 12 (note_bytes n @ rest)) = take 3 (nt_name n)"
    "take (length (nt_desc n)) (drop (12 + align4 (length (nt_name n))) (note_bytes n @ rest)) = nt_desc n"
  using assms align4_ge [of "length (nt_desc n)"] align4_ge [of "length (nt_name n)"]
  by (auto simp: note_ok_def u32_at_def note_bytes_def unat_of_nat pad4_def)

lemma note_scan_notes:
  assumes "list_all note_ok ns"
  shows "note_scan (pre @ concat (map note_bytes ns)) (length pre) =
    map_option (\<lambda>n. hex (nt_desc n)) (List.find gnu_build_id ns)"
  using assms
proof (induction ns arbitrary: pre)
  case Nil
  then show ?case by (simp add: note_scan.simps)
next
  case (Cons n ns)
  let ?rest = "concat (map note_bytes ns)"
  have fields: "u32_at (pre @ note_bytes n @ ?rest) (length pre) = length (nt_name n)"
    "u32_at (pre @ note_bytes n @ ?rest) (length pre + 4) = length (nt_desc n)"
    "u32_at (pre @ note_bytes n @ ?rest) (length pre + 8) = nt_type n"
    using note_fields(1-3) [of n ?rest] Cons.prems u32_at_append [of pre "note_bytes n @ ?rest" 0] by (simp_all add: u32_at_append)
  have step: "note_scan (pre @ note_bytes n @ ?rest) (length pre + length (note_bytes n)) =
      map_option (\<lambda>n. hex (nt_desc n)) (List.find gnu_build_id ns)"
    using Cons.IH [of "pre @ note_bytes n"] Cons.prems by simp
  show ?case
    using fields step note_fields(4,5) [of n ?rest] Cons.prems
    by (subst note_scan.simps) (auto simp: Let_def gnu_build_id_def length_note_bytes ac_simps)
qed



section \<open>Properties\<close>

text \<open>C39: The build identifier is found: a region that holds a sequence of notes, as a linker lays them
  out, yields the descriptor, in hexadecimal, of the first GNU build-id note among them, and nothing
  when there is none, wherever in the file the region stands.\<close>

theorem note_region_roundtrip:
  assumes "list_all note_ok ns" "ns \<noteq> []" "length (concat (map note_bytes ns)) \<le> 16 * 1024 * 1024"
  shows "parse_note_region (pre @ concat (map note_bytes ns) @ post) (length pre) (length (concat (map note_bytes ns))) =
    map_option (\<lambda>n. hex (nt_desc n)) (List.find gnu_build_id ns)"
proof -
  have "length (concat (map note_bytes ns)) \<noteq> 0"
    using assms(2) by (cases ns) (simp_all add: length_note_bytes)
  then show ?thesis
    using assms(3) note_scan_notes [OF assms(1), of "[]"]
    by (auto simp: parse_note_region_def slice_def)
qed

definition sample_notes :: "elf_note list" where
  "sample_notes =
     [\<lparr>nt_type = 1, nt_name = [0x47, 0x4e, 0x55, 0], nt_desc = [0, 0, 0, 0]\<rparr>,
      \<lparr>nt_type = 3, nt_name = [0x47, 0x4e, 0x55, 0], nt_desc = [0xab, 0x01, 0x7f]\<rparr>]"

lemma sample_notes_length: "length (concat (map note_bytes sample_notes)) = 40"
  by (simp add: sample_notes_def length_note_bytes align4_def)

theorem note_region_roundtrip_witness:
  "parse_note_region ([1, 2] @ concat (map note_bytes sample_notes) @ [9]) (Suc (Suc 0)) 40 = Some ''ab017f''"
  using note_region_roundtrip [of sample_notes "[1, 2]" "[9]"]
  by (simp add: sample_notes_length)
    (simp add: sample_notes_def note_ok_def gnu_build_id_def hex_def hex_byte_def)

end
