(* ===== verification/Palmod_Profile_Gate.thy ===== *)
theory Palmod_Profile_Gate
  imports Palmod_Fingerprint
begin

text \<open>
  The checks between the launcher and the live process (\<^verbatim>\<open>native/src/runtime.cpp\<close>, first part): the
  profile is read from an inherited, fully sealed memory file, its digest is compared without a
  data-dependent branch, and the bytes at its anchor addresses are compared with the live image.

  The answers of the kernel about the descriptor are arguments; so is the sequence of results of
  \<^verbatim>\<open>pread\<close>, whose loop retries an interrupted call, so reading may not have ended yet (\<open>None\<close>).
\<close>

section \<open>The sealed profile\<close>

definition kMaxProfileBytes :: nat where "kMaxProfileBytes = 4 * 1024 * 1024"

datatype pread_result = Interrupted | ReadFailed | ReadBytes string

record sealed_fd =
  fd_flags :: "int outcome"
  fd_seals :: int
  fd_regular_size :: "int option"
  fd_dup :: "unit outcome"
  fd_preads :: "pread_result list"

text \<open>A read returns at most the bytes that were asked for.\<close>

fun pread_loop :: "pread_result list \<Rightarrow> nat \<Rightarrow> string \<Rightarrow> string outcome option" where
  "pread_loop results bytes contents =
     (if bytes \<le> length contents then Some (Inr contents)
      else (case results of
              [] \<Rightarrow> None
            | Interrupted # rs \<Rightarrow> pread_loop rs bytes contents
            | ReadFailed # rs \<Rightarrow> Some (Inl ''cannot read complete profile memfd'')
            | ReadBytes bs # rs \<Rightarrow>
                if bs = [] then Some (Inl ''cannot read complete profile memfd'')
                else pread_loop rs bytes (contents @ take (bytes - length contents) bs)))"

declare pread_loop.simps [simp del]

definition fully_sealed :: "int \<Rightarrow> bool" where
  "fully_sealed seals \<longleftrightarrow> 0 \<le> seals \<and> seals AND 15 = 15"

definition read_sealed_profile :: "int \<Rightarrow> sealed_fd \<Rightarrow> string outcome option" where
  "read_sealed_profile inherited_fd s =
     (if inherited_fd < 3 then Some (Inl ''PALMOD_PROFILE_FD must name an inherited descriptor >= 3'')
      else (case fd_flags s of
              Inl e \<Rightarrow> Some (Inl (''PALMOD_PROFILE_FD is not open: '' @ e))
            | Inr descriptor_flags \<Rightarrow>
                if descriptor_flags AND 1 \<noteq> 0 then Some (Inl ''PALMOD_PROFILE_FD must be inherited without FD_CLOEXEC'')
                else if \<not> fully_sealed (fd_seals s) then Some (Inl ''PALMOD_PROFILE_FD must be a fully sealed memfd'')
                else (case fd_regular_size s of
                        None \<Rightarrow> Some (Inl ''sealed profile size must be between 1 byte and 4 MiB'')
                      | Some n \<Rightarrow>
                          if n \<le> 0 \<or> int kMaxProfileBytes < n
                          then Some (Inl ''sealed profile size must be between 1 byte and 4 MiB'')
                          else (case fd_dup s of
                                  Inl e \<Rightarrow> Some (Inl (''cannot duplicate profile memfd: '' @ e))
                                | Inr _ \<Rightarrow> pread_loop (fd_preads s) (nat n) []))))"


section \<open>Comparing digests\<close>

fun difference_loop :: "u32 \<Rightarrow> string \<Rightarrow> string \<Rightarrow> u32" where
  "difference_loop d (a # as) (b # bs) = difference_loop (d OR (of_nat (code a) XOR of_nat (code b))) as bs"
| "difference_loop d _ _ = d"

definition fixed_equal :: "string \<Rightarrow> string \<Rightarrow> bool" where
  "fixed_equal left right \<longleftrightarrow> length left = length right \<and> difference_loop 0 left right = 0"


section \<open>Anchors\<close>

definition hex_digit :: "char \<Rightarrow> int" where
  "hex_digit c = (case hex_value c of Some d \<Rightarrow> int d | None \<Rightarrow> - 1)"

record expected_byte =
  eb_value :: u8
  eb_wildcard :: bool

text \<open>One element of a pattern without leading blanks, and what follows it.\<close>

definition pattern_element :: "string \<Rightarrow> (expected_byte \<times> string) outcome" where
  "pattern_element p =
     (case p of
        [] \<Rightarrow> Inl ''anchor byte pattern is empty''
      | c # r \<Rightarrow>
          if c = CHR ''?'' then
            Inr (\<lparr>eb_value = 0, eb_wildcard = True\<rparr>, case r of d # r' \<Rightarrow> if d = CHR ''?'' then r' else r | [] \<Rightarrow> [])
          else (case r of
                  [] \<Rightarrow> Inl ''anchor byte pattern has an incomplete hex byte''
                | d # r' \<Rightarrow>
                    if hex_digit c < 0 \<or> hex_digit d < 0 then Inl ''anchor byte pattern contains non-hex text''
                    else Inr (\<lparr>eb_value = of_int (hex_digit c * 16 + hex_digit d), eb_wildcard = False\<rparr>, r')))"

lemma pattern_element_shorter: "pattern_element p = Inr (e, r) \<Longrightarrow> length r < length p"
  by (auto simp: pattern_element_def split: list.split_asm if_split_asm)

function pattern_loop :: "string \<Rightarrow> expected_byte list \<Rightarrow> expected_byte list outcome" where
  "pattern_loop pattern result =
     (let p = dropWhile isspace pattern
      in if p = [] then Inr result
         else (case pattern_element p of
                 Inl e \<Rightarrow> Inl e
               | Inr (b, r) \<Rightarrow>
                   if 512 < length (result @ [b]) then Inl ''anchor byte pattern exceeds 512 bytes''
                   else pattern_loop r (result @ [b])))"
  by pat_completeness auto
termination
  by (relation "measure (\<lambda>(pattern, result). length pattern)")
    (auto dest!: pattern_element_shorter intro: less_le_trans length_dropWhile_le)

declare pattern_loop.simps [simp del]

definition parse_expected_bytes :: "string \<Rightarrow> expected_byte list outcome" where
  "parse_expected_bytes pattern =
     ok_then (pattern_loop pattern []) (\<lambda>result.
       if result = [] then Inl ''anchor byte pattern is empty'' else Inr result)"

definition byte_matches :: "expected_byte \<Rightarrow> u8 \<Rightarrow> bool" where
  "byte_matches e b \<longleftrightarrow> eb_wildcard e \<or> eb_value e = b"

fun verify_hooks :: "mem \<Rightarrow> u64 \<Rightarrow> (string, hook_profile) smap \<Rightarrow> unit outcome" where
  "verify_hooks m image_base [] = Inr ()"
| "verify_hooks m image_base ((name, anchor) # hooks) =
     (case parse_expected_bytes (hp_expected_bytes anchor) of
        Inl e \<Rightarrow> Inl (''anchor '' @ tick name @ '': '' @ e)
      | Inr expected \<Rightarrow>
          if - 1 - image_base < hp_rva anchor then Inl (''anchor '' @ tick name @ '' address overflows'')
          else (case mem_bytes m (image_base + hp_rva anchor) (length expected) of
                  None \<Rightarrow> Inl (''cannot read anchor '' @ tick name @ '' from the live image'')
                | Some actual \<Rightarrow>
                    if \<not> list_all2 byte_matches expected actual
                    then Inl (''live bytes do not match anchor '' @ tick name)
                    else verify_hooks m image_base hooks))"

definition verify_anchors :: "mem \<Rightarrow> build_profile \<Rightarrow> unit outcome" where
  "verify_anchors m p = verify_hooks m (bp_image_base p) (bp_hooks p)"


section \<open>Lemmas\<close>

lemma word_or_zero: "(a OR b = 0) \<longleftrightarrow> a = 0 \<and> b = (0 :: u32)"
  by (auto simp: bit_eq_iff bit_simps)

lemma word_xor_zero: "(a XOR b = 0) \<longleftrightarrow> a = (b :: u32)"
  by (auto simp: bit_eq_iff bit_simps)

lemma code_xor_zero: "(of_nat (code a) XOR of_nat (code b) = (0 :: u32)) \<longleftrightarrow> a = b"
proof -
  have "code c mod 2 ^ 32 = code c" for c :: char
    by (rule mod_less, rule less_trans [OF nat_of_char_less_256]) simp
  then have "(of_nat (code a) = (of_nat (code b) :: u32)) \<longleftrightarrow> code a = code b"
    by (simp add: word_of_nat_eq_iff take_bit_eq_mod)
  then show ?thesis by (simp add: word_xor_zero)
qed

lemma difference_loop_zero:
  "length left = length right \<Longrightarrow> difference_loop d left right = 0 \<longleftrightarrow> d = 0 \<and> left = right"
  by (induction d left right rule: difference_loop.induct) (auto simp: word_or_zero code_xor_zero)

lemma fixed_equal_iff: "fixed_equal left right \<longleftrightarrow> left = right"
  by (auto simp: fixed_equal_def difference_loop_zero)

text \<open>What the anchor check establishes of the live image.\<close>

definition anchor_holds :: "mem \<Rightarrow> u64 \<Rightarrow> hook_profile \<Rightarrow> bool" where
  "anchor_holds m image_base anchor \<longleftrightarrow>
     unat image_base + unat (hp_rva anchor) < 2 ^ 64 \<and>
     (\<exists>expected actual. parse_expected_bytes (hp_expected_bytes anchor) = Inr expected \<and>
        mem_bytes m (image_base + hp_rva anchor) (length expected) = Some actual \<and>
        list_all2 byte_matches expected actual)"

lemma no_overflow_iff: "\<not> - 1 - image_base < rva \<longleftrightarrow> unat image_base + unat rva < 2 ^ 64" for rva :: u64
proof -
  have "unat (- 1 :: u64) = 2 ^ 64 - 1"
    by (simp add: unsigned_minus_1_eq_mask mask_eq_exp_minus_1)
  moreover have "unat (- 1 - image_base) = unat (- 1 :: u64) - unat image_base"
    by (rule unat_sub) simp
  ultimately show ?thesis
    using unat_u64 [of image_base] by (auto simp: word_less_nat_alt)
qed

lemma verify_hooks_iff:
  "verify_hooks m image_base hooks = Inr () \<longleftrightarrow> list_all (\<lambda>(name, anchor). anchor_holds m image_base anchor) hooks"
proof (induction hooks)
  case (Cons h hooks)
  obtain name anchor where "h = (name, anchor)" by (cases h)
  with Cons show ?case
    using no_overflow_iff [of image_base "hp_rva anchor"]
    by (auto simp: anchor_holds_def split: sum.split option.split)
qed simp

lemma pread_loop_steps:
  assumes "\<not> bytes \<le> length contents"
  shows "pread_loop [] bytes contents = None"
    "pread_loop (Interrupted # rs) bytes contents = pread_loop rs bytes contents"
    "pread_loop (ReadFailed # rs) bytes contents = Some (Inl ''cannot read complete profile memfd'')"
    "pread_loop (ReadBytes bs # rs) bytes contents =
       (if bs = [] then Some (Inl ''cannot read complete profile memfd'')
        else pread_loop rs bytes (contents @ take (bytes - length contents) bs))"
  using assms by (subst pread_loop.simps; simp)+

lemma pread_loop_length:
  "pread_loop rs bytes contents = Some (Inr text) \<Longrightarrow> length contents \<le> bytes \<Longrightarrow> length text = bytes"
proof (induction rs bytes contents rule: pread_loop.induct)
  case (1 results bytes contents)
  show ?case
  proof (cases "bytes \<le> length contents")
    case True
    with 1 show ?thesis by (simp add: pread_loop.simps [of results])
  next
    case False
    then show ?thesis
      using 1(1) [OF False] 1(2) [OF False] "1.prems"
      by (cases results; cases "hd results") (auto simp: pread_loop_steps split: if_split_asm)
  qed
qed

end
