(* ===== verification/Palmod_Object_Array.thy ===== *)
theory Palmod_Object_Array
  imports Palmod_Fname_Pool
begin

text \<open>
  The walk over Unreal's live objects (\<^verbatim>\<open>native/src/object_array.cpp\<close>) and the administrator
  check built on it (\<^verbatim>\<open>native/src/player_auth.cpp\<close>).

  \<open>for_each\<close> is the loop over the chunked array; its visitor carries a state, which is where the
  callers' captured variables and the class-name cache live.  All reads are direct, so every
  function is \<open>guarded\<close>.
\<close>

section \<open>The walk\<close>

record object_layout =
  ol_objects_va :: u64
  ol_num_elements_offset :: u64
  ol_elements_per_chunk :: nat
  ol_item_size :: u64
  ol_class_offset :: u64
  ol_name_offset :: u64
  ol_outer_offset :: u64
  ol_super_offset :: u64

definition layout_default :: object_layout where
  "layout_default =
     \<lparr>ol_objects_va = 0, ol_num_elements_offset = 0x14, ol_elements_per_chunk = 64 * 1024,
      ol_item_size = 24, ol_class_offset = 0x10, ol_name_offset = 0x18, ol_outer_offset = 0x20,
      ol_super_offset = 0\<rparr>"

definition ol_configured :: "object_layout \<Rightarrow> bool" where
  "ol_configured l \<longleftrightarrow> ol_objects_va l \<noteq> 0"

definition kMaxObjects :: int where "kMaxObjects = 8000000"
definition kMaxSuperDepth :: nat where "kMaxSuperDepth = 64"

definition iequal :: "string \<Rightarrow> string \<Rightarrow> bool" where
  "iequal a b \<longleftrightarrow> length a = length b \<and> list_all2 (\<lambda>x y. tolower x = tolower y) a b"

text \<open>The object at an index, \<open>None\<close> for a hole; dividing by a chunk size of 0 is a crash.\<close>

definition object_at :: "mem \<Rightarrow> object_layout \<Rightarrow> u64 \<Rightarrow> nat \<Rightarrow> u64 option guarded" where
  "object_at m l chunk_array i =
     (if ol_elements_per_chunk l = 0 then Crash
      else gbind (direct_u64 m (chunk_array + of_nat (i div ol_elements_per_chunk l) * 8)) (\<lambda>c.
        case c of
          None \<Rightarrow> Done None
        | Some chunk \<Rightarrow>
            if chunk = 0 then Done None
            else gbind (direct_u64 m (chunk + of_nat (i mod ol_elements_per_chunk l) * ol_item_size l)) (\<lambda>r.
              case r of
                None \<Rightarrow> Done None
              | Some object \<Rightarrow> Done (if object = 0 then None else Some object))))"

type_synonym 's visitor = "u64 \<Rightarrow> 's \<Rightarrow> (bool \<times> 's) guarded"

fun each_loop :: "mem \<Rightarrow> object_layout \<Rightarrow> u64 \<Rightarrow> 's visitor \<Rightarrow> nat \<Rightarrow> nat \<Rightarrow> nat \<Rightarrow> 's \<Rightarrow> (nat \<times> 's) guarded" where
  "each_loop m l chunk_array visit 0 i visited s = Done (visited, s)"
| "each_loop m l chunk_array visit (Suc left) i visited s =
     gbind (object_at m l chunk_array i) (\<lambda>r.
       case r of
         None \<Rightarrow> each_loop m l chunk_array visit left (Suc i) visited s
       | Some object \<Rightarrow>
           gbind (visit object s) (\<lambda>(more, s').
             if \<not> more then Done (visited + 1, s')
             else each_loop m l chunk_array visit left (Suc i) (visited + 1) s'))"

text \<open>The header of the array: where the chunks are and how many elements there are.\<close>

definition array_header :: "mem \<Rightarrow> object_layout \<Rightarrow> (u64 \<times> nat) option guarded" where
  "array_header m l =
     (if \<not> ol_configured l then Done None
      else gbind (direct_u64 m (ol_objects_va l)) (\<lambda>c.
        case c of
          None \<Rightarrow> Done None
        | Some chunk_array \<Rightarrow>
            if chunk_array = 0 then Done None
            else gbind (direct_i32 m (ol_objects_va l + ol_num_elements_offset l)) (\<lambda>n.
              case n of
                None \<Rightarrow> Done None
              | Some num \<Rightarrow>
                  if num \<le> 0 \<or> kMaxObjects < num then Done None else Done (Some (chunk_array, nat num)))))"

definition for_each :: "mem \<Rightarrow> object_layout \<Rightarrow> 's visitor \<Rightarrow> 's \<Rightarrow> (nat \<times> 's) guarded" where
  "for_each m l visit s =
     gbind (array_header m l) (\<lambda>h.
       case h of
         None \<Rightarrow> Done (0, s)
       | Some (chunk_array, num) \<Rightarrow> each_loop m l chunk_array visit num 0 0 s)"


section \<open>Names and classes\<close>

definition name_at :: "mem \<Rightarrow> object_layout \<Rightarrow> u64 \<Rightarrow> u64 \<Rightarrow> string guarded" where
  "name_at m l names va =
     gbind (direct_i32 m (va + ol_name_offset l)) (\<lambda>r.
       case r of
         None \<Rightarrow> Done []
       | Some cmp \<Rightarrow> if cmp \<le> 0 then Done [] else fname_resolve m names (of_int cmp))"

definition object_name :: "mem \<Rightarrow> object_layout \<Rightarrow> u64 \<Rightarrow> u64 \<Rightarrow> string guarded" where
  "object_name m l names object = name_at m l names object"

text \<open>The class name, through the object's cache keyed by class pointer, which outlives the call.\<close>

type_synonym class_cache = "u64 \<Rightarrow> string option"

definition class_name :: "mem \<Rightarrow> object_layout \<Rightarrow> u64 \<Rightarrow> u64 \<Rightarrow> class_cache \<Rightarrow> (string \<times> class_cache) guarded" where
  "class_name m l names object cache =
     gbind (direct_u64 m (object + ol_class_offset l)) (\<lambda>r.
       case r of
         None \<Rightarrow> Done ([], cache)
       | Some cls \<Rightarrow>
           if cls = 0 then Done ([], cache)
           else (case cache cls of
                   Some name \<Rightarrow> Done (name, cache)
                 | None \<Rightarrow>
                     gbind (name_at m l names cls) (\<lambda>name. Done (name, cache(cls \<mapsto> name)))))"

fun super_chain :: "mem \<Rightarrow> object_layout \<Rightarrow> u64 \<Rightarrow> string \<Rightarrow> nat \<Rightarrow> u64 \<Rightarrow> bool guarded" where
  "super_chain m l names base_class 0 cls = Done False"
| "super_chain m l names base_class (Suc depth) cls =
     (if cls = 0 then Done False
      else gbind (direct_i32 m (cls + ol_name_offset l)) (\<lambda>r.
        gbind (case r of
                 None \<Rightarrow> Done False
               | Some cmp \<Rightarrow>
                   if cmp \<le> 0 then Done False
                   else gbind (fname_resolve m names (of_int cmp)) (\<lambda>n. Done (n = base_class))) (\<lambda>hit.
          if hit then Done True
          else gbind (direct_u64 m (cls + ol_super_offset l)) (\<lambda>s.
                 case s of None \<Rightarrow> Done False | Some super \<Rightarrow> super_chain m l names base_class depth super))))"

definition is_a :: "mem \<Rightarrow> object_layout \<Rightarrow> u64 \<Rightarrow> u64 \<Rightarrow> string \<Rightarrow> class_cache \<Rightarrow> (bool \<times> class_cache) guarded" where
  "is_a m l names object base_class cache =
     gbind (direct_u64 m (object + ol_class_offset l)) (\<lambda>r.
       case r of
         None \<Rightarrow> Done (False, cache)
       | Some cls \<Rightarrow>
           if cls = 0 then Done (False, cache)
           else if ol_super_offset l = 0 then
             gbind (class_name m l names object cache) (\<lambda>(n, cache'). Done (n = base_class, cache'))
           else gbind (super_chain m l names base_class kMaxSuperDepth cls) (\<lambda>b. Done (b, cache)))"

definition is_default_object :: "string \<Rightarrow> bool" where
  "is_default_object name \<longleftrightarrow> take 9 name = ''Default__''"


section \<open>Searches\<close>

definition find_visitor ::
  "mem \<Rightarrow> object_layout \<Rightarrow> u64 \<Rightarrow> string \<Rightarrow> (u64 \<Rightarrow> bool guarded) \<Rightarrow> (u64 \<times> class_cache) visitor" where
  "find_visitor m l names base_class predicate object s =
     gbind (is_a m l names object base_class (snd s)) (\<lambda>(isa, cache).
       if \<not> isa then Done (True, (fst s, cache))
       else gbind (object_name m l names object) (\<lambda>name.
         if is_default_object name then Done (True, (fst s, cache))
         else gbind (predicate object) (\<lambda>ok.
           if \<not> ok then Done (True, (fst s, cache)) else Done (False, (object, cache)))))"

definition find ::
  "mem \<Rightarrow> object_layout \<Rightarrow> u64 \<Rightarrow> string \<Rightarrow> (u64 \<Rightarrow> bool guarded) \<Rightarrow> class_cache \<Rightarrow> (u64 \<times> class_cache) guarded" where
  "find m l names base_class predicate cache =
     gbind (for_each m l (find_visitor m l names base_class predicate) (0, cache)) (\<lambda>r. Done (snd r))"

definition outer_matches :: "mem \<Rightarrow> object_layout \<Rightarrow> u64 \<Rightarrow> string \<Rightarrow> u64 \<Rightarrow> bool guarded" where
  "outer_matches m l names outer_class object =
     (if outer_class = [] then Done True
      else gbind (direct_u64 m (object + ol_outer_offset l)) (\<lambda>r.
        case r of
          None \<Rightarrow> Done False
        | Some outer \<Rightarrow>
            if outer = 0 then Done False
            else gbind (object_name m l names outer) (\<lambda>n. Done (iequal n outer_class))))"

definition function_visitor ::
  "mem \<Rightarrow> object_layout \<Rightarrow> u64 \<Rightarrow> string \<Rightarrow> string \<Rightarrow> (u64 \<times> class_cache) visitor" where
  "function_visitor m l names func_name outer_class object s =
     gbind (class_name m l names object (snd s)) (\<lambda>(cls, cache).
       if cls \<noteq> ''Function'' then Done (True, (fst s, cache))
       else gbind (object_name m l names object) (\<lambda>name.
         if \<not> iequal name func_name then Done (True, (fst s, cache))
         else gbind (outer_matches m l names outer_class object) (\<lambda>ok.
           if \<not> ok then Done (True, (fst s, cache)) else Done (False, (object, cache)))))"

definition find_function ::
  "mem \<Rightarrow> object_layout \<Rightarrow> u64 \<Rightarrow> string \<Rightarrow> string \<Rightarrow> class_cache \<Rightarrow> (u64 \<times> class_cache) guarded" where
  "find_function m l names func_name outer_class cache =
     gbind (for_each m l (function_visitor m l names func_name outer_class) (0, cache)) (\<lambda>r. Done (snd r))"


section \<open>Administrator check\<close>

record admin_layout =
  al_controller_class :: string
  al_player_state_offset :: u64
  al_player_uid_offset :: u64
  al_badmin_offset :: u64

definition al_configured :: "admin_layout \<Rightarrow> bool" where
  "al_configured a \<longleftrightarrow> al_controller_class a \<noteq> [] \<and> al_badmin_offset a \<noteq> 0"

definition controller_uid :: "mem \<Rightarrow> admin_layout \<Rightarrow> u64 \<Rightarrow> u8 list option guarded" where
  "controller_uid m a controller =
     gbind (direct_u64 m (controller + al_player_state_offset a)) (\<lambda>r.
       case r of
         None \<Rightarrow> Done None
       | Some player_state \<Rightarrow>
           if player_state = 0 then Done None
           else direct_read m (player_state + al_player_uid_offset a) 16)"

text \<open>A refused read of \<^verbatim>\<open>bAdmin\<close> leaves the local variable at 0.\<close>

definition controller_auth :: "mem \<Rightarrow> admin_layout \<Rightarrow> u64 \<Rightarrow> auth_state guarded" where
  "controller_auth m a controller =
     gbind (direct_read m (controller + al_badmin_offset a) 1) (\<lambda>r.
       Done (case r of
               Some (b # _) \<Rightarrow> if b \<noteq> 0 then Admin else Player
             | _ \<Rightarrow> Player))"

definition auth_visitor ::
  "mem \<Rightarrow> object_layout \<Rightarrow> u64 \<Rightarrow> admin_layout \<Rightarrow> u8 list \<Rightarrow> (auth_state \<times> class_cache) visitor" where
  "auth_visitor m l names a player_uid controller s =
     gbind (is_a m l names controller (al_controller_class a) (snd s)) (\<lambda>(isa, cache).
       if \<not> isa then Done (True, (fst s, cache))
       else gbind (object_name m l names controller) (\<lambda>name.
         if is_default_object name then Done (True, (fst s, cache))
         else gbind (controller_uid m a controller) (\<lambda>u.
           if u \<noteq> Some player_uid then Done (True, (fst s, cache))
           else gbind (controller_auth m a controller) (\<lambda>auth. Done (False, (auth, cache))))))"

definition resolve_player_auth ::
  "mem \<Rightarrow> object_layout \<Rightarrow> u64 \<Rightarrow> admin_layout \<Rightarrow> u8 list \<Rightarrow> class_cache \<Rightarrow> (auth_state \<times> class_cache) guarded" where
  "resolve_player_auth m l names a player_uid cache =
     (if \<not> al_configured a then Done (Unknown, cache)
      else gbind (for_each m l (auth_visitor m l names a player_uid) (Unknown, cache)) (\<lambda>r. Done (snd r)))"

section \<open>Searches without the cache\<close>

text \<open>
  The reference: decide each live object on its own, in array order, and stop at the first that
  is taken.  The visitors of the code differ only in the class-name cache they carry.
\<close>

fun first_hit :: "(u64 \<Rightarrow> 'r option guarded) \<Rightarrow> (nat \<Rightarrow> u64 option guarded) \<Rightarrow> nat \<Rightarrow> nat \<Rightarrow> 'r option guarded" where
  "first_hit decide at 0 i = Done None"
| "first_hit decide at (Suc n) i =
     gbind (at i) (\<lambda>r.
       case r of
         None \<Rightarrow> first_hit decide at n (Suc i)
       | Some object \<Rightarrow>
           gbind (decide object) (\<lambda>d.
             case d of Some x \<Rightarrow> Done (Some x) | None \<Rightarrow> first_hit decide at n (Suc i)))"

definition search :: "mem \<Rightarrow> object_layout \<Rightarrow> (u64 \<Rightarrow> 'r option guarded) \<Rightarrow> 'r option guarded" where
  "search m l decide =
     gbind (array_header m l) (\<lambda>h.
       case h of None \<Rightarrow> Done None | Some (chunk_array, num) \<Rightarrow> first_hit decide (object_at m l chunk_array) num 0)"

definition class_name_ref :: "mem \<Rightarrow> object_layout \<Rightarrow> u64 \<Rightarrow> u64 \<Rightarrow> string guarded" where
  "class_name_ref m l names object =
     gbind (direct_u64 m (object + ol_class_offset l)) (\<lambda>r.
       case r of None \<Rightarrow> Done [] | Some cls \<Rightarrow> if cls = 0 then Done [] else name_at m l names cls)"

definition is_a_ref :: "mem \<Rightarrow> object_layout \<Rightarrow> u64 \<Rightarrow> u64 \<Rightarrow> string \<Rightarrow> bool guarded" where
  "is_a_ref m l names object base_class =
     gbind (direct_u64 m (object + ol_class_offset l)) (\<lambda>r.
       case r of
         None \<Rightarrow> Done False
       | Some cls \<Rightarrow>
           if cls = 0 then Done False
           else if ol_super_offset l = 0 then gbind (name_at m l names cls) (\<lambda>n. Done (n = base_class))
           else super_chain m l names base_class kMaxSuperDepth cls)"

definition coherent :: "mem \<Rightarrow> object_layout \<Rightarrow> u64 \<Rightarrow> class_cache \<Rightarrow> bool" where
  "coherent m l names cache \<longleftrightarrow> (\<forall>cls n. cache cls = Some n \<longrightarrow> name_at m l names cls = Done n)"

lemma coherent_upd: "coherent m l names c \<Longrightarrow> name_at m l names cls = Done n \<Longrightarrow> coherent m l names (c(cls \<mapsto> n))"
  by (simp add: coherent_def)

lemma coherent_empty: "coherent m l names (\<lambda>_. None)"
  by (simp add: coherent_def)

text \<open>An answer with the cache is the answer without it and a coherent cache.\<close>

definition caches :: "mem \<Rightarrow> object_layout \<Rightarrow> u64 \<Rightarrow> ('a \<times> class_cache) guarded \<Rightarrow> 'a guarded \<Rightarrow> bool" where
  "caches m l names x y \<longleftrightarrow> (\<exists>c'. coherent m l names c' \<and> x = gbind y (\<lambda>v. Done (v, c')))"

lemma cachesI: "coherent m l names c' \<Longrightarrow> x = gbind y (\<lambda>v. Done (v, c')) \<Longrightarrow> caches m l names x y"
  by (auto simp: caches_def)

lemma class_name_caches:
  assumes "coherent m l names c"
  shows "caches m l names (class_name m l names object c) (class_name_ref m l names object)"
proof (cases "direct_u64 m (object + ol_class_offset l)")
  case Crash
  then show ?thesis
    using assms by (auto simp: class_name_def class_name_ref_def intro: cachesI)
next
  case (Done r)
  show ?thesis
  proof (cases "\<exists>cls. r = Some cls \<and> cls \<noteq> 0 \<and> c cls = None")
    case True
    then obtain cls where cls: "r = Some cls" "cls \<noteq> 0" "c cls = None" by blast
    show ?thesis
    proof (cases "name_at m l names cls")
      case Crash
      with Done cls assms show ?thesis
        by (auto simp: class_name_def class_name_ref_def intro: cachesI)
    next
      fix n assume n: "name_at m l names cls = Done n"
      show ?thesis
        by (rule cachesI [OF coherent_upd [OF assms n]])
          (use Done cls n in \<open>simp add: class_name_def class_name_ref_def\<close>)
    qed
  next
    case False
    then show ?thesis
      using Done assms
      by (intro cachesI [OF assms])
        (auto simp: class_name_def class_name_ref_def coherent_def split: option.splits)
  qed
qed

lemma is_a_caches:
  assumes "coherent m l names c"
  shows "caches m l names (is_a m l names object base c) (is_a_ref m l names object base)"
proof (cases "\<exists>cls. direct_u64 m (object + ol_class_offset l) = Done (Some cls) \<and> cls \<noteq> 0 \<and> ol_super_offset l = 0")
  case True
  then obtain cls where cls: "direct_u64 m (object + ol_class_offset l) = Done (Some cls)" "cls \<noteq> 0" "ol_super_offset l = 0"
    by blast
  obtain c' where c': "coherent m l names c'"
    "class_name m l names object c = gbind (class_name_ref m l names object) (\<lambda>v. Done (v, c'))"
    using class_name_caches [OF assms] by (auto simp: caches_def)
  show ?thesis
    by (rule cachesI [OF c'(1)])
      (use cls c'(2) in \<open>cases "name_at m l names cls"; simp add: is_a_def is_a_ref_def class_name_ref_def\<close>)
next
  case False
  then show ?thesis
    by (intro cachesI [OF assms])
      (auto simp: is_a_def is_a_ref_def gbind_def split: option.splits guarded.splits)
qed


section \<open>The interface of a search\<close>

text \<open>
  A visitor searches when, up to its cache, it decides each object on its own: it goes on with
  the result unchanged, or it stops with the object's result.
\<close>

locale searching =
  fixes good :: "'c \<Rightarrow> bool"
    and visit :: "('r \<times> 'c) visitor"
    and decide :: "u64 \<Rightarrow> 'r option guarded"
  assumes visit_decides:
    "good c \<Longrightarrow> \<exists>c'. good c' \<and>
       visit object (r, c) =
         gbind (decide object) (\<lambda>d. case d of None \<Rightarrow> Done (True, r, c') | Some x \<Rightarrow> Done (False, x, c'))"
begin

lemma each_loop_first_hit:
  "good c \<Longrightarrow> \<exists>k c'. good c' \<and>
     each_loop m l chunk_array visit n i v (r, c) =
       gbind (first_hit decide (object_at m l chunk_array) n i) (\<lambda>h.
         Done (k, (case h of None \<Rightarrow> r | Some x \<Rightarrow> x), c'))"
proof (induction n arbitrary: i v c)
  case (Suc n)
  show ?case
  proof (cases "object_at m l chunk_array i")
    case Crash
    with Suc.prems show ?thesis by auto
  next
    case (Done o')
    show ?thesis
    proof (cases o')
      case None
      with Done Suc show ?thesis by simp
    next
      case (Some object)
      obtain c1 where c1: "good c1"
        "visit object (r, c) =
          gbind (decide object) (\<lambda>d. case d of None \<Rightarrow> Done (True, r, c1) | Some x \<Rightarrow> Done (False, x, c1))"
        using visit_decides [OF Suc.prems] by blast
      show ?thesis
        using Done Some c1 Suc.IH [OF c1(1), of "Suc i" "v + 1"]
        by (cases "decide object") (auto split: option.splits)
    qed
  qed
qed auto

lemma for_each_search:
  "good c \<Longrightarrow> \<exists>k c'. good c' \<and>
     for_each m l visit (r, c) = gbind (search m l decide) (\<lambda>h. Done (k, (case h of None \<Rightarrow> r | Some x \<Rightarrow> x), c'))"
  using each_loop_first_hit
  by (cases "array_header m l") (auto simp: for_each_def search_def split: option.splits)

end

definition decide_find :: "mem \<Rightarrow> object_layout \<Rightarrow> u64 \<Rightarrow> string \<Rightarrow> (u64 \<Rightarrow> bool guarded) \<Rightarrow> u64 \<Rightarrow> u64 option guarded" where
  "decide_find m l names base predicate object =
     gbind (is_a_ref m l names object base) (\<lambda>isa.
       if \<not> isa then Done None
       else gbind (object_name m l names object) (\<lambda>name.
         if is_default_object name then Done None
         else gbind (predicate object) (\<lambda>ok. Done (if ok then Some object else None))))"

definition decide_function :: "mem \<Rightarrow> object_layout \<Rightarrow> u64 \<Rightarrow> string \<Rightarrow> string \<Rightarrow> u64 \<Rightarrow> u64 option guarded" where
  "decide_function m l names func_name outer_class object =
     gbind (class_name_ref m l names object) (\<lambda>cls.
       if cls \<noteq> ''Function'' then Done None
       else gbind (object_name m l names object) (\<lambda>name.
         if \<not> iequal name func_name then Done None
         else gbind (outer_matches m l names outer_class object) (\<lambda>ok. Done (if ok then Some object else None))))"

definition decide_auth :: "mem \<Rightarrow> object_layout \<Rightarrow> u64 \<Rightarrow> admin_layout \<Rightarrow> u8 list \<Rightarrow> u64 \<Rightarrow> auth_state option guarded" where
  "decide_auth m l names a player_uid controller =
     gbind (is_a_ref m l names controller (al_controller_class a)) (\<lambda>isa.
       if \<not> isa then Done None
       else gbind (object_name m l names controller) (\<lambda>name.
         if is_default_object name then Done None
         else gbind (controller_uid m a controller) (\<lambda>u.
           if u \<noteq> Some player_uid then Done None
           else gbind (controller_auth m a controller) (\<lambda>auth. Done (Some auth)))))"

interpretation find_search: searching "coherent m l names" "find_visitor m l names base predicate"
  "decide_find m l names base predicate" for m l names base predicate
proof unfold_locales
  fix c object r
  assume "coherent m l names c"
  then obtain c' where "coherent m l names c'"
    "is_a m l names object base c = gbind (is_a_ref m l names object base) (\<lambda>v. Done (v, c'))"
    using is_a_caches unfolding caches_def by blast
  then show "\<exists>c'. coherent m l names c' \<and> find_visitor m l names base predicate object (r, c) =
      gbind (decide_find m l names base predicate object)
        (\<lambda>d. case d of None \<Rightarrow> Done (True, r, c') | Some x \<Rightarrow> Done (False, x, c'))"
    by (intro exI [of _ c'])
      (auto simp: find_visitor_def decide_find_def gbind_def split: guarded.splits)
qed

interpretation function_search: searching "coherent m l names" "function_visitor m l names func_name outer_class"
  "decide_function m l names func_name outer_class" for m l names func_name outer_class
proof unfold_locales
  fix c object r
  assume "coherent m l names c"
  then obtain c' where "coherent m l names c'"
    "class_name m l names object c = gbind (class_name_ref m l names object) (\<lambda>v. Done (v, c'))"
    using class_name_caches unfolding caches_def by blast
  then show "\<exists>c'. coherent m l names c' \<and> function_visitor m l names func_name outer_class object (r, c) =
      gbind (decide_function m l names func_name outer_class object)
        (\<lambda>d. case d of None \<Rightarrow> Done (True, r, c') | Some x \<Rightarrow> Done (False, x, c'))"
    by (intro exI [of _ c'])
      (auto simp: function_visitor_def decide_function_def gbind_def split: guarded.splits)
qed

interpretation auth_search: searching "coherent m l names" "auth_visitor m l names a uid"
  "decide_auth m l names a uid" for m l names a uid
proof unfold_locales
  fix c object r
  assume "coherent m l names c"
  then obtain c' where "coherent m l names c'"
    "is_a m l names object (al_controller_class a) c =
       gbind (is_a_ref m l names object (al_controller_class a)) (\<lambda>v. Done (v, c'))"
    using is_a_caches unfolding caches_def by blast
  then show "\<exists>c'. coherent m l names c' \<and> auth_visitor m l names a uid object (r, c) =
      gbind (decide_auth m l names a uid object)
        (\<lambda>d. case d of None \<Rightarrow> Done (True, r, c') | Some x \<Rightarrow> Done (False, x, c'))"
    by (intro exI [of _ c'])
      (auto simp: auth_visitor_def decide_auth_def gbind_def split: guarded.splits)
qed

lemma first_hit_Some:
  "first_hit decide at n i = Done (Some x) \<Longrightarrow>
   \<exists>j object. i \<le> j \<and> j < i + n \<and> at j = Done (Some object) \<and> decide object = Done (Some x) \<and>
     (\<forall>k. i \<le> k \<and> k < j \<longrightarrow> at k = Done None \<or> (\<exists>p. at k = Done (Some p) \<and> decide p = Done None))"
proof (induction n arbitrary: i)
  case (Suc n)
  obtain r where r: "at i = Done r"
    using Suc.prems by (auto simp: gbind_Done)
  show ?case
  proof (cases "r \<noteq> None \<and> decide (the r) \<noteq> Done None")
    case True
    then show ?thesis
      using Suc.prems r by (intro exI [of _ i]) (auto simp: gbind_Done split: option.splits)
  next
    case False
    then have here: "at i = Done None \<or> (\<exists>p. at i = Done (Some p) \<and> decide p = Done None)"
      using r by (cases r) auto
    then have "first_hit decide at n (Suc i) = Done (Some x)"
      using Suc.prems by auto
    then obtain j object where j: "Suc i \<le> j" "j < Suc i + n" "at j = Done (Some object)" "decide object = Done (Some x)"
      "\<forall>k. Suc i \<le> k \<and> k < j \<longrightarrow> at k = Done None \<or> (\<exists>p. at k = Done (Some p) \<and> decide p = Done None)"
      using Suc.IH by blast
    then have "\<forall>k. i \<le> k \<and> k < j \<longrightarrow> at k = Done None \<or> (\<exists>p. at k = Done (Some p) \<and> decide p = Done None)"
      using here by (metis le_antisym not_less_eq_eq)
    then show ?thesis
      using j by (intro exI [of _ j] exI [of _ object]) simp
  qed
qed simp

lemma first_hit_None:
  "first_hit decide at n i = Done None \<Longrightarrow> i \<le> k \<Longrightarrow> k < i + n \<Longrightarrow>
     at k = Done None \<or> (\<exists>p. at k = Done (Some p) \<and> decide p = Done None)"
proof (induction n arbitrary: i)
  case (Suc n)
  obtain r where r: "at i = Done r"
    using Suc.prems by (auto simp: gbind_Done)
  then have here: "at i = Done None \<or> (\<exists>p. at i = Done (Some p) \<and> decide p = Done None)"
    using Suc.prems(1) by (cases r) (auto simp: gbind_Done split: option.splits)
  then have "first_hit decide at n (Suc i) = Done None"
    using Suc.prems(1) by auto
  then show ?case
    using Suc.IH [of "Suc i"] Suc.prems(2,3) here by (cases "k = i") auto
qed simp

lemma decide_auth_Some:
  "decide_auth m l names a uid controller = Done (Some auth) \<longleftrightarrow>
     is_a_ref m l names controller (al_controller_class a) = Done True \<and>
     (\<exists>n. object_name m l names controller = Done n \<and> \<not> is_default_object n) \<and>
     controller_uid m a controller = Done (Some uid) \<and> controller_auth m a controller = Done auth"
  by (auto simp: decide_auth_def gbind_Done split: if_splits)

lemma controller_auth_Admin:
  "controller_auth m a controller = Done Admin \<longleftrightarrow>
     (\<exists>b. b \<noteq> 0 \<and> direct_read m (controller + al_badmin_offset a) 1 = Done (Some [b]))"
  by (auto simp: controller_auth_def gbind_Done direct_read_def split: option.splits list.splits if_splits)

lemma controller_auth_known: "controller_auth m a controller = Done x \<Longrightarrow> x \<noteq> Unknown"
  by (cases "direct_read m (controller + al_badmin_offset a) 1")
    (auto simp: controller_auth_def split: option.split_asm list.split_asm if_split_asm)


section \<open>Properties\<close>

text \<open>C34: The class-name cache is transparent: with any cache whose entries are right, looking for an
  object or a function gives, crashes included, exactly what the search without a cache gives (the
  first live object in array order that qualifies), and leaves a cache whose entries are right.\<close>

theorem object_search_cache_transparent:
  assumes "coherent m l names cache"
  shows "(\<exists>cache'. coherent m l names cache' \<and>
      find m l names base predicate cache =
        gbind (search m l (decide_find m l names base predicate)) (\<lambda>h. Done (case h of None \<Rightarrow> 0 | Some object \<Rightarrow> object, cache'))) \<and>
    (\<exists>cache'. coherent m l names cache' \<and>
      find_function m l names func_name outer_class cache =
        gbind (search m l (decide_function m l names func_name outer_class))
          (\<lambda>h. Done (case h of None \<Rightarrow> 0 | Some object \<Rightarrow> object, cache')))"
proof
  obtain k c where c: "coherent m l names c"
    "for_each m l (find_visitor m l names base predicate) (0, cache) =
       gbind (search m l (decide_find m l names base predicate)) (\<lambda>h. Done (k, (case h of None \<Rightarrow> 0 | Some x \<Rightarrow> x), c))"
    using find_search.for_each_search [OF assms] by blast
  then show "\<exists>cache'. coherent m l names cache' \<and>
      find m l names base predicate cache =
        gbind (search m l (decide_find m l names base predicate)) (\<lambda>h. Done (case h of None \<Rightarrow> 0 | Some object \<Rightarrow> object, cache'))"
    by (intro exI [of _ c]) (simp add: find_def gbind_def split: guarded.split)
  obtain k c where c: "coherent m l names c"
    "for_each m l (function_visitor m l names func_name outer_class) (0, cache) =
       gbind (search m l (decide_function m l names func_name outer_class)) (\<lambda>h. Done (k, (case h of None \<Rightarrow> 0 | Some x \<Rightarrow> x), c))"
    using function_search.for_each_search [OF assms] by blast
  then show "\<exists>cache'. coherent m l names cache' \<and>
      find_function m l names func_name outer_class cache =
        gbind (search m l (decide_function m l names func_name outer_class))
          (\<lambda>h. Done (case h of None \<Rightarrow> 0 | Some object \<Rightarrow> object, cache'))"
    by (intro exI [of _ c]) (simp add: find_function_def gbind_def split: guarded.split)
qed

text \<open>C13: The administrator check fails closed.  It answers \<open>Admin\<close> only when a live, non-default
  player controller whose player state carries the given identifier has a non-zero \<^verbatim>\<open>bAdmin\<close> byte,
  and no earlier object of the array is such a controller; it answers \<open>Player\<close> only for such a
  controller too; and when it answers \<open>Unknown\<close> for a configured layout, no object of the array is
  one.\<close>

theorem player_auth_fails_closed:
  assumes "coherent m l names cache" "resolve_player_auth m l names a uid cache = Done (auth, cache')"
  shows "if auth = Unknown
    then al_configured a \<longrightarrow>
      (\<forall>chunk_array num i controller. array_header m l = Done (Some (chunk_array, num)) \<and> i < num \<and>
         object_at m l chunk_array i = Done (Some controller) \<longrightarrow> decide_auth m l names a uid controller = Done None)
    else al_configured a \<and>
      (\<exists>chunk_array num i controller.
         array_header m l = Done (Some (chunk_array, num)) \<and> i < num \<and>
         object_at m l chunk_array i = Done (Some controller) \<and>
         is_a_ref m l names controller (al_controller_class a) = Done True \<and>
         controller_uid m a controller = Done (Some uid) \<and>
         (auth = Admin \<longrightarrow> (\<exists>b. b \<noteq> 0 \<and> direct_read m (controller + al_badmin_offset a) 1 = Done (Some [b]))) \<and>
         (\<forall>j < i. object_at m l chunk_array j = Done None \<or>
            (\<exists>p. object_at m l chunk_array j = Done (Some p) \<and> decide_auth m l names a uid p = Done None)))"
proof (cases "al_configured a")
  case True
  obtain k c where c: "for_each m l (auth_visitor m l names a uid) (Unknown, cache) =
       gbind (search m l (decide_auth m l names a uid)) (\<lambda>h. Done (k, (case h of None \<Rightarrow> Unknown | Some x \<Rightarrow> x), c))"
    using auth_search.for_each_search [OF assms(1)] by blast
  then obtain h where h: "search m l (decide_auth m l names a uid) = Done h" "auth = (case h of None \<Rightarrow> Unknown | Some x \<Rightarrow> x)"
    using assms(2) True by (auto simp: resolve_player_auth_def gbind_Done)
  have known: "x \<noteq> Unknown" if "decide_auth m l names a uid p = Done (Some x)" for p x
    using that controller_auth_known unfolding decide_auth_Some by blast
  show ?thesis
  proof (cases h)
    case None
    have "decide_auth m l names a uid controller = Done None"
      if "array_header m l = Done (Some (chunk_array, num))" "i < num"
        "object_at m l chunk_array i = Done (Some controller)" for chunk_array num i controller
      using h(1) that first_hit_None [of "decide_auth m l names a uid" "object_at m l chunk_array" num 0 i] None
      by (auto simp: search_def)
    then show ?thesis
      using None h(2) by auto
  next
    case (Some x)
    then obtain chunk_array num where hd: "array_header m l = Done (Some (chunk_array, num))"
      "first_hit (decide_auth m l names a uid) (object_at m l chunk_array) num 0 = Done (Some x)"
      using h(1) by (auto simp: search_def gbind_Done split: option.split_asm)
    obtain i controller where "i < num" "object_at m l chunk_array i = Done (Some controller)"
      "decide_auth m l names a uid controller = Done (Some x)"
      "\<forall>j < i. object_at m l chunk_array j = Done None \<or>
            (\<exists>p. object_at m l chunk_array j = Done (Some p) \<and> decide_auth m l names a uid p = Done None)"
      using first_hit_Some [OF hd(2)] by auto
    then show ?thesis
      using Some h(2) hd(1) True known controller_auth_Admin [of m a controller]
      by (auto simp: decide_auth_Some)
  qed
qed (use assms(2) in \<open>simp add: resolve_player_auth_def\<close>)

text \<open>A memory with one controller, whose player is an administrator.\<close>

definition sample_world :: mem where
  "sample_world = image
     [(0xff8, [0, 0, 0, 0, 10, 0, 0, 0, 0x00, 0x20, 0, 0, 0, 0, 0, 0]),
      (0x2000, [0x00, 0x01, 0x4e, 0x6f, 0x6e, 0x65, 0x80, 0x00, 0x41, 0x62]),
      (0x3000, [0, 0x31, 0, 0, 0, 0, 0, 0]), (0x3014, [1, 0, 0, 0]),
      (0x3100, [0, 0x32, 0, 0, 0, 0, 0, 0]), (0x3200, [0, 0x33, 0, 0, 0, 0, 0, 0]),
      (0x3310, [0, 0x34, 0, 0, 0, 0, 0, 0, 3, 0, 0, 0, 0, 0, 0, 0, 0, 0x35, 0, 0, 0, 0, 0, 0, 1]),
      (0x3418, [3, 0, 0, 0]),
      (0x3500, [1, 2, 3, 4, 5, 6, 7, 8, 9, 10, 11, 12, 13, 14, 15, 16])]"

definition sample_layout :: object_layout where
  "sample_layout = layout_default\<lparr>ol_objects_va := 0x3000\<rparr>"

definition sample_admin :: admin_layout where
  "sample_admin = \<lparr>al_controller_class = ''Ab'', al_player_state_offset = 0x20, al_player_uid_offset = 0, al_badmin_offset = 0x28\<rparr>"

lemma sample_world_bytes:
  "mem_bytes sample_world 0x1000 8 = Some [0, 0x20, 0, 0, 0, 0, 0, 0]"
  "mem_bytes sample_world 0x2006 2 = Some [0x80, 0]"
  "mem_bytes sample_world 0x2008 2 = Some [0x41, 0x62]"
  "mem_bytes sample_world 0x3000 8 = Some [0, 0x31, 0, 0, 0, 0, 0, 0]"
  "mem_bytes sample_world 0x3014 4 = Some [1, 0, 0, 0]"
  "mem_bytes sample_world 0x3100 8 = Some [0, 0x32, 0, 0, 0, 0, 0, 0]"
  "mem_bytes sample_world 0x3200 8 = Some [0, 0x33, 0, 0, 0, 0, 0, 0]"
  "mem_bytes sample_world 0x3310 8 = Some [0, 0x34, 0, 0, 0, 0, 0, 0]"
  "mem_bytes sample_world 0x3318 4 = Some [3, 0, 0, 0]"
  "mem_bytes sample_world 0x3320 8 = Some [0, 0x35, 0, 0, 0, 0, 0, 0]"
  "mem_bytes sample_world 0x3328 1 = Some [1]"
  "mem_bytes sample_world 0x3418 4 = Some [3, 0, 0, 0]"
  "mem_bytes sample_world 0x3500 16 = Some [1, 2, 3, 4, 5, 6, 7, 8, 9, 10, 11, 12, 13, 14, 15, 16]"
  by (simp_all add: sample_world_def image_reads del: image.simps mem_bytes.simps)

lemma sample_world_name: "fname_resolve sample_world 0x1000 3 = Done ''Ab''"
  by (simp add: fname_resolve_def entry_text_def direct_u64_def direct_u16_def direct_read_def sample_world_bytes
      u64_of_def u16_of_def kCanonicalLimit_def header_len_def header_wide_def kMaxNameLen_def
      latin1_utf8_def byte_char8_def char_of_eq_code)

lemma sample_world_flag: "mem_bytes sample_world 0x3328 (Suc 0) = Some [1]"
  using sample_world_bytes(11) by (simp del: mem_bytes.simps)

lemma sample_world_auth:
  "resolve_player_auth sample_world sample_layout 0x1000 sample_admin
     [1, 2, 3, 4, 5, 6, 7, 8, 9, 10, 11, 12, 13, 14, 15, 16] (\<lambda>_. None) = Done (Admin, [0x3400 \<mapsto> ''Ab''])"
  by (simp add: resolve_player_auth_def al_configured_def sample_admin_def for_each_def array_header_def
      ol_configured_def sample_layout_def layout_default_def direct_u64_def direct_i32_def direct_read_def
      kCanonicalLimit_def kMaxObjects_def u64_of_def u32_of_def sample_world_bytes object_at_def
      auth_visitor_def is_a_def class_name_def name_at_def sample_world_name object_name_def is_default_object_def
      controller_uid_def controller_auth_def sample_world_flag del: mem_bytes.simps)

theorem object_search_cache_transparent_witness:
  "\<exists>cache'. coherent sample_world sample_layout 0x1000 cache' \<and>
     find_function sample_world sample_layout 0x1000 ''Ab'' [] (\<lambda>_. None) =
       gbind (search sample_world sample_layout (decide_function sample_world sample_layout 0x1000 ''Ab'' []))
         (\<lambda>h. Done (case h of None \<Rightarrow> 0 | Some object \<Rightarrow> object, cache'))"
  using object_search_cache_transparent [OF coherent_empty] by blast

theorem player_auth_fails_closed_witness:
  "\<exists>chunk_array num i controller.
     array_header sample_world sample_layout = Done (Some (chunk_array, num)) \<and> i < num \<and>
     object_at sample_world sample_layout chunk_array i = Done (Some controller) \<and>
     (\<exists>b. b \<noteq> 0 \<and> direct_read sample_world (controller + al_badmin_offset sample_admin) 1 = Done (Some [b]))"
  using player_auth_fails_closed [OF coherent_empty sample_world_auth]
  by (simp only: auth_state.distinct if_False) blast

end
