(* ===== verification/Palmod_Reflection.thy ===== *)
theory Palmod_Reflection
  imports Palmod_Parms_Decode Palmod_Object_Array
begin

text \<open>
  Reading the engine's reflection data: the layout of a struct or function from its property list
  (\<^verbatim>\<open>native/src/reflect_layout.cpp\<close>), and the queries plug-ins make of live objects
  (\<^verbatim>\<open>native/src/reflection_reader.cpp\<close>).

  The pointers are read fault-safely, the names through the name pool, whose reads are direct, so
  the readers are \<open>guarded\<close>.  A nested struct is read one level deeper; \<open>layout_levels\<close> counts the
  levels that are left (\<open>9 - depth\<close>), so the bound of the code is the recursion itself.
\<close>

section \<open>The layout of a struct\<close>

definition kMaxDepth :: nat where "kMaxDepth = 8"
definition kMaxFields :: nat where "kMaxFields = 512"

definition looks_like_pointer :: "u64 \<Rightarrow> bool" where
  "looks_like_pointer value \<longleftrightarrow> drop_bit 40 value = 0x7f"

definition read_u32 :: "mem \<Rightarrow> u64 \<Rightarrow> u32" where
  "read_u32 m va = (case try_read_bytes m va 4 of None \<Rightarrow> 0 | Some bs \<Rightarrow> u32_of bs)"

definition read_pointer :: "mem \<Rightarrow> u64 \<Rightarrow> u64" where
  "read_pointer m va = or_zero (try_read_u64 m va)"

definition type_name :: "mem \<Rightarrow> u64 \<Rightarrow> u64 \<Rightarrow> string guarded" where
  "type_name m names field_va =
     (case try_read_u64 m (field_va + 0x08) of
        None \<Rightarrow> Done []
      | Some ffield_class \<Rightarrow> if ffield_class = 0 then Done [] else fname_resolve m names (read_u32 m ffield_class))"

record struct_layout =
  sl_fields :: "param_spec list"
  sl_size :: u64

text \<open>The element type, the element size and the nested fields of one property.\<close>

definition nested_fields :: "(u64 \<Rightarrow> param_spec list guarded) \<Rightarrow> mem \<Rightarrow> u64 \<Rightarrow> param_spec list guarded" where
  "nested_fields nested m ref_va =
     (let struct_ref = read_pointer m ref_va
      in if looks_like_pointer struct_ref then nested struct_ref else Done [])"

definition array_inner ::
  "(u64 \<Rightarrow> param_spec list guarded) \<Rightarrow> mem \<Rightarrow> u64 \<Rightarrow> u64 \<Rightarrow> (string \<times> u64 \<times> param_spec list) guarded" where
  "array_inner nested m names field =
     (let inner = read_pointer m (field + 0x78)
      in if looks_like_pointer inner then
           gbind (type_name m names inner) (\<lambda>inner_type.
             gbind (if inner_type = ''StructProperty'' then nested_fields nested m (inner + 0x78) else Done []) (\<lambda>fields.
               Done (inner_type, ucast (read_u32 m (inner + 0x38)), fields)))
         else Done ([], 0, []))"

definition read_property :: "(u64 \<Rightarrow> param_spec list guarded) \<Rightarrow> mem \<Rightarrow> u64 \<Rightarrow> u64 \<Rightarrow> param_spec guarded" where
  "read_property nested m names field =
     gbind (type_name m names field) (\<lambda>type.
       gbind (fname_resolve m names (read_u32 m (field + 0x28))) (\<lambda>name.
         let offset = ucast (read_u32 m (field + 0x4c))
         in if type = ''StructProperty'' then
              gbind (nested_fields nested m (field + 0x78)) (\<lambda>fields. Done (ParamSpec name type offset [] 0 fields))
            else if type = ''ArrayProperty'' then
              gbind (array_inner nested m names field) (\<lambda>(inner_type, inner_size, fields).
                Done (ParamSpec name type offset inner_type inner_size fields))
            else Done (ParamSpec name type offset [] 0 [])))"

fun walk_fields ::
  "(u64 \<Rightarrow> param_spec list guarded) \<Rightarrow> mem \<Rightarrow> u64 \<Rightarrow> nat \<Rightarrow> u64 \<Rightarrow> struct_layout \<Rightarrow> struct_layout guarded" where
  "walk_fields nested m names 0 field layout = Done layout"
| "walk_fields nested m names (Suc left) field layout =
     (if \<not> looks_like_pointer field then Done layout
      else gbind (read_property nested m names field) (\<lambda>spec.
        let stop = ps_offset spec + ucast (read_u32 m (field + 0x38))
        in walk_fields nested m names left (read_pointer m (field + 0x20))
             \<lparr>sl_fields = sl_fields layout @ [spec],
              sl_size = (if sl_size layout < stop then stop else sl_size layout)\<rparr>))"

definition round16 :: "u64 \<Rightarrow> u64" where
  "round16 n = (n + 15) AND NOT 15"

fun layout_levels :: "mem \<Rightarrow> u64 \<Rightarrow> nat \<Rightarrow> u64 \<Rightarrow> struct_layout guarded" where
  "layout_levels m names 0 struct_va = Done \<lparr>sl_fields = [], sl_size = 0\<rparr>"
| "layout_levels m names (Suc levels) struct_va =
     (if struct_va = 0 then Done \<lparr>sl_fields = [], sl_size = 0\<rparr>
      else gbind (walk_fields (\<lambda>va. gbind (layout_levels m names levels va) (\<lambda>l. Done (sl_fields l))) m names kMaxFields
                    (read_pointer m (struct_va + 0x50)) \<lparr>sl_fields = [], sl_size = 0\<rparr>) (\<lambda>layout.
             Done (layout\<lparr>sl_size := round16 (sl_size layout)\<rparr>)))"

definition read_struct_layout :: "mem \<Rightarrow> u64 \<Rightarrow> u64 \<Rightarrow> nat \<Rightarrow> struct_layout guarded" where
  "read_struct_layout m names struct_va depth = layout_levels m names (Suc kMaxDepth - depth) struct_va"

fun property_search :: "mem \<Rightarrow> u64 \<Rightarrow> string \<Rightarrow> u64 \<Rightarrow> nat \<Rightarrow> u64 \<Rightarrow> param_spec option guarded" where
  "property_search m names name super_offset 0 level = Done None"
| "property_search m names name super_offset (Suc left) level =
     (if \<not> looks_like_pointer level then Done None
      else gbind (read_struct_layout m names level 0) (\<lambda>layout.
        case List.find (\<lambda>field. ps_name field = name) (sl_fields layout) of
          Some field \<Rightarrow> Done (Some field)
        | None \<Rightarrow>
            if super_offset = 0 then Done None
            else (case try_read_u64 m (level + super_offset) of
                    None \<Rightarrow> Done None
                  | Some super \<Rightarrow> property_search m names name super_offset left super)))"

definition find_property :: "mem \<Rightarrow> u64 \<Rightarrow> string \<Rightarrow> u64 \<Rightarrow> u64 \<Rightarrow> param_spec option guarded" where
  "find_property m struct_va name names super_offset =
     property_search m names name super_offset (kMaxDepth * 8 + 1) struct_va"


section \<open>Queries on live objects\<close>

definition reader_enabled :: "object_layout \<Rightarrow> u64 \<Rightarrow> bool" where
  "reader_enabled l names \<longleftrightarrow> ol_configured l \<and> names \<noteq> 0"

definition find_object :: "mem \<Rightarrow> object_layout \<Rightarrow> u64 \<Rightarrow> string \<Rightarrow> string \<Rightarrow> u64 guarded" where
  "find_object m l names cls name =
     (if \<not> reader_enabled l names \<or> cls = [] then Done 0
      else gbind (find m l names cls
                    (\<lambda>obj. if name = [] then Done True
                            else gbind (object_name m l names obj) (\<lambda>n. Done (n = name))) (\<lambda>_. None)) (\<lambda>r. Done (fst r)))"

definition all_visitor :: "mem \<Rightarrow> object_layout \<Rightarrow> u64 \<Rightarrow> string \<Rightarrow> nat \<Rightarrow> (u64 list \<times> class_cache) visitor" where
  "all_visitor m l names cls limit obj s =
     gbind (is_a m l names obj cls (snd s)) (\<lambda>(isa, cache).
       if \<not> isa then Done (True, (fst s, cache))
       else gbind (object_name m l names obj) (\<lambda>name.
         if is_default_object name then Done (True, (fst s, cache))
         else Done (length (fst s @ [obj]) < limit, (fst s @ [obj], cache))))"

definition find_all_of :: "mem \<Rightarrow> object_layout \<Rightarrow> u64 \<Rightarrow> string \<Rightarrow> nat \<Rightarrow> u64 list guarded" where
  "find_all_of m l names cls limit =
     (if \<not> reader_enabled l names \<or> cls = [] \<or> limit = 0 then Done []
      else gbind (for_each m l (all_visitor m l names cls limit) ([], \<lambda>_. None)) (\<lambda>r. Done (fst (snd r))))"

definition get_property :: "mem \<Rightarrow> object_layout \<Rightarrow> u64 \<Rightarrow> u64 \<Rightarrow> string \<Rightarrow> event_arg option guarded" where
  "get_property m l names obj prop =
     (if \<not> reader_enabled l names \<or> obj = 0 then Done None
      else (case try_read_u64 m (obj + ol_class_offset l) of
              None \<Rightarrow> Done None
            | Some class_va \<Rightarrow>
                if class_va = 0 then Done None
                else gbind (find_property m class_va prop names (ol_super_offset l)) (\<lambda>r.
                  case r of
                    None \<Rightarrow> Done None
                  | Some spec \<Rightarrow>
                      gbind (decode_parms m obj [spec] (Some (fname_resolve m names))) (\<lambda>decoded.
                        Done (case decoded of [] \<Rightarrow> None | a # _ \<Rightarrow> Some a)))))"

definition class_of :: "mem \<Rightarrow> object_layout \<Rightarrow> u64 \<Rightarrow> u64 \<Rightarrow> string guarded" where
  "class_of m l names obj =
     (if \<not> reader_enabled l names \<or> obj = 0 then Done []
      else gbind (class_name m l names obj (\<lambda>_. None)) (\<lambda>r. Done (fst r)))"

fun table_rows :: "mem \<Rightarrow> u64 \<Rightarrow> nat \<Rightarrow> u64 \<Rightarrow> nat \<Rightarrow> string list \<Rightarrow> string list guarded" where
  "table_rows m names limit element 0 rows = Done rows"
| "table_rows m names limit element (Suc left) rows =
     (if limit \<le> length rows then Done rows
      else let comparison_index = (case try_read_bytes m element 4 of None \<Rightarrow> 0 | Some bs \<Rightarrow> u32_of bs)
           in if comparison_index = 0 then table_rows m names limit (element + 0x18) left rows
              else gbind (fname_resolve m names comparison_index) (\<lambda>name.
                     table_rows m names limit (element + 0x18) left (if name = [] then rows else rows @ [name])))"

definition datatable_rows :: "mem \<Rightarrow> object_layout \<Rightarrow> u64 \<Rightarrow> u64 \<Rightarrow> nat \<Rightarrow> string list guarded" where
  "datatable_rows m l names datatable limit =
     (if \<not> reader_enabled l names \<or> datatable = 0 \<or> limit = 0 then Done []
      else (case try_read_bytes m (datatable + 0x30) 8 of
              None \<Rightarrow> Done []
            | Some d \<Rightarrow>
                if u64_of d = 0 then Done []
                else (case try_read_bytes m (datatable + 0x30 + 0xc) 4 of
                        None \<Rightarrow> Done []
                      | Some c \<Rightarrow>
                          if sint (u32_of c) \<le> 0 then Done []
                          else table_rows m names limit (u64_of d) (nat (min (sint (u32_of c)) 200000)) [])))"

section \<open>Lemmas\<close>

definition names_crash :: "mem \<Rightarrow> u64 \<Rightarrow> bool" where
  "names_crash m names \<longleftrightarrow> (\<exists>index. fname_resolve m names index = Crash)"

lemma fname_resolve_guaranteed: "guaranteed (names_crash m names) (\<lambda>_. True) (fname_resolve m names index)"
  by (auto simp: guaranteed_def names_crash_def split: guarded.splits)

lemma type_name_guaranteed: "guaranteed (names_crash m names) (\<lambda>_. True) (type_name m names field)"
  using fname_resolve_guaranteed by (simp add: type_name_def split: option.split)

text \<open>At most 512 fields on each of the given number of levels.\<close>

fun bounded_fields :: "nat \<Rightarrow> param_spec list \<Rightarrow> bool" where
  "bounded_fields 0 params = (params = [])"
| "bounded_fields (Suc levels) params =
     (length params \<le> kMaxFields \<and> (\<forall>p \<in> set params. bounded_fields levels (ps_fields p)))"

lemma bounded_fields_Nil [simp]: "bounded_fields levels []"
  by (cases levels) simp_all

lemma unat_ucast_32_64_less: "unat (ucast (w :: u32) :: u64) < 2 ^ 32"
  using unat_u32 [of w] by (simp add: unat_ucast_32_64)

definition nested_ok :: "mem \<Rightarrow> u64 \<Rightarrow> nat \<Rightarrow> (u64 \<Rightarrow> param_spec list guarded) \<Rightarrow> bool" where
  "nested_ok m names levels nested \<longleftrightarrow> (\<forall>va. guaranteed (names_crash m names) (bounded_fields levels) (nested va))"

lemma nested_fields_guaranteed:
  "nested_ok m names levels nested \<Longrightarrow> guaranteed (names_crash m names) (bounded_fields levels) (nested_fields nested m va)"
  by (simp add: nested_fields_def nested_ok_def Let_def)

lemma array_inner_guaranteed:
  assumes "nested_ok m names levels nested"
  shows "guaranteed (names_crash m names) (\<lambda>(_, _, fields). bounded_fields levels fields) (array_inner nested m names field)"
proof -
  have *: "guaranteed (names_crash m names) (bounded_fields levels)
      (if type = ''StructProperty'' then nested_fields nested m va else Done [])" for type va
    using nested_fields_guaranteed [OF assms] by simp
  show ?thesis
    unfolding array_inner_def Let_def
    by (auto intro!: guaranteed_gbind [OF type_name_guaranteed] guaranteed_gbind [OF *])
qed

lemma read_property_guaranteed:
  assumes "nested_ok m names levels nested"
  shows "guaranteed (names_crash m names) (\<lambda>p. bounded_fields levels (ps_fields p) \<and> unat (ps_offset p) < 2 ^ 32)
    (read_property nested m names field)"
  unfolding read_property_def Let_def
  by (rule guaranteed_gbind [OF type_name_guaranteed], rule guaranteed_gbind [OF fname_resolve_guaranteed])
    (auto simp: unat_ucast_32_64_less [simplified]
      intro: guaranteed_gbind [OF nested_fields_guaranteed [OF assms]] guaranteed_gbind [OF array_inner_guaranteed [OF assms]])

definition layout_ok :: "nat \<Rightarrow> struct_layout \<Rightarrow> bool" where
  "layout_ok levels layout \<longleftrightarrow>
     (\<forall>p \<in> set (sl_fields layout). bounded_fields levels (ps_fields p) \<and> ps_offset p \<le> sl_size layout) \<and>
     unat (sl_size layout) < 2 ^ 33"

lemma walk_fields_guaranteed:
  assumes "nested_ok m names levels nested"
  shows "layout_ok levels layout \<Longrightarrow>
    guaranteed (names_crash m names)
      (\<lambda>l. layout_ok levels l \<and> length (sl_fields l) \<le> length (sl_fields layout) + left)
      (walk_fields nested m names left field layout)"
proof (induction left arbitrary: field layout)
  case (Suc left)
  show ?case
  proof (cases "looks_like_pointer field")
    case True
    have step: "layout_ok levels \<lparr>sl_fields = sl_fields layout @ [p], sl_size = if sl_size layout < e then e else sl_size layout\<rparr>"
      if "bounded_fields levels (ps_fields p) \<and> unat (ps_offset p) < 2 ^ 32" "e = ps_offset p + ucast (w :: u32)" for p e w
    proof -
      have "unat e = unat (ps_offset p) + unat w" "unat e < 2 ^ 33"
        using that unat_u32 [of w] by (simp_all add: unat_word_ariths(1) unat_ucast_32_64)
      then show ?thesis
        using Suc.prems that by (auto simp: layout_ok_def word_le_nat_alt word_less_nat_alt not_less)
    qed
    show ?thesis
      using True by (simp add: Let_def)
        (rule guaranteed_gbind [OF read_property_guaranteed [OF assms]],
          rule guaranteed_mono [OF Suc.IH [OF step]], auto)
  qed (use Suc.prems in simp)
qed simp

lemma numeral_15_mask: "(15 :: u64) = mask 4"
  by (simp add: mask_eq_exp_minus_1)

lemma round16_unat: "unat n < 2 ^ 33 \<Longrightarrow> unat n \<le> unat (round16 n) \<and> 16 dvd unat (round16 n)"
proof -
  assume n: "unat n < 2 ^ 33"
  have "round16 n = push_bit 4 (drop_bit 4 (n + 15))"
    unfolding round16_def by (subst numeral_15_mask) (rule bit_word_eqI, auto simp: bit_simps)
  moreover have "unat (n + 15) = unat n + 15"
    using n by (simp add: unat_word_ariths(1))
  ultimately have "unat (round16 n) = 16 * ((unat n + 15) div 16)"
    using n by (simp add: push_bit_eq_mult drop_bit_eq_div unat_word_ariths(2) unat_div_distrib)
  then show ?thesis by simp
qed

lemma layout_levels_guaranteed:
  "guaranteed (names_crash m names)
     (\<lambda>l. bounded_fields levels (sl_fields l) \<and> 16 dvd unat (sl_size l) \<and> (\<forall>p \<in> set (sl_fields l). ps_offset p \<le> sl_size l))
     (layout_levels m names levels va)"
proof (induction levels arbitrary: va)
  case (Suc levels)
  let ?nested = "\<lambda>va. gbind (layout_levels m names levels va) (\<lambda>l. Done (sl_fields l))"
  have nested: "nested_ok m names levels ?nested"
    unfolding nested_ok_def by (auto intro: guaranteed_gbind [OF Suc.IH])
  have "layout_ok levels \<lparr>sl_fields = [], sl_size = 0\<rparr>"
    by (simp add: layout_ok_def)
  note walk = walk_fields_guaranteed [OF nested this, of kMaxFields]
  show ?case
    by simp (intro impI, rule guaranteed_gbind [OF walk], use round16_unat in \<open>fastforce simp: layout_ok_def word_le_nat_alt\<close>)
qed simp


lemma property_search_guaranteed:
  "guaranteed (names_crash m names) (\<lambda>r. \<forall>p. r = Some p \<longrightarrow> ps_name p = name)
     (property_search m names name super_offset left level)"
proof (induction left arbitrary: level)
  case (Suc left)
  show ?case
  proof (cases "looks_like_pointer level")
    case True
    show ?thesis
      unfolding property_search.simps read_struct_layout_def not_not if_not_P [of "\<not> looks_like_pointer level", unfolded not_not, OF True]
      by (rule guaranteed_gbind [OF layout_levels_guaranteed])
        (use Suc.IH in \<open>auto simp: find_Some_iff split: option.split\<close>)
  qed simp
qed simp

lemma decode_one_name:
  "guaranteed (names_crash m names) (\<lambda>args. \<forall>a \<in> set args. ea_name a = ps_name p)
     (decode_parms m obj [p] (Some (fname_resolve m names)))"
proof -
  have "guaranteed (resolver_crashes (Some (fname_resolve m names))) (\<lambda>args. \<forall>a \<in> set args. ea_name a = ps_name p)
      (decode_fields m (Some (fname_resolve m names)) obj [p] 0)"
    by (rule guaranteed_mono [OF decode_shape(1)]) (auto split: if_splits list.splits)
  then show ?thesis
    by (simp add: decode_parms_def resolver_crashes_def names_crash_def)
qed


section \<open>All objects of a class\<close>

definition qualifies :: "mem \<Rightarrow> object_layout \<Rightarrow> u64 \<Rightarrow> string \<Rightarrow> u64 \<Rightarrow> bool" where
  "qualifies m l names cls object \<longleftrightarrow>
     is_a_ref m l names object cls = Done True \<and>
     (\<exists>n. object_name m l names object = Done n \<and> \<not> is_default_object n)"

definition live_at :: "mem \<Rightarrow> object_layout \<Rightarrow> u64 \<Rightarrow> nat \<Rightarrow> u64 option" where
  "live_at m l chunk_array i = (case object_at m l chunk_array i of Crash \<Rightarrow> None | Done r \<Rightarrow> r)"

definition live_objects :: "mem \<Rightarrow> object_layout \<Rightarrow> u64 list" where
  "live_objects m l =
     (case array_header m l of
        Done (Some (chunk_array, num)) \<Rightarrow> List.map_filter (live_at m l chunk_array) [0..<num]
      | _ \<Rightarrow> [])"

lemma all_visitor_Done:
  assumes "coherent m l names c" "all_visitor m l names cls limit object (found, c) = Done (go, found', c')"
  shows "coherent m l names c' \<and>
    (if qualifies m l names cls object then found' = found @ [object] \<and> go = (length found' < limit)
     else found' = found \<and> go)"
proof -
  obtain c1 where c1: "coherent m l names c1"
    "is_a m l names object cls c = gbind (is_a_ref m l names object cls) (\<lambda>v. Done (v, c1))"
    using is_a_caches [OF assms(1)] unfolding caches_def by blast
  then show ?thesis
    using assms(2) by (auto simp: all_visitor_def gbind_Done qualifies_def split: if_split_asm)
qed

lemma each_loop_all:
  assumes "coherent m l names c" "length found < limit"
    "each_loop m l chunk_array (all_visitor m l names cls limit) n i v (found, c) = Done (v', found', c')"
  shows "found' = take limit (found @ filter (qualifies m l names cls) (List.map_filter (live_at m l chunk_array) [i..<i + n]))"
  using assms
proof (induction n arbitrary: i v found c)
  case (Suc n)
  have upt: "[i..<Suc (i + n)] = i # [Suc i..<Suc (i + n)]"
    by (rule upt_conv_Cons) simp
  obtain r where r: "object_at m l chunk_array i = Done r"
    using Suc.prems(3) by (auto simp: gbind_Done)
  then have live: "live_at m l chunk_array i = r"
    by (simp add: live_at_def)
  show ?case
  proof (cases r)
    case None
    then show ?thesis
      using Suc.prems r Suc.IH [of c found "Suc i" v] by (simp add: upt map_filter_simps live del: upt_Suc)
  next
    case (Some object)
    obtain go found1 c1 where visit: "all_visitor m l names cls limit object (found, c) = Done (go, found1, c1)"
      using Suc.prems(3) r Some by (auto simp: gbind_Done)
    note step = all_visitor_Done [OF Suc.prems(1) visit]
    show ?thesis
    proof (cases go)
      case True
      then have "each_loop m l chunk_array (all_visitor m l names cls limit) n (Suc i) (v + 1) (found1, c1) = Done (v', found', c')"
        using Suc.prems(3) r Some visit by simp
      then show ?thesis
        using Suc.IH [of c1 found1 "Suc i" "v + 1"] step True Suc.prems(2) r Some
        by (simp add: upt map_filter_simps live take_Cons' split: if_split_asm del: upt_Suc)
    next
      case False
      then show ?thesis
        using Suc.prems r Some visit step
        by (auto simp: upt map_filter_simps live take_Cons' split: if_split_asm simp del: upt_Suc)
    qed
  qed
qed (simp add: map_filter_simps)


section \<open>Properties\<close>

text \<open>C35: Reading a layout is fault-safe and bounded: whatever the memory holds, the walk crashes only
  if the name pool does; a layout has at most 512 fields on each of at most nine levels, its size is
  a multiple of 16 and covers the offset of every field.\<close>

theorem read_struct_layout_bounded:
  "case read_struct_layout m names struct_va depth of
     Crash \<Rightarrow> names_crash m names
   | Done layout \<Rightarrow>
       bounded_fields (Suc kMaxDepth - depth) (sl_fields layout) \<and> 16 dvd unat (sl_size layout) \<and>
       list_all (\<lambda>p. ps_offset p \<le> sl_size layout) (sl_fields layout)"
  using layout_levels_guaranteed [of m names "Suc kMaxDepth - depth" struct_va]
  by (simp add: read_struct_layout_def guaranteed_def list_all_iff split: guarded.splits)

text \<open>Reading a property of an object crashes only if the name pool does, and the value it
  returns carries the name that was asked for.\<close>

theorem get_property_named:
  "case get_property m l names obj prop of
     Crash \<Rightarrow> names_crash m names
   | Done r \<Rightarrow> (case r of None \<Rightarrow> True | Some a \<Rightarrow> ea_name a = prop)"
proof -
  have "guaranteed (names_crash m names) (\<lambda>r. case r of None \<Rightarrow> True | Some a \<Rightarrow> ea_name a = prop)
      (gbind (find_property m class_va prop names (ol_super_offset l)) (\<lambda>r.
         case r of
           None \<Rightarrow> Done None
         | Some spec \<Rightarrow>
             gbind (decode_parms m obj [spec] (Some (fname_resolve m names))) (\<lambda>decoded.
               Done (case decoded of [] \<Rightarrow> None | a # _ \<Rightarrow> Some a))))" for class_va
    unfolding find_property_def
    by (rule guaranteed_gbind [OF property_search_guaranteed])
      (auto split: option.split list.split intro!: guaranteed_gbind [OF decode_one_name])
  then show ?thesis
    by (auto simp: get_property_def guaranteed_def split: option.split)
qed

text \<open>Asking for the objects of a class gives the first ones, in array order and no more than
  asked for, of the live objects that are of the class and are not class default objects.\<close>

theorem find_all_of_prefix:
  assumes "find_all_of m l names cls limit = Done objects"
  shows "objects =
    (if reader_enabled l names \<and> cls \<noteq> [] then take limit (filter (qualifies m l names cls) (live_objects m l)) else [])"
proof (cases "reader_enabled l names \<and> cls \<noteq> [] \<and> limit \<noteq> 0")
  case True
  then obtain v c where loop: "for_each m l (all_visitor m l names cls limit) ([], \<lambda>_. None) = Done (v, objects, c)"
    using assms by (auto simp: find_all_of_def gbind_Done)
  show ?thesis
  proof (cases "\<exists>chunk_array num. array_header m l = Done (Some (chunk_array, num))")
    case header: True
    then obtain chunk_array num where h: "array_header m l = Done (Some (chunk_array, num))" by blast
    then have "objects = take limit ([] @ filter (qualifies m l names cls)
        (List.map_filter (live_at m l chunk_array) [0..<0 + num]))"
      using loop True by (intro each_loop_all [OF coherent_empty]) (auto simp: for_each_def)
    then show ?thesis
      using True h by (simp add: live_objects_def)
  next
    case False
    moreover obtain h where "array_header m l = Done h"
      using loop by (auto simp: for_each_def gbind_Done)
    ultimately have "array_header m l = Done None"
      by (cases h) auto
    then show ?thesis
      using loop by (simp add: for_each_def live_objects_def)
  qed
qed (use assms in \<open>auto simp: find_all_of_def\<close>)

lemma sample_world_all: "find_all_of sample_world sample_layout 0x1000 ''Ab'' 5 = Done [0x3300]"
  by (simp add: find_all_of_def reader_enabled_def for_each_def array_header_def
      ol_configured_def sample_layout_def layout_default_def direct_u64_def direct_i32_def direct_read_def
      kCanonicalLimit_def kMaxObjects_def u64_of_def u32_of_def sample_world_bytes object_at_def
      del: mem_bytes.simps)
    (simp add: all_visitor_def is_a_def class_name_def name_at_def sample_world_name object_name_def
      is_default_object_def direct_u64_def direct_i32_def direct_read_def sample_world_bytes
      kCanonicalLimit_def u64_of_def u32_of_def del: mem_bytes.simps)

text \<open>A plug-in query is not fault-safe: with the object array unmapped, looking for an object ends the process.\<close>

lemma mem_bytes_unmapped: "n \<noteq> 0 \<Longrightarrow> mem_bytes (\<lambda>_. None) va n = None"
  by (cases n) simp_all

lemma find_object_unmapped: "find_object (\<lambda>_. None) sample_layout 0x1000 ''PalPlayerState'' [] = Crash"
  by (simp add: find_object_def reader_enabled_def ol_configured_def sample_layout_def layout_default_def find_def
      for_each_def array_header_def direct_u64_def direct_read_def kCanonicalLimit_def mem_bytes_unmapped)

end
