(* ===== verification/Palmod_Lua_Api.thy ===== *)
theory Palmod_Lua_Api
  imports Palmod_Reflection
begin

text \<open>
  The values that cross the border between the plug-in runtime and a plug-in's script
  (\<^verbatim>\<open>native/src/plugin_runtime.cpp\<close>), and the accounting of the memory and of the instructions
  a script may use.

  A Lua value is a tree.  A table is the list of its entries in the order \<^verbatim>\<open>lua_next\<close> gives them,
  with the length \<^verbatim>\<open>luaL_len\<close> reports, which a metamethod may have chosen.  Tables of a script can
  be cyclic; the conversion never looks below nine levels, so a value stands for its unfolding.
  \<^verbatim>\<open>lua_tostring\<close> hands a C string to the code, which ends at the first zero byte.
\<close>

section \<open>Values\<close>

datatype lua_value =
    LNil
  | LBool bool
  | LInt int
  | LNumber double
  | LString string
  | LFunction nat
  | LTable int "(lua_value \<times> lua_value) list"

definition c_str :: "string \<Rightarrow> string" where
  "c_str s = takeWhile (\<lambda>c. c \<noteq> CHR 0x00) s"

definition raw_geti :: "(lua_value \<times> lua_value) list \<Rightarrow> int \<Rightarrow> lua_value" where
  "raw_geti entries i = (case map_of entries (LInt i) of None \<Rightarrow> LNil | Some v \<Rightarrow> v)"

definition param_leaf :: "string \<Rightarrow> param_input" where
  "param_leaf name = ParamInput name False [] 0 False False []"

text \<open>Levels that are left below the current one: \<open>9 - depth\<close>.\<close>

fun parse_param_levels :: "nat \<Rightarrow> lua_value \<Rightarrow> string \<Rightarrow> param_input" where
  "parse_param_levels 0 v name = param_leaf name"
| "parse_param_levels (Suc levels) v name =
     (case v of
        LNumber n \<Rightarrow> ParamInput name False [] n False False []
      | LInt i \<Rightarrow> ParamInput name False [] (double_of_int i) False False []
      | LBool b \<Rightarrow> ParamInput name False [] (double_of_int (if b then 1 else 0)) False False []
      | LString s \<Rightarrow> ParamInput name True (c_str s) 0 False False []
      | LTable len entries \<Rightarrow>
          if raw_geti entries 1 \<noteq> LNil then
            ParamInput name False [] 0 True False
              (map (\<lambda>i. parse_param_levels levels (raw_geti entries (int i)) []) [1..<Suc (nat (min len 4096))])
          else
            ParamInput name False [] 0 False True
              (concat (map (\<lambda>(k, x).
                 case k of LString s \<Rightarrow> [parse_param_levels levels x (c_str s)] | _ \<Rightarrow> []) entries))
      | _ \<Rightarrow> param_leaf name)"

definition parse_param :: "lua_value \<Rightarrow> string \<Rightarrow> nat \<Rightarrow> param_input" where
  "parse_param v name depth = parse_param_levels (9 - depth) v name"

text \<open>Setting a field replaces the entry of an existing key.\<close>

fun raw_set :: "(lua_value \<times> lua_value) list \<Rightarrow> lua_value \<Rightarrow> lua_value \<Rightarrow> (lua_value \<times> lua_value) list" where
  "raw_set [] k v = [(k, v)]"
| "raw_set ((k', v') # es) k v = (if k' = k then (k, v) # es else (k', v') # raw_set es k v)"

definition set_fields :: "(string \<times> lua_value) list \<Rightarrow> lua_value" where
  "set_fields kvs = LTable 0 (foldl (\<lambda>es (k, v). raw_set es (LString (c_str k)) v) [] kvs)"

definition set_array :: "lua_value list \<Rightarrow> lua_value" where
  "set_array vs = LTable (int (length vs)) (zip (map (\<lambda>i. LInt (int i)) [1..<Suc (length vs)]) vs)"

fun push_event_arg :: "event_arg \<Rightarrow> lua_value" where
  "push_event_arg (EventArg name is_text text number is_array is_struct items) =
     (if is_struct then set_fields (map (\<lambda>a. (ea_name a, push_event_arg a)) items)
      else if is_array then set_array (map push_event_arg items)
      else if is_text then LString text
      else LNumber number)"

definition invocation_table :: "command_invocation \<Rightarrow> lua_value" where
  "invocation_table call = set_fields
     [(''command'', LString (ci_command call)), (''raw'', LString (ci_raw call)), (''player'', LString (ci_player call)),
      (''player_handle'', LInt (sint (ci_player_handle call))), (''is_admin'', LBool (ci_auth call = Admin)),
      (''principal'', LString (if ci_principal call = LocalOperator then ''local_operator'' else ''in_game_player'')),
      (''operator_uid'', LInt (uint (ci_operator_uid call))),
      (''args'', set_array (map LString (ci_args call)))]"

definition event_table :: "plugin_event \<Rightarrow> lua_value" where
  "event_table ev = set_fields
     [(''kind'', LString (pe_kind ev)), (''sequence'', LInt (sint (pe_sequence ev))), (''source'', LString (pe_source ev)),
      (''text'', LString (pe_text ev)), (''subject'', LString (pe_subject ev)), (''handle'', LInt (sint (pe_handle ev))),
      (''number'', LInt (sint (pe_number ev))),
      (''args'', set_fields (map (\<lambda>a. (ea_name a, push_event_arg a)) (pe_args ev)))]"


section \<open>Queries\<close>

text \<open>The reader is absent when the profile has no object-array facts.\<close>

type_synonym reader = "(object_layout \<times> u64) option"

definition lua_find_object :: "mem \<Rightarrow> reader \<Rightarrow> string \<Rightarrow> lua_value list \<Rightarrow> lua_value guarded" where
  "lua_find_object m reader cls more_args =
     (let name = (case more_args of LString s # _ \<Rightarrow> c_str s | _ \<Rightarrow> [])
      in gbind (case reader of None \<Rightarrow> Done 0 | Some (l, names) \<Rightarrow> find_object m l names (c_str cls) name) (\<lambda>obj.
           Done (if obj = 0 then LNil else LInt (sint obj))))"

definition clamp :: "int \<Rightarrow> int \<Rightarrow> nat" where
  "clamp n hi = nat (if n < 1 then 1 else if hi < n then hi else n)"

definition lua_find_all_of :: "mem \<Rightarrow> reader \<Rightarrow> string \<Rightarrow> int option \<Rightarrow> lua_value guarded" where
  "lua_find_all_of m reader cls limit =
     gbind (case reader of
              None \<Rightarrow> Done []
            | Some (l, names) \<Rightarrow>
                find_all_of m l names (c_str cls) (clamp (case limit of None \<Rightarrow> 256 | Some n \<Rightarrow> n) 4096)) (\<lambda>objects.
       Done (set_array (map (\<lambda>o'. LInt (sint o')) objects)))"

definition lua_get :: "mem \<Rightarrow> reader \<Rightarrow> int \<Rightarrow> string \<Rightarrow> lua_value guarded" where
  "lua_get m reader handle prop =
     gbind (case reader of None \<Rightarrow> Done None | Some (l, names) \<Rightarrow> get_property m l names (of_int handle) (c_str prop)) (\<lambda>r.
       Done (case r of None \<Rightarrow> LNil | Some a \<Rightarrow> push_event_arg a))"

definition lua_class_of :: "mem \<Rightarrow> reader \<Rightarrow> int \<Rightarrow> lua_value guarded" where
  "lua_class_of m reader handle =
     gbind (case reader of None \<Rightarrow> Done [] | Some (l, names) \<Rightarrow> class_of m l names (of_int handle)) (\<lambda>cls.
       Done (if cls = [] then LNil else LString (c_str cls)))"

definition lua_datatable_rows :: "mem \<Rightarrow> reader \<Rightarrow> string \<Rightarrow> int option \<Rightarrow> lua_value guarded" where
  "lua_datatable_rows m reader name limit =
     gbind (case reader of
              None \<Rightarrow> Done []
            | Some (l, names) \<Rightarrow>
                gbind (find_object m l names ''DataTable'' (c_str name)) (\<lambda>table.
                  if table = 0 then Done []
                  else datatable_rows m l names table (clamp (case limit of None \<Rightarrow> 4096 | Some n \<Rightarrow> n) 65536))) (\<lambda>rows.
       Done (set_array (map (\<lambda>r. LString (c_str r)) rows)))"


section \<open>Budgets\<close>

record allocator =
  al_used :: u64
  al_limit :: u64

text \<open>
  \<open>pointer\<close> is whether a block is passed; \<open>grow\<close> is whether \<^verbatim>\<open>realloc\<close> succeeds.  The answer is
  whether a block is returned.
\<close>

definition lua_allocate :: "bool \<Rightarrow> u64 \<Rightarrow> u64 \<Rightarrow> bool \<Rightarrow> allocator \<Rightarrow> bool \<times> allocator" where
  "lua_allocate pointer old_size new_size grow a =
     (let accounted_old = (if pointer then old_size else 0)
      in if new_size = 0 then
           (False, a\<lparr>al_used := (if al_used a < accounted_old then 0 else al_used a - accounted_old)\<rparr>)
         else if accounted_old < new_size \<and> al_limit a - al_used a < new_size - accounted_old then (False, a)
         else if \<not> grow then (False, a)
         else (True, a\<lparr>al_used := al_used a - accounted_old + new_size\<rparr>))"

definition kQuantum :: nat where "kQuantum = 1000"

text \<open>The hook runs every 1000 instructions; it answers whether the script goes on.\<close>

definition instruction_hook :: "nat \<Rightarrow> bool \<times> nat" where
  "instruction_hook remaining =
     (if remaining \<le> kQuantum then (False, 0) else (True, remaining - kQuantum))"


section \<open>Lemmas\<close>

text \<open>
  What Lua does with its allocator: it asks for a new block, passing a tag where the old size
  would be, it resizes or releases a block it holds, passing that block's size.
\<close>

datatype alloc_op =
    NewBlock u64 u64 bool
  | ResizeBlock nat u64 bool
  | ReleaseBlock nat

fun alloc_step :: "alloc_op \<Rightarrow> allocator \<times> u64 list \<Rightarrow> allocator \<times> u64 list" where
  "alloc_step (NewBlock tag n grow) (a, blocks) =
     (let (ok, a') = lua_allocate False tag n grow a in (a', if ok then blocks @ [n] else blocks))"
| "alloc_step (ResizeBlock i n grow) (a, blocks) =
     (if i < length blocks \<and> n \<noteq> 0
      then let (ok, a') = lua_allocate True (blocks ! i) n grow a in (a', if ok then blocks[i := n] else blocks)
      else (a, blocks))"
| "alloc_step (ReleaseBlock i) (a, blocks) =
     (if i < length blocks
      then (snd (lua_allocate True (blocks ! i) 0 True a), take i blocks @ drop (Suc i) blocks)
      else (a, blocks))"

definition accounted :: "u64 \<Rightarrow> allocator \<times> u64 list \<Rightarrow> bool" where
  "accounted limit s \<longleftrightarrow>
     al_limit (fst s) = limit \<and> unat (al_used (fst s)) = sum_list (map unat (snd s)) \<and> al_used (fst s) \<le> limit"

lemma lua_allocate_room:
  assumes "lua_allocate p old n grow a = (True, a')" "al_used a \<le> al_limit a" "p \<Longrightarrow> old \<le> al_used a"
  shows "al_limit a' = al_limit a \<and> al_used a' \<le> al_limit a \<and>
    unat (al_used a') = unat (al_used a) - (if p then unat old else 0) + unat n"
proof -
  let ?old = "if p then old else 0"
  have le: "?old \<le> al_used a" using assms(3) by simp
  have room: "unat n \<le> unat ?old \<or> unat n - unat ?old \<le> unat (al_limit a) - unat (al_used a)"
    using assms(1,2) le
    by (auto simp: lua_allocate_def Let_def word_le_nat_alt word_less_nat_alt unat_sub split: if_split_asm)
  have a': "a' = a\<lparr>al_used := al_used a - ?old + n\<rparr>"
    using assms(1) by (auto simp: lua_allocate_def Let_def split: if_split_asm)
  have "unat (al_used a - ?old) = unat (al_used a) - unat ?old"
    using le by (simp add: unat_sub)
  moreover have "unat (al_used a) - unat ?old + unat n \<le> unat (al_limit a)"
    using room assms(2) le by (auto simp: word_le_nat_alt)
  moreover have "unat (al_limit a) < 2 ^ 64"
    by (rule unat_u64)
  ultimately show ?thesis
    by (auto simp: a' unat_word_ariths(1) word_le_nat_alt)
qed

lemma sum_list_drop_nth:
  "i < length (xs :: nat list) \<Longrightarrow> sum_list (take i xs @ drop (Suc i) xs) = sum_list xs - xs ! i \<and> xs ! i \<le> sum_list xs"
  using id_take_nth_drop [of i xs] by (metis add_diff_cancel_left' add.left_commute le_add1 sum_list.Cons sum_list.append)

lemma sum_list_set_nth: "i < length (xs :: nat list) \<Longrightarrow> sum_list (xs[i := y]) = sum_list xs - xs ! i + y"
  using elem_le_sum_list [of i xs] by (simp add: sum_list_update)

lemma lua_allocate_refused: "lua_allocate p old n grow a = (False, a') \<Longrightarrow> n \<noteq> 0 \<Longrightarrow> a' = a"
  by (auto simp: lua_allocate_def Let_def split: if_split_asm)

lemma alloc_step_accounted:
  assumes "accounted limit s"
  shows "accounted limit (alloc_step op s)"
proof -
  obtain a blocks where s: "s = (a, blocks)" by (cases s)
  have acc: "al_limit a = limit" "unat (al_used a) = sum_list (map unat blocks)" "al_used a \<le> limit"
    using assms by (simp_all add: accounted_def s)
  have block: "blocks ! i \<le> al_used a" if "i < length blocks" for i
    using member_le_sum_list [of "unat (blocks ! i)" "map unat blocks"] that acc(2) by (simp add: word_le_nat_alt)
  show ?thesis
  proof (cases op)
    case (NewBlock tag n grow)
    obtain ok a' where r: "lua_allocate False tag n grow a = (ok, a')" by fastforce
    show ?thesis
      using lua_allocate_room [of False tag n grow a a'] lua_allocate_refused [of False tag n grow a a'] r acc
      by (cases ok; cases "n = 0") (auto simp: s NewBlock accounted_def lua_allocate_def)
  next
    case (ResizeBlock i n grow)
    show ?thesis
    proof (cases "i < length blocks \<and> n \<noteq> 0")
      case True
      obtain ok a' where r: "lua_allocate True (blocks ! i) n grow a = (ok, a')" by fastforce
      show ?thesis
        using True lua_allocate_room [of True "blocks ! i" n grow a a'] lua_allocate_refused [of True "blocks ! i" n grow a a']
          r acc block [of i] sum_list_set_nth [of i "map unat blocks" "unat n"]
        by (cases ok) (auto simp: s ResizeBlock accounted_def map_update)
    qed (use assms in \<open>auto simp: s ResizeBlock\<close>)
  next
    case (ReleaseBlock i)
    show ?thesis
    proof (cases "i < length blocks")
      case True
      have "al_used a - blocks ! i \<le> limit" "unat (al_used a - blocks ! i) = unat (al_used a) - unat (blocks ! i)"
        using block [OF True] acc(3) by (simp_all add: unat_sub word_le_nat_alt)
      then show ?thesis
        using True block [OF True] acc sum_list_drop_nth [of i "map unat blocks"]
        by (simp add: s ReleaseBlock accounted_def lua_allocate_def Let_def not_less [symmetric] take_map drop_map)
    qed (use assms in \<open>simp add: s ReleaseBlock\<close>)
  qed
qed

lemma alloc_steps_accounted: "accounted limit s \<Longrightarrow> accounted limit (fold alloc_step ops s)"
  by (induction ops arbitrary: s) (simp_all add: alloc_step_accounted)

text \<open>\<open>n\<close> rounds of the hook: what is left when all of them let the script go on.\<close>

fun hook_rounds :: "nat \<Rightarrow> nat \<Rightarrow> nat option" where
  "hook_rounds 0 remaining = Some remaining"
| "hook_rounds (Suc n) remaining =
     (case instruction_hook remaining of (go, r) \<Rightarrow> if go then hook_rounds n r else None)"

lemma hook_rounds_iff: "0 < remaining \<Longrightarrow> hook_rounds n remaining \<noteq> None \<longleftrightarrow> n * kQuantum < remaining"
  by (induction n arbitrary: remaining) (auto simp: instruction_hook_def kQuantum_def)


section \<open>Properties\<close>

text \<open>C38: The memory of a script is accounted exactly and never exceeds its limit: after any sequence
  of requests for, resizings and releases of blocks, the bytes counted as used are the bytes of the
  blocks Lua holds, and they are at most the limit.\<close>

theorem lua_memory_within_limit:
  fixes limit :: u64 and ops :: "alloc_op list"
  defines "s \<equiv> fold alloc_step ops (\<lparr>al_used = 0, al_limit = limit\<rparr>, [])"
  shows "unat (al_used (fst s)) = sum_list (map unat (snd s)) \<and> al_used (fst s) \<le> limit"
  using alloc_steps_accounted [of limit "(\<lparr>al_used = 0, al_limit = limit\<rparr>, [])" ops]
  by (simp add: s_def accounted_def)

end
