(* ===== verification/Palmod_Command_Router.thy ===== *)
theory Palmod_Command_Router
  imports Palmod_Types Palmod_Json
begin

text \<open>
  Slash commands: the tokenizer, the registry and the permission check of
  \<^verbatim>\<open>native/src/command_router.cpp\<close>, and \<^verbatim>\<open>control_command_line\<close> of
  \<^verbatim>\<open>native/src/runtime.cpp\<close>, which renders an operator's \<^verbatim>\<open>command.invoke\<close> request as
  the text the tokenizer reads.
\<close>

section \<open>The tokenizer\<close>

record scanner =
  sc_tokens :: "string list"
  sc_current :: string
  sc_quoted :: bool
  sc_escaped :: bool

definition control_byte :: "char \<Rightarrow> bool" where
  "control_byte c \<longleftrightarrow> code c = 0 \<or> (code c < 0x20 \<and> code c \<noteq> 9)"

definition flush :: "scanner \<Rightarrow> scanner" where
  "flush st =
     (if sc_current st = [] then st
      else st\<lparr>sc_tokens := sc_tokens st @ [sc_current st], sc_current := []\<rparr>)"

definition too_many :: "scanner \<Rightarrow> scanner outcome" where
  "too_many st =
     (if 32 < length (sc_tokens st) then Inl ''command has too many arguments'' else Inr st)"

text \<open>One round of the loop over the text.\<close>

definition scan_byte :: "char \<Rightarrow> scanner \<Rightarrow> scanner outcome" where
  "scan_byte c st =
     (if control_byte c then Inl ''command contains a control byte''
      else if sc_escaped st then
        (if c \<noteq> CHR 0x5C \<and> c \<noteq> CHR 0x22 \<and> c \<noteq> CHR '' '' then Inl ''unsupported command escape''
         else too_many (st\<lparr>sc_current := sc_current st @ [c], sc_escaped := False\<rparr>))
      else if c = CHR 0x5C then too_many (st\<lparr>sc_escaped := True\<rparr>)
      else if c = CHR 0x22 then too_many (st\<lparr>sc_quoted := \<not> sc_quoted st\<rparr>)
      else if \<not> sc_quoted st \<and> isspace c then too_many (flush st)
      else if 512 < length (sc_current st @ [c]) then Inl ''command token exceeds 512 bytes''
      else too_many (st\<lparr>sc_current := sc_current st @ [c]\<rparr>))"

fun scan :: "string \<Rightarrow> scanner \<Rightarrow> scanner outcome" where
  "scan [] st = Inr st"
| "scan (c # cs) st = (case scan_byte c st of Inl e \<Rightarrow> Inl e | Inr st' \<Rightarrow> scan cs st')"

definition scanner_new :: scanner where
  "scanner_new = \<lparr>sc_tokens = [], sc_current = [], sc_quoted = False, sc_escaped = False\<rparr>"

definition scan_finish :: "scanner \<Rightarrow> parsed_command outcome" where
  "scan_finish st =
     (if sc_escaped st then Inl ''trailing command escape''
      else if sc_quoted st then Inl ''unterminated command quote''
      else (case sc_tokens (flush st) of
              [] \<Rightarrow> Inl ''empty slash command''
            | name # args \<Rightarrow> Inr \<lparr>pc_name = name, pc_args = args\<rparr>))"

text \<open>Text that is no slash command gives no command and no error message.\<close>

definition parse_slash_command :: "string \<Rightarrow> parsed_command outcome" where
  "parse_slash_command text =
     (case text of
        [] \<Rightarrow> Inl []
      | c # cs \<Rightarrow>
          if c \<noteq> CHR ''/'' then Inl []
          else if 2048 < length text then Inl ''command exceeds 2048 bytes''
          else (case scan cs scanner_new of Inl e \<Rightarrow> Inl e | Inr st \<Rightarrow> scan_finish st))"


section \<open>The registry\<close>

type_synonym router = "(string, command_spec) smap"

definition canonical :: "string \<Rightarrow> string" where
  "canonical name = lower name"

definition command_char :: "char \<Rightarrow> bool" where
  "command_char c \<longleftrightarrow> isalnum c \<or> c = CHR ''_'' \<or> c = CHR ''-''"

definition valid_command_name :: "string \<Rightarrow> bool" where
  "valid_command_name name \<longleftrightarrow>
     name \<noteq> [] \<and> length name \<le> 32 \<and> isalpha (hd name) \<and> list_all command_char name"

definition register_command :: "command_spec \<Rightarrow> router \<Rightarrow> router outcome" where
  "register_command command r =
     (if \<not> valid_command_name (cs_name command) then Inl (''invalid command name: '' @ cs_name command)
      else (let key = canonical (cs_name command);
                (r', inserted) = smap_emplace key command r
            in if \<not> inserted then Inl (''duplicate command: '' @ key) else Inr r'))"

text \<open>
  \<^verbatim>\<open>dispatch\<close> hands the invocation to the plug-in runtime: it answers whether the plug-in's
  queue took it, and changes that runtime's state, which is threaded through here.
\<close>

definition route ::
  "router \<Rightarrow> string \<Rightarrow> string \<Rightarrow> u64 \<Rightarrow> auth_state \<Rightarrow>
   (command_invocation \<Rightarrow> 'w \<Rightarrow> bool \<times> 'w) \<Rightarrow> 'w \<Rightarrow> route_result \<times> 'w" where
  "route r text player player_handle auth dispatch w =
     (case parse_slash_command text of
        Inl e \<Rightarrow> (\<lparr>rr_matched = False, rr_suppress = False, rr_dispatched = False, rr_error = e\<rparr>, w)
      | Inr parsed \<Rightarrow>
          (case smap_find r (canonical (pc_name parsed)) of
             None \<Rightarrow> (\<lparr>rr_matched = False, rr_suppress = False, rr_dispatched = False, rr_error = []\<rparr>, w)
           | Some spec \<Rightarrow>
               if cs_permission spec = ServerAdmin \<and> auth \<noteq> Admin
               then (\<lparr>rr_matched = True, rr_suppress = cs_suppress spec, rr_dispatched = False,
                      rr_error = ''server administrator permission required''\<rparr>, w)
               else
                 (let inv = \<lparr>ci_plugin_id = cs_plugin_id spec, ci_command = cs_name spec,
                             ci_args = pc_args parsed, ci_raw = text, ci_player = player,
                             ci_player_handle = player_handle, ci_auth = auth,
                             ci_principal = InGamePlayer, ci_operator_uid = 0\<rparr>;
                      (ok, w') = dispatch inv w
                  in (\<lparr>rr_matched = True, rr_suppress = cs_suppress spec, rr_dispatched = ok,
                       rr_error = (if ok then [] else ''plugin command queue rejected invocation'')\<rparr>, w'))))"


section \<open>The operator's command line\<close>

fun arg_bytes :: "string \<Rightarrow> string outcome" where
  "arg_bytes [] = Inr []"
| "arg_bytes (c # cs) =
     (if control_byte c then Inl ''command.invoke argument contains a control byte''
      else (case arg_bytes cs of
              Inl e \<Rightarrow> Inl e
            | Inr out \<Rightarrow> Inr ((if c = CHR 0x5C \<or> c = CHR 0x22 then [CHR 0x5C, c] else [c]) @ out)))"

fun line_args :: "json list \<Rightarrow> string outcome" where
  "line_args [] = Inr []"
| "line_args (v # vs) =
     (case json_string v of
        None \<Rightarrow> Inl ''command.invoke args must be strings of at most 512 bytes''
      | Some s \<Rightarrow>
          if 512 < length s then Inl ''command.invoke args must be strings of at most 512 bytes''
          else (case arg_bytes s of
                  Inl e \<Rightarrow> Inl e
                | Inr b \<Rightarrow>
                    (case line_args vs of
                       Inl e \<Rightarrow> Inl e
                     | Inr rest \<Rightarrow> Inr ([CHR '' '', CHR 0x22] @ b @ [CHR 0x22] @ rest))))"

definition control_command_line :: "(string, json) smap \<Rightarrow> string outcome" where
  "control_command_line params =
     (case (json_get params ''command'', json_get params ''args'') of
        (Some (JString command), Some (JArray args)) \<Rightarrow>
          if command = [] then Inl ''command.invoke requires string command and string-array args''
          else if 32 < length command \<or> 32 < length args
          then Inl ''control command exceeds command limits''
          else (case line_args args of
                  Inl e \<Rightarrow> Inl e
                | Inr rest \<Rightarrow>
                    if 2048 < length (''/'' @ command @ rest) then Inl ''encoded command exceeds 2048 bytes''
                    else Inr (''/'' @ command @ rest))
      | _ \<Rightarrow> Inl ''command.invoke requires string command and string-array args'')"

section \<open>Scanning plain words and quoted arguments\<close>

definition plain :: "char \<Rightarrow> bool" where
  "plain c \<longleftrightarrow> \<not> control_byte c \<and> c \<noteq> CHR 0x5C \<and> c \<noteq> CHR 0x22 \<and> \<not> isspace c"

lemma scan_append:
  "scan (xs @ ys) st = (case scan xs st of Inl e \<Rightarrow> Inl e | Inr st' \<Rightarrow> scan ys st')"
  by (induction xs arbitrary: st) (auto split: sum.splits)

lemma scan_plain:
  "\<lbrakk>\<forall>c \<in> set w. plain c; \<not> sc_escaped st; \<not> sc_quoted st;
    length (sc_current st) + length w \<le> 512; length (sc_tokens st) \<le> 32\<rbrakk> \<Longrightarrow>
   scan w st = Inr (st\<lparr>sc_current := sc_current st @ w\<rparr>)"
proof (induction w arbitrary: st)
  case (Cons c w)
  then show ?case
    using Cons.IH [of "st\<lparr>sc_current := sc_current st @ [c]\<rparr>"]
    by (simp add: scan_byte_def plain_def too_many_def)
qed simp

lemma scan_quoted_arg:
  "\<lbrakk>arg_bytes s = Inr b; \<not> sc_escaped st; sc_quoted st;
    length (sc_current st) + length s \<le> 512; length (sc_tokens st) \<le> 32\<rbrakk> \<Longrightarrow>
   scan b st = Inr (st\<lparr>sc_current := sc_current st @ s\<rparr>)"
proof (induction s arbitrary: b st)
  case (Cons c s)
  then obtain out where out: "arg_bytes s = Inr out" "\<not> control_byte c"
    "b = (if c = CHR 0x5C \<or> c = CHR 0x22 then [CHR 0x5C, c] else [c]) @ out"
    by (auto split: if_splits sum.splits)
  have "\<not> control_byte (CHR 0x5C)" by (simp add: control_byte_def)
  moreover obtain t cur where "st = \<lparr>sc_tokens = t, sc_current = cur, sc_quoted = True, sc_escaped = False\<rparr>"
    using Cons.prems by (cases st) auto
  ultimately show ?case
    using Cons.prems out Cons.IH [OF out(1), of "st\<lparr>sc_current := sc_current st @ [c]\<rparr>"]
    by (auto simp: scan_byte_def too_many_def)
qed simp

text \<open>One rendered argument: a space, the opening quote, the bytes, the closing quote.\<close>

lemma scan_arg:
  assumes "arg_bytes s = Inr b" "length s \<le> 512" "\<not> sc_escaped st" "\<not> sc_quoted st"
    and "length (sc_tokens (flush st)) \<le> 32"
  shows "scan ([CHR '' '', CHR 0x22] @ b @ [CHR 0x22]) st = Inr ((flush st)\<lparr>sc_current := s\<rparr>)"
proof -
  let ?q = "(flush st)\<lparr>sc_quoted := True\<rparr>"
  have f: "sc_current (flush st) = []" "\<not> sc_escaped (flush st)" "\<not> sc_quoted (flush st)"
    using assms(3,4) by (simp_all add: flush_def)
  have "scan b ?q = Inr (?q\<lparr>sc_current := s\<rparr>)"
    using scan_quoted_arg [OF assms(1), of ?q] assms(2,5) f by simp
  moreover have "scan [CHR '' '', CHR 0x22] st = Inr ?q"
    using assms f by (simp add: scan_byte_def too_many_def control_byte_def isspace_def)
  moreover have "scan [CHR 0x22] (?q\<lparr>sc_current := s\<rparr>) = Inr ((flush st)\<lparr>sc_current := s\<rparr>)"
    using assms(5) f by (simp add: scan_byte_def too_many_def control_byte_def)
  ultimately show ?thesis
    by (simp only: scan_append sum.case append_assoc)
qed

lemma scan_line_args:
  "\<lbrakk>line_args vs = Inr rest; \<not> sc_escaped st; \<not> sc_quoted st; sc_current st \<noteq> [];
    length (sc_tokens st) + length vs \<le> 32; vs = map JString ss; [] \<notin> set ss\<rbrakk> \<Longrightarrow>
   \<exists>st'. scan rest st = Inr st' \<and> \<not> sc_escaped st' \<and> \<not> sc_quoted st' \<and>
     sc_tokens (flush st') = sc_tokens st @ [sc_current st] @ ss"
proof (induction vs arbitrary: rest st ss)
  case Nil
  then show ?case by (simp add: flush_def)
next
  case (Cons v vs)
  then obtain s ss' where ss: "ss = s # ss'" "v = JString s" "vs = map JString ss'" by auto
  then obtain b rest' where r: "arg_bytes s = Inr b" "line_args vs = Inr rest'" "length s \<le> 512"
    "rest = ([CHR '' '', CHR 0x22] @ b @ [CHR 0x22]) @ rest'"
    using Cons.prems(1) by (auto split: if_splits sum.splits)
  let ?st = "(flush st)\<lparr>sc_current := s\<rparr>"
  have t: "sc_tokens (flush st) = sc_tokens st @ [sc_current st]"
    using Cons.prems by (simp add: flush_def)
  have st: "\<not> sc_escaped ?st" "\<not> sc_quoted ?st" "sc_current ?st \<noteq> []"
    using Cons.prems ss by (auto simp: flush_def)
  have "length (sc_tokens (flush st)) \<le> 32"
    using Cons.prems(5) t by simp
  then have "scan rest st = scan rest' ?st"
    by (simp only: r(4) scan_append [of "_ @ _ @ _"] scan_arg [OF r(1,3) Cons.prems(2,3)] sum.case)
  then show ?case
    using Cons.IH [OF r(2) st, of ss'] Cons.prems ss t by simp
qed

lemma scanner_new_tokens: "sc_tokens scanner_new = []"
  by (simp add: scanner_new_def)

lemma parse_command_line:
  assumes "line_args vs = Inr rest" "vs = map JString ss" "[] \<notin> set ss" "length ss \<le> 32"
    and "name \<noteq> []" "length name \<le> 32" "\<forall>c \<in> set name. plain c"
    and "length (''/'' @ name @ rest) \<le> 2048"
  shows "parse_slash_command (''/'' @ name @ rest) = Inr \<lparr>pc_name = name, pc_args = ss\<rparr>"
proof -
  let ?st = "scanner_new\<lparr>sc_current := name\<rparr>"
  have n: "scan name scanner_new = Inr ?st"
    using scan_plain [of name scanner_new] assms by (simp add: scanner_new_def)
  have "\<exists>st'. scan rest ?st = Inr st' \<and> \<not> sc_escaped st' \<and> \<not> sc_quoted st' \<and>
     sc_tokens (flush st') = sc_tokens ?st @ [sc_current ?st] @ ss"
    by (rule scan_line_args) (use assms in \<open>simp_all add: scanner_new_def\<close>)
  then show ?thesis
    using assms(8) scanner_new_tokens by (auto simp: parse_slash_command_def scan_append n scan_finish_def)
qed

lemma command_char_plain: "command_char c \<Longrightarrow> plain c"
  by (auto simp: command_char_def plain_def control_byte_def cctype_defs)

lemma control_command_line_Inr:
  "control_command_line params = Inr line \<longleftrightarrow>
     (\<exists>command args rest. json_get params ''command'' = Some (JString command) \<and>
        json_get params ''args'' = Some (JArray args) \<and> command \<noteq> [] \<and> length command \<le> 32 \<and>
        length args \<le> 32 \<and> line_args args = Inr rest \<and> line = ''/'' @ command @ rest \<and> length line \<le> 2048)"
  by (auto simp: control_command_line_def split: option.splits json.splits sum.splits)

section \<open>The registry\<close>

definition router_inv :: "router \<Rightarrow> bool" where
  "router_inv r \<longleftrightarrow> smap_inv r \<and>
     (\<forall>(key, spec) \<in> set r. valid_command_name (cs_name spec) \<and> key = canonical (cs_name spec))"

lemma set_smap_put: "set (smap_put k v m) \<subseteq> insert (k, v) (set m)"
  by (induction k v m rule: smap_put.induct) auto

lemma register_command_cases:
  assumes "register_command c r = Inr r'"
  shows "valid_command_name (cs_name c)" "smap_find r (canonical (cs_name c)) = None"
    "r' = smap_put (canonical (cs_name c)) c r"
  using assms by (auto simp: register_command_def smap_emplace_def Let_def split: if_splits option.splits)

lemma register_command_inv:
  assumes "register_command c r = Inr r'" "router_inv r"
  shows "router_inv r'"
proof -
  note reg = register_command_cases [OF assms(1)]
  have "\<forall>(key, spec) \<in> insert (canonical (cs_name c), c) (set r).
      valid_command_name (cs_name spec) \<and> key = canonical (cs_name spec)"
    using assms(2) reg(1) by (auto simp: router_inv_def)
  then show ?thesis
    using set_smap_put [of "canonical (cs_name c)" c r] assms(2)
    unfolding router_inv_def reg(3) by (auto simp: smap.inv_put)
qed

lemma register_command_ok:
  assumes "valid_command_name (cs_name c)" "smap_find r (canonical (cs_name c)) = None"
  shows "register_command c r = Inr (smap_put (canonical (cs_name c)) c r)"
  using assms by (simp add: register_command_def smap_emplace_def)

lemma command_char_tolower: "command_char (tolower c) \<longleftrightarrow> command_char c"
  by (auto simp: command_char_def cctype_defs char_of_eq_code split: if_splits)

lemma canonical_word:
  assumes "canonical w = canonical n" "valid_command_name n"
  shows "\<forall>c \<in> set w. plain c" "w \<noteq> []" "length w \<le> 32"
proof -
  have len: "length w = length n"
    using arg_cong [OF assms(1), of length] by (simp add: canonical_def)
  then show "w \<noteq> []" "length w \<le> 32"
    using assms(2) by (auto simp: valid_command_name_def)
  have "list_all command_char (canonical n)"
    using assms(2) by (simp add: valid_command_name_def canonical_def lower_def list_all_iff command_char_tolower)
  then have "list_all command_char w"
    by (simp add: assms(1) [symmetric]) (simp add: canonical_def lower_def list_all_iff command_char_tolower)
  then show "\<forall>c \<in> set w. plain c"
    by (auto simp: list_all_iff intro: command_char_plain)
qed

lemma route_cases:
  assumes "route r text player h auth dispatch w = (res, w')"
  obtains "\<not> rr_dispatched res" "w' = w"
  | parsed spec where "parse_slash_command text = Inr parsed" "smap_find r (canonical (pc_name parsed)) = Some spec"
    "cs_permission spec = ServerAdmin \<longrightarrow> auth = Admin"
    "dispatch \<lparr>ci_plugin_id = cs_plugin_id spec, ci_command = cs_name spec, ci_args = pc_args parsed,
       ci_raw = text, ci_player = player, ci_player_handle = h, ci_auth = auth,
       ci_principal = InGamePlayer, ci_operator_uid = 0\<rparr> w = (rr_dispatched res, w')"
    "rr_matched res" "rr_suppress res = cs_suppress spec"
  using assms
  by (cases "parse_slash_command text"; cases "smap_find r (canonical (pc_name (projr (parse_slash_command text))))")
    (auto simp: route_def Let_def split: if_split_asm prod.split_asm)

text \<open>What routing needs of a dispatcher: it keeps the invariant of the state it acts on.\<close>

locale dispatcher =
  fixes deliver :: "command_invocation \<Rightarrow> 'w \<Rightarrow> bool \<times> 'w"
    and keeps :: "'w \<Rightarrow> bool"
  assumes deliver_keeps: "keeps w \<Longrightarrow> deliver invocation w = (ok, w') \<Longrightarrow> keeps w'"
begin

lemma route_keeps:
  assumes "route r text player h auth deliver w = (res, w')" "keeps w"
  shows "keeps w'"
  using assms(1) by (cases rule: route_cases) (use assms(2) deliver_keeps in auto)

end

text \<open>The command of a request is not quoted: a blank in it makes another command.\<close>

lemma command_name_splits:
  "control_command_line [(''args'', JArray []), (''command'', JString ''kick all'')] = Inr ''/kick all'' \<and>
   parse_slash_command ''/kick all'' = Inr \<lparr>pc_name = ''kick'', pc_args = [''all'']\<rparr>"
  by code_simp


section \<open>Properties\<close>



text \<open>C3: Permission: routing hands an invocation to a plug-in only for a registered command, and
  for a server-administrator command only when the caller is an administrator; in every other
  case the dispatcher is not called, so the plug-in state is untouched.  The invocation carries
  the caller's identity and authority unchanged and is never marked as coming from the local
  operator.\<close>

theorem route_dispatches_only_permitted:
  assumes "route r text player h auth dispatch w = (res, w')"
    and "rr_dispatched res \<or> w' \<noteq> w"
  shows "\<exists>parsed spec inv. parse_slash_command text = Inr parsed \<and>
    smap_find r (canonical (pc_name parsed)) = Some spec \<and>
    (cs_permission spec = ServerAdmin \<longrightarrow> auth = Admin) \<and>
    ci_plugin_id inv = cs_plugin_id spec \<and> ci_command inv = cs_name spec \<and>
    ci_args inv = pc_args parsed \<and> ci_player inv = player \<and> ci_player_handle inv = h \<and>
    ci_auth inv = auth \<and> ci_principal inv = InGamePlayer \<and>
    dispatch inv w = (rr_dispatched res, w')"
  using assms(1)
proof (cases rule: route_cases)
  case 1
  with assms(2) show ?thesis by simp
next
  case (2 parsed spec)
  then show ?thesis by (intro exI [of _ parsed] exI [of _ spec] exI conjI) simp_all
qed

definition sample_spec :: command_spec where
  "sample_spec = \<lparr>cs_plugin_id = ''p'', cs_name = ''kick'', cs_permission = ServerAdmin, cs_suppress = True\<rparr>"

lemma sample_parse: "parse_slash_command ''/KICK x'' = Inr \<lparr>pc_name = ''KICK'', pc_args = [''x'']\<rparr>"
  by (simp add: parse_slash_command_def scan_byte_def too_many_def control_byte_def isspace_def flush_def
      scan_finish_def scanner_new_def)

lemma sample_canonical: "canonical ''KICK'' = ''kick''"
  by (simp add: canonical_def lower_def cctype_defs char_of_eq_code)

theorem route_dispatches_only_permitted_witness:
  "\<exists>parsed spec (inv :: command_invocation). parse_slash_command ''/KICK x'' = Inr parsed \<and>
    smap_find [(''kick'', sample_spec)] (canonical (pc_name parsed)) = Some spec \<and>
    cs_permission spec = ServerAdmin \<and>
    ci_plugin_id inv = cs_plugin_id spec \<and> ci_command inv = cs_name spec \<and>
    ci_args inv = pc_args parsed \<and> ci_player inv = ''bob'' \<and> ci_player_handle inv = 9 \<and>
    ci_auth inv = Admin \<and> ci_principal inv = InGamePlayer"
proof -
  have "route [(''kick'', sample_spec)] ''/KICK x'' ''bob'' 9 Admin (\<lambda>i n. (True, Suc n)) 0 =
    (\<lparr>rr_matched = True, rr_suppress = True, rr_dispatched = True, rr_error = []\<rparr>, 1)"
    by (simp add: route_def sample_parse sample_canonical sample_spec_def)
  from route_dispatches_only_permitted [OF this] show ?thesis
    by (auto simp: sample_parse sample_canonical sample_spec_def)
qed

text \<open>Registering a command with a legal, unused name succeeds and keeps the registry's
  invariant; from then on a player who types that name in any capitalisation reaches exactly that
  command, and every other command still resolves as before.\<close>

lemma registered_command_routes:
  assumes "router_inv r" "valid_command_name (cs_name c)" "smap_find r (canonical (cs_name c)) = None"
    and "canonical word = canonical (cs_name c)"
    and "cs_permission c = Everyone \<or> auth = Admin"
  shows "\<exists>r' inv. register_command c r = Inr r' \<and> router_inv r' \<and>
    smap_find r' = (smap_find r)(canonical (cs_name c) \<mapsto> c) \<and>
    fst (route r' (''/'' @ word) player h auth (\<lambda>i w. (True, i)) w) =
      \<lparr>rr_matched = True, rr_suppress = cs_suppress c, rr_dispatched = True, rr_error = []\<rparr> \<and>
    snd (route r' (''/'' @ word) player h auth (\<lambda>i w. (True, i)) w) = inv \<and>
    ci_plugin_id inv = cs_plugin_id c \<and> ci_command inv = cs_name c \<and> ci_args inv = []"
proof -
  let ?r = "smap_put (canonical (cs_name c)) c r"
  have reg: "register_command c r = Inr ?r"
    using assms(2,3) by (rule register_command_ok)
  have find: "smap_find ?r = (smap_find r)(canonical (cs_name c) \<mapsto> c)"
    using assms(1) by (simp add: smap.find_put router_inv_def)
  have "parse_slash_command (''/'' @ word) = Inr \<lparr>pc_name = word, pc_args = []\<rparr>"
    using parse_command_line [of "[]" "[]" "[]" word] canonical_word [OF assms(4,2)] by simp
  then show ?thesis
    using reg find register_command_inv [OF reg assms(1)] assms(4,5) by (auto simp: route_def)
qed

text \<open>Escaped bytes escape the limit of 512 bytes per token.\<close>

lemma scan_escaped_spaces:
  "scan (concat (replicate n [CHR 0x5C, CHR '' ''])) \<lparr>sc_tokens = [], sc_current = w, sc_quoted = False, sc_escaped = False\<rparr>
   = Inr \<lparr>sc_tokens = [], sc_current = w @ replicate n (CHR '' ''), sc_quoted = False, sc_escaped = False\<rparr>"
proof (induction n arbitrary: w)
  case (Suc n)
  then show ?case
    by (simp add: scan_byte_def too_many_def control_byte_def)
qed simp

lemma long_escaped_token:
  "parse_slash_command (''/'' @ concat (replicate 1000 [CHR 0x5C, CHR '' '']))
   = Inr \<lparr>pc_name = replicate 1000 (CHR '' ''), pc_args = []\<rparr>"
proof -
  have "length (concat (replicate n [CHR 0x5C, CHR '' ''])) = 2 * n" for n
    by (induction n) simp_all
  then show ?thesis
    using scan_escaped_spaces [of 1000 "[]"] replicate_empty [of 1000 "CHR '' ''"]
    by (simp add: parse_slash_command_def scanner_new_def scan_finish_def flush_def)
qed

text \<open>An empty argument leaves no token behind.\<close>

lemma empty_argument_lost:
  "control_command_line [(''args'', JArray [JString []]), (''command'', JString ''go'')]
     = Inr [CHR ''/'', CHR ''g'', CHR ''o'', CHR '' '', CHR 0x22, CHR 0x22] \<and>
   parse_slash_command [CHR ''/'', CHR ''g'', CHR ''o'', CHR '' '', CHR 0x22, CHR 0x22]
     = Inr \<lparr>pc_name = ''go'', pc_args = []\<rparr>"
  by (simp add: control_command_line_def json_get_def parse_slash_command_def scan_byte_def too_many_def
      control_byte_def isspace_def flush_def scan_finish_def scanner_new_def)

end
