(* ===== verification/Palmod_Plugin_Manifest.thy ===== *)
theory Palmod_Plugin_Manifest
  imports Palmod_Json Palmod_Command_Router
begin

text \<open>
  Plug-in manifests (\<^verbatim>\<open>PluginManifest::load\<close> of \<^verbatim>\<open>native/src/plugin_runtime.cpp\<close>).  The file
  system is an argument: the size and the bytes of a file and whether a path is a regular file.
  Paths are byte strings.  The message that is returned is the one the code leaves in its out
  parameter: of several calls made before their results are tested, the last failing one's.
\<close>

section \<open>Paths and files\<close>

record file_system =
  fs_size :: "string \<Rightarrow> nat outcome"
  fs_read :: "string \<Rightarrow> string option"
  fs_regular :: "string \<Rightarrow> bool"
  fs_directory :: "string \<Rightarrow> bool"
  fs_entries :: "string \<Rightarrow> string list"

definition parent_path :: "string \<Rightarrow> string" where
  "parent_path p =
     (let r = dropWhile (\<lambda>c. c \<noteq> CHR ''/'') (rev p)
      in if length r = 1 then ''/'' else rev (drop 1 r))"

definition path_join :: "string \<Rightarrow> string \<Rightarrow> string" where
  "path_join d f = (if d = [] \<or> last d = CHR ''/'' then d @ f else d @ ''/'' @ f)"


section \<open>Fields\<close>

definition kMaxManifestBytes :: nat where
  "kMaxManifestBytes = 256 * 1024"

definition manifest_string :: "json_obj \<Rightarrow> string \<Rightarrow> string outcome" where
  "manifest_string obj key =
     (case json_get obj key of
        Some (JString s) \<Rightarrow>
          if s = [] then Inl (''manifest field '' @ tick key @ '' must be a non-empty string'') else Inr s
      | _ \<Rightarrow> Inl (''manifest field '' @ tick key @ '' must be a non-empty string''))"

definition optional_limit :: "json_obj \<Rightarrow> string \<Rightarrow> nat \<Rightarrow> nat \<Rightarrow> nat \<Rightarrow> nat outcome" where
  "optional_limit root key fallback minimum maximum =
     (case json_get root key of
        None \<Rightarrow> Inr fallback
      | Some v \<Rightarrow>
          (case v of
             JInt i \<Rightarrow>
               if i < 0 \<or> i < int minimum \<or> int maximum < i
               then Inl (''manifest field '' @ tick key @ '' is outside the allowed range'') else Inr (nat i)
           | _ \<Rightarrow> Inl (''manifest field '' @ tick key @ '' is outside the allowed range'')))"

definition get_bool :: "json_obj \<Rightarrow> string \<Rightarrow> bool option" where
  "get_bool obj key = Option.bind (json_get obj key) json_boolean"

definition get_array :: "json_obj \<Rightarrow> string \<Rightarrow> json list option" where
  "get_array obj key = Option.bind (json_get obj key) json_array"

definition id_char :: "char \<Rightarrow> bool" where
  "id_char c \<longleftrightarrow> islower c \<or> isdigit c \<or> c = CHR ''_'' \<or> c = CHR ''.'' \<or> c = CHR ''-''"

definition valid_id :: "string \<Rightarrow> bool" where
  "valid_id pid \<longleftrightarrow> 2 \<le> length pid \<and> length pid \<le> 64 \<and> islower (hd pid) \<and> list_all id_char pid"

definition ends_with :: "string \<Rightarrow> string \<Rightarrow> bool" where
  "ends_with s suffix \<longleftrightarrow> length suffix \<le> length s \<and> drop (length s - length suffix) s = suffix"

definition safe_entrypoint :: "string \<Rightarrow> bool" where
  "safe_entrypoint e \<longleftrightarrow>
     e \<noteq> [] \<and> length e \<le> 128 \<and> e \<noteq> ''.'' \<and> e \<noteq> ''..'' \<and>
     CHR ''/'' \<notin> set e \<and> CHR 0x5c \<notin> set e \<and> ends_with e ''.lua''"


section \<open>The manifest\<close>

record plugin_manifest =
  pm_schema_version :: u32
  pm_id :: string
  pm_version :: string
  pm_directory :: string
  pm_entrypoint :: string
  pm_memory_limit :: nat
  pm_instruction_limit :: nat
  pm_commands :: "command_spec list"

definition manifest_command :: "string \<Rightarrow> json \<Rightarrow> command_spec outcome" where
  "manifest_command pid value =
     (case json_object value of
        None \<Rightarrow> Inl ''command declaration must be an object''
      | Some command \<Rightarrow>
          ok_then (manifest_string command ''permission'') (\<lambda>permission.
          ok_then (manifest_string command ''name'') (\<lambda>name.
            case get_bool command ''suppress'' of
              Some suppress \<Rightarrow>
                if permission = ''everyone'' then
                  Inr \<lparr>cs_plugin_id = pid, cs_name = name, cs_permission = Everyone, cs_suppress = suppress\<rparr>
                else if permission = ''server.admin'' then
                  Inr \<lparr>cs_plugin_id = pid, cs_name = name, cs_permission = ServerAdmin, cs_suppress = suppress\<rparr>
                else Inl (''unknown command permission: '' @ permission)
            | None \<Rightarrow> Inl ''command suppress must be a boolean'')))"

fun manifest_commands :: "string \<Rightarrow> json list \<Rightarrow> command_spec list outcome" where
  "manifest_commands pid [] = Inr []"
| "manifest_commands pid (v # vs) =
     ok_then (manifest_command pid v) (\<lambda>c. ok_then (manifest_commands pid vs) (\<lambda>cs. Inr (c # cs)))"

definition manifest_fields :: "json_obj \<Rightarrow> (string \<times> string \<times> string \<times> nat \<times> nat) outcome" where
  "manifest_fields root =
     ok_then (manifest_string root ''entrypoint'') (\<lambda>entrypoint.
     ok_then (manifest_string root ''version'') (\<lambda>version.
     ok_then (manifest_string root ''id'') (\<lambda>pid.
       if \<not> valid_id pid \<or> \<not> safe_entrypoint entrypoint then Inl ''plugin id or entrypoint is unsafe''
       else
         ok_then (optional_limit root ''instruction_limit'' 250000 1000 250000) (\<lambda>instructions.
         ok_then (optional_limit root ''memory_limit_bytes'' (32 * 1024 * 1024) (1024 * 1024) (32 * 1024 * 1024)) (\<lambda>memory.
           Inr (pid, version, entrypoint, memory, instructions))))))"

definition manifest_of_root :: "file_system \<Rightarrow> string \<Rightarrow> json_obj \<Rightarrow> plugin_manifest outcome" where
  "manifest_of_root fs path root =
     (if json_get root ''schema_version'' \<noteq> Some (JInt 1) then Inl ''plugin manifest schema_version must be 1''
      else
        ok_then (manifest_fields root) (\<lambda>(pid, version, entrypoint, memory, instructions).
          case get_array root ''commands'' of
            Some commands \<Rightarrow>
              if 64 < length commands then Inl ''manifest commands must be an array of at most 64 items''
              else
                ok_then (manifest_commands pid commands) (\<lambda>specs.
                  let dir = parent_path path; entry = path_join dir entrypoint
                  in if \<not> fs_regular fs entry then Inl ''plugin entrypoint is not a regular file''
                     else Inr \<lparr>pm_schema_version = 1, pm_id = pid, pm_version = version, pm_directory = dir,
                               pm_entrypoint = entry, pm_memory_limit = memory,
                               pm_instruction_limit = instructions, pm_commands = specs\<rparr>)
          | None \<Rightarrow> Inl ''manifest commands must be an array of at most 64 items''))"

definition manifest_load :: "file_system \<Rightarrow> string \<Rightarrow> plugin_manifest outcome" where
  "manifest_load fs path =
     (case fs_size fs path of
        Inl e \<Rightarrow> Inl (''cannot stat plugin manifest: '' @ e)
      | Inr bytes \<Rightarrow>
          if kMaxManifestBytes < bytes then Inl ''plugin manifest exceeds 256 KiB''
          else
            (case fs_read fs path of
               None \<Rightarrow> Inl (''cannot read plugin manifest: '' @ path)
             | Some data \<Rightarrow>
                 if length data \<noteq> bytes then Inl (''cannot read plugin manifest: '' @ path)
                 else
                   (case parse data of
                      Inl e \<Rightarrow> Inl (''invalid plugin manifest JSON: '' @ e)
                    | Inr v \<Rightarrow>
                        (case json_object v of
                           None \<Rightarrow> Inl ''plugin manifest root must be an object''
                         | Some root \<Rightarrow> manifest_of_root fs path root))))"


section \<open>Lemmas\<close>

text \<open>What the runtime relies on when it starts a plug-in from a manifest.\<close>

definition manifest_wf :: "file_system \<Rightarrow> string \<Rightarrow> plugin_manifest \<Rightarrow> bool" where
  "manifest_wf fs path man \<longleftrightarrow>
     valid_id (pm_id man) \<and> pm_version man \<noteq> [] \<and>
     2 ^ 20 \<le> pm_memory_limit man \<and> pm_memory_limit man \<le> 2 ^ 25 \<and>
     1000 \<le> pm_instruction_limit man \<and> pm_instruction_limit man \<le> 250000 \<and>
     length (pm_commands man) \<le> 64 \<and>
     list_all (\<lambda>c. cs_plugin_id c = pm_id man \<and> cs_name c \<noteq> []) (pm_commands man) \<and>
     fs_regular fs (pm_entrypoint man) \<and>
     (\<exists>e. pm_entrypoint man = path_join (parent_path path) e \<and> CHR ''/'' \<notin> set e \<and> ends_with e ''.lua'')"

lemma manifest_string_Inr: "manifest_string obj key = Inr s \<longleftrightarrow> json_get obj key = Some (JString s) \<and> s \<noteq> []"
  by (auto simp: manifest_string_def split: option.splits json.splits if_splits)

lemma optional_limit_Inr:
  "optional_limit root key fallback lo hi = Inr n \<Longrightarrow> lo \<le> fallback \<Longrightarrow> fallback \<le> hi \<Longrightarrow> lo \<le> n \<and> n \<le> hi"
  by (auto simp: optional_limit_def split: option.splits json.splits if_splits)

lemma manifest_command_Inr:
  assumes "manifest_command pid v = Inr c"
  shows "cs_plugin_id c = pid \<and> cs_name c \<noteq> []"
proof (cases "json_object v")
  case (Some command)
  obtain permission name where name: "manifest_string command ''name'' = Inr name"
    and c: "(case get_bool command ''suppress'' of
        Some suppress \<Rightarrow>
          if permission = ''everyone'' then
            Inr \<lparr>cs_plugin_id = pid, cs_name = name, cs_permission = Everyone, cs_suppress = suppress\<rparr>
          else if permission = ''server.admin'' then
            Inr \<lparr>cs_plugin_id = pid, cs_name = name, cs_permission = ServerAdmin, cs_suppress = suppress\<rparr>
          else Inl (''unknown command permission: '' @ permission)
      | None \<Rightarrow> Inl ''command suppress must be a boolean'') = Inr c"
    using assms unfolding manifest_command_def Some option.case ok_then_Inr by blast
  then show ?thesis
    by (cases "get_bool command ''suppress''") (auto simp: manifest_string_Inr split: if_split_asm)
qed (use assms in \<open>simp add: manifest_command_def\<close>)

lemma manifest_commands_Inr:
  "manifest_commands pid vs = Inr cs \<Longrightarrow>
     length cs = length vs \<and> list_all (\<lambda>c. cs_plugin_id c = pid \<and> cs_name c \<noteq> []) cs"
  by (induction vs arbitrary: cs) (auto dest: manifest_command_Inr)

lemma manifest_fields_Inr:
  assumes "manifest_fields root = Inr (pid, version, entrypoint, memory, instructions)"
  shows "valid_id pid" "version \<noteq> []" "safe_entrypoint entrypoint"
    "2 ^ 20 \<le> memory \<and> memory \<le> 2 ^ 25" "1000 \<le> instructions \<and> instructions \<le> 250000"
  using assms optional_limit_Inr [of root "''memory_limit_bytes''" "32 * 1024 * 1024" "1024 * 1024" "32 * 1024 * 1024" memory]
    optional_limit_Inr [of root "''instruction_limit''" 250000 1000 250000 instructions]
  by (auto simp: manifest_fields_def manifest_string_Inr split: if_split_asm)

lemma manifest_of_root_wf:
  assumes "manifest_of_root fs path root = Inr man"
  shows "manifest_wf fs path man"
proof -
  obtain pid version entrypoint memory instructions commands specs where
    f: "manifest_fields root = Inr (pid, version, entrypoint, memory, instructions)"
    and c: "length commands \<le> 64" "manifest_commands pid commands = Inr specs"
    and r: "fs_regular fs (path_join (parent_path path) entrypoint)"
    and man: "man = \<lparr>pm_schema_version = 1, pm_id = pid, pm_version = version, pm_directory = parent_path path,
       pm_entrypoint = path_join (parent_path path) entrypoint, pm_memory_limit = memory,
       pm_instruction_limit = instructions, pm_commands = specs\<rparr>"
    using assms
    by (auto simp: manifest_of_root_def Let_def not_less split: if_split_asm option.split_asm)
  show ?thesis
    using manifest_fields_Inr [OF f] manifest_commands_Inr [OF c(2)] c(1) r
    by (auto simp: man manifest_wf_def safe_entrypoint_def)
qed

lemma manifest_load_wf: "manifest_load fs path = Inr man \<Longrightarrow> manifest_wf fs path man"
  by (auto simp: manifest_load_def dest: manifest_of_root_wf split: sum.split_asm option.split_asm if_split_asm)

text \<open>A rejection always says why.\<close>

definition talks :: "'a outcome \<Rightarrow> bool" where
  "talks r \<longleftrightarrow> r \<noteq> Inl []"

lemma talks_simps [simp]: "talks (Inr x)" "talks (Inl e) = (e \<noteq> [])"
  by (simp_all add: talks_def)

lemma talks_ok_then: "talks r \<Longrightarrow> (\<And>u. talks (k u)) \<Longrightarrow> talks (ok_then r k)"
  by (cases r) (simp_all add: talks_def)

lemma talks_fields: "talks (manifest_string obj key)" "talks (optional_limit obj key a b c)"
  by (simp_all add: manifest_string_def optional_limit_def split: option.split json.split)

lemma talks_command: "talks (manifest_command pid v)"
  unfolding manifest_command_def
  by (cases "json_object v")
    (auto intro!: talks_ok_then talks_fields split: option.split)

lemma talks_commands: "talks (manifest_commands pid vs)"
  by (induction vs) (auto intro!: talks_ok_then talks_command)

lemma talks_manifest_fields: "talks (manifest_fields root)"
  unfolding manifest_fields_def by (intro talks_ok_then talks_fields) (auto intro!: talks_ok_then talks_fields)

lemma manifest_of_root_talks: "talks (manifest_of_root fs path root)"
  unfolding manifest_of_root_def
  by (auto simp: Let_def intro!: talks_ok_then talks_manifest_fields talks_commands split: option.split)


section \<open>Properties\<close>

text \<open>C37: A manifest that loads is safe: its identifier is valid and its version not empty, its memory
  limit is between 1 and 32 MiB and its instruction budget between 1000 and 250000, it declares at
  most 64 commands, each under its own identifier, and its entry point is a regular \<^verbatim>\<open>.lua\<close> file in
  the manifest's own directory.\<close>

theorem manifest_load_safe:
  "case manifest_load fs path of Inl e \<Rightarrow> e \<noteq> [] | Inr man \<Rightarrow> manifest_wf fs path man"
proof (cases "manifest_load fs path")
  case (Inl e)
  have "talks (manifest_load fs path)"
    unfolding manifest_load_def
    by (auto simp: manifest_of_root_talks split: sum.split option.split)
  with Inl show ?thesis by (simp add: talks_def)
next
  case (Inr man)
  then show ?thesis by (simp add: manifest_load_wf)
qed

end
