(* ===== verification/Palmod_Action_Queue.thy ===== *)
theory Palmod_Action_Queue
  imports Palmod_Types
begin

text \<open>
  The queue of game-thread actions (\<^verbatim>\<open>native/src/action_queue.cpp\<close>).  Plug-in threads push;
  the game thread drains.  Each critical section of the code is one operation here: \<open>push\<close>,
  \<open>bind_game_thread\<close>, the admission test at the start of \<open>drain\<close> and one round of its loop.
  The sequential \<open>drain\<close> runs the whole loop with an executor that may itself push; the step
  relation at the end interleaves the critical sections of any number of threads.

  The interface \<open>bounded_queue\<close> states what a bounded FIFO promises; it is interpreted on this
  queue and, in the plug-in runtime, on the two queues of a plug-in.
\<close>

section \<open>The interface of a bounded FIFO queue\<close>

datatype 'a queue_event = Offered 'a | Taken

locale bounded_queue =
  fixes items :: "'q \<Rightarrow> 'a list"
    and admits :: "'a \<Rightarrow> 'q \<Rightarrow> bool"
    and push :: "'a \<Rightarrow> 'q \<Rightarrow> bool \<times> 'q"
    and pop :: "'q \<Rightarrow> ('a \<times> 'q) option"
    and capacity :: "'q \<Rightarrow> nat"
  assumes push_flag: "fst (push a q) \<longleftrightarrow> admits a q"
    and push_items: "items (snd (push a q)) = (if admits a q then items q @ [a] else items q)"
    and push_capacity: "capacity (snd (push a q)) = capacity q"
    and admits_room: "admits a q \<Longrightarrow> length (items q) < capacity q"
    and pop_None: "pop q = None \<longleftrightarrow> items q = []"
    and pop_Some: "pop q = Some (a, q') \<Longrightarrow> items q = a # items q' \<and> capacity q' = capacity q"
begin

fun run :: "'a queue_event list \<Rightarrow> 'q \<Rightarrow> 'a list \<times> 'a list \<times> 'q" where
  "run [] q = ([], [], q)"
| "run (Offered a # es) q =
     (let (acc, out, q') = run es (snd (push a q))
      in (if fst (push a q) then a # acc else acc, out, q'))"
| "run (Taken # es) q =
     (case pop q of
        None \<Rightarrow> run es q
      | Some (a, q1) \<Rightarrow> (let (acc, out, q') = run es q1 in (acc, a # out, q')))"

lemma push_bounded:
  "length (items q) \<le> capacity q \<Longrightarrow> length (items (snd (push a q))) \<le> capacity (snd (push a q))"
  using admits_room [of a q] by (auto simp: push_items push_capacity)

lemma pop_bounded:
  "pop q = Some (a, q') \<Longrightarrow> length (items q) \<le> capacity q \<Longrightarrow> length (items q') \<le> capacity q'"
  using pop_Some [of q a q'] by auto

text \<open>What was queued, then what was accepted, is what was taken, then what is queued.\<close>

lemma run_fifo:
  "run es q = (acc, out, q') \<Longrightarrow> items q @ acc = out @ items q'"
proof (induction es q arbitrary: acc out q' rule: run.induct)
  case (2 a es q)
  then show ?case
    by (cases "run es (snd (push a q))") (auto simp: push_flag push_items split: if_splits)
next
  case (3 es q)
  then show ?case
    using pop_Some by (fastforce split: option.splits prod.splits)
qed simp

lemma run_bounded:
  "run es q = (acc, out, q') \<Longrightarrow> length (items q) \<le> capacity q \<Longrightarrow>
     length (items q') \<le> capacity q' \<and> capacity q' = capacity q"
proof (induction es q arbitrary: acc out q' rule: run.induct)
  case (2 a es q)
  then show ?case
    using push_bounded [of q a] by (cases "run es (snd (push a q))") (auto simp: push_capacity)
next
  case (3 es q)
  then show ?case
    using pop_Some pop_bounded by (fastforce split: option.splits prod.splits)
qed simp

end


section \<open>The queue\<close>

type_synonym thread_id = nat

record action_queue =
  aq_capacity :: nat
  aq_queue :: "semantic_action list"
  aq_game_thread :: "thread_id option"
  aq_dropped :: u64

definition aq_new :: "nat \<Rightarrow> action_queue" where
  "aq_new capacity = \<lparr>aq_capacity = capacity, aq_queue = [], aq_game_thread = None, aq_dropped = 0\<rparr>"

definition bind_game_thread :: "thread_id \<Rightarrow> action_queue \<Rightarrow> action_queue" where
  "bind_game_thread t q = q\<lparr>aq_game_thread := Some t\<rparr>"

definition aq_push :: "semantic_action \<Rightarrow> action_queue \<Rightarrow> bool \<times> action_queue" where
  "aq_push a q =
     (if aq_capacity q \<le> length (aq_queue q) then (False, q\<lparr>aq_dropped := aq_dropped q + 1\<rparr>)
      else (True, q\<lparr>aq_queue := aq_queue q @ [a]\<rparr>))"

text \<open>The first critical section of \<^verbatim>\<open>drain\<close>: bind on first use, refuse another thread.\<close>

definition drain_admit :: "thread_id \<Rightarrow> action_queue \<Rightarrow> bool \<times> action_queue" where
  "drain_admit t q =
     (let q' = (if aq_game_thread q = None then q\<lparr>aq_game_thread := Some t\<rparr> else q)
      in (aq_game_thread q' = Some t, q'))"

definition aq_pop :: "action_queue \<Rightarrow> (semantic_action \<times> action_queue) option" where
  "aq_pop q =
     (case aq_queue q of [] \<Rightarrow> None | a # as \<Rightarrow> Some (a, q\<lparr>aq_queue := as\<rparr>))"

text \<open>
  The loop: the executor runs outside the lock and may push, so it acts on the queue as well as
  on the rest of the world.  The first argument is \<^verbatim>\<open>max_actions - processed\<close>.
\<close>

type_synonym 'w executor = "semantic_action \<Rightarrow> action_queue \<times> 'w \<Rightarrow> action_queue \<times> 'w"

fun drain_loop :: "'w executor \<Rightarrow> nat \<Rightarrow> nat \<Rightarrow> action_queue \<times> 'w \<Rightarrow> nat \<times> action_queue \<times> 'w" where
  "drain_loop ex 0 processed (q, w) = (processed, q, w)"
| "drain_loop ex (Suc left) processed (q, w) =
     (case aq_pop q of
        None \<Rightarrow> (processed, q, w)
      | Some (a, q') \<Rightarrow> drain_loop ex left (processed + 1) (ex a (q', w)))"

definition drain ::
  "thread_id \<Rightarrow> 'w executor \<Rightarrow> nat \<Rightarrow> action_queue \<times> 'w \<Rightarrow> nat \<times> action_queue \<times> 'w" where
  "drain t ex max_actions qw =
     (let (ok, q') = drain_admit t (fst qw)
      in if \<not> ok then (0, q', snd qw) else drain_loop ex max_actions 0 (q', snd qw))"

definition aq_size :: "action_queue \<Rightarrow> nat" where
  "aq_size q = length (aq_queue q)"

interpretation actions: bounded_queue aq_queue "\<lambda>a q. length (aq_queue q) < aq_capacity q" aq_push aq_pop aq_capacity
  by unfold_locales (auto simp: aq_push_def aq_pop_def split: list.splits)



section \<open>Interleavings\<close>

text \<open>
  The state of the whole system: the queue, how many rounds each running drain has left, and,
  as history, the accepted actions, the number refused, and the executed actions with the
  thread that ran them.
\<close>

record aq_system =
  sys_queue :: action_queue
  sys_drains :: "thread_id \<Rightarrow> nat option"
  sys_accepted :: "semantic_action list"
  sys_refused :: nat
  sys_executed :: "(thread_id \<times> semantic_action) list"

datatype aq_label =
    LPush semantic_action
  | LBind thread_id
  | LBegin thread_id nat
  | LRound thread_id
  | LEnd thread_id

definition aq_init :: "nat \<Rightarrow> aq_system" where
  "aq_init capacity =
     \<lparr>sys_queue = aq_new capacity, sys_drains = (\<lambda>_. None), sys_accepted = [], sys_refused = 0,
      sys_executed = []\<rparr>"

inductive aq_step :: "aq_system \<Rightarrow> aq_label \<Rightarrow> aq_system \<Rightarrow> bool" where
  push_ok: "aq_push a (sys_queue s) = (True, q) \<Longrightarrow>
    aq_step s (LPush a) (s\<lparr>sys_queue := q, sys_accepted := sys_accepted s @ [a]\<rparr>)"
| push_full: "aq_push a (sys_queue s) = (False, q) \<Longrightarrow>
    aq_step s (LPush a) (s\<lparr>sys_queue := q, sys_refused := sys_refused s + 1\<rparr>)"
| bind: "aq_step s (LBind t) (s\<lparr>sys_queue := bind_game_thread t (sys_queue s)\<rparr>)"
| drain_begin: "sys_drains s t = None \<Longrightarrow> drain_admit t (sys_queue s) = (True, q) \<Longrightarrow>
    aq_step s (LBegin t n) (s\<lparr>sys_queue := q, sys_drains := (sys_drains s)(t \<mapsto> n)\<rparr>)"
| drain_refuse: "sys_drains s t = None \<Longrightarrow> drain_admit t (sys_queue s) = (False, q) \<Longrightarrow>
    aq_step s (LBegin t n) (s\<lparr>sys_queue := q\<rparr>)"
| drain_round: "sys_drains s t = Some (Suc n) \<Longrightarrow> aq_pop (sys_queue s) = Some (a, q) \<Longrightarrow>
    aq_step s (LRound t)
      (s\<lparr>sys_queue := q, sys_drains := (sys_drains s)(t \<mapsto> n), sys_executed := sys_executed s @ [(t, a)]\<rparr>)"
| drain_end: "sys_drains s t = Some n \<Longrightarrow> n = 0 \<or> aq_pop (sys_queue s) = None \<Longrightarrow>
    aq_step s (LEnd t) (s\<lparr>sys_drains := (sys_drains s)(t := None)\<rparr>)"

inductive aq_steps :: "aq_system \<Rightarrow> aq_label list \<Rightarrow> aq_system \<Rightarrow> bool" where
  steps_refl: "aq_steps s [] s"
| steps_snoc: "aq_steps s ls s' \<Longrightarrow> aq_step s' l s'' \<Longrightarrow> aq_steps s (ls @ [l]) s''"

inductive_cases aq_stepsE: "aq_steps s ls s'"

definition aq_sys_inv :: "nat \<Rightarrow> aq_system \<Rightarrow> bool" where
  "aq_sys_inv capacity s \<longleftrightarrow>
     aq_capacity (sys_queue s) = capacity \<and>
     length (aq_queue (sys_queue s)) \<le> capacity \<and>
     sys_accepted s = map snd (sys_executed s) @ aq_queue (sys_queue s) \<and>
     aq_dropped (sys_queue s) = of_nat (sys_refused s)"

lemma drain_admit_queue:
  "drain_admit t q = (ok, q') \<Longrightarrow>
     aq_queue q' = aq_queue q \<and> aq_capacity q' = aq_capacity q \<and> aq_dropped q' = aq_dropped q"
  by (auto simp: drain_admit_def Let_def split: if_splits)

lemma aq_push_cases:
  "aq_push a q = (ok, q') \<Longrightarrow>
     aq_capacity q' = aq_capacity q \<and> aq_game_thread q' = aq_game_thread q \<and>
     (if ok then length (aq_queue q) < aq_capacity q \<and> aq_queue q' = aq_queue q @ [a] \<and> aq_dropped q' = aq_dropped q
      else aq_queue q' = aq_queue q \<and> aq_dropped q' = aq_dropped q + 1)"
  by (auto simp: aq_push_def split: if_splits)

lemma aq_pop_cases:
  "aq_pop q = Some (a, q') \<Longrightarrow> aq_queue q = a # aq_queue q' \<and> aq_capacity q' = aq_capacity q \<and>
     aq_dropped q' = aq_dropped q \<and> aq_game_thread q' = aq_game_thread q"
  by (auto simp: aq_pop_def split: list.splits)

lemma aq_step_inv: "aq_step s l s' \<Longrightarrow> aq_sys_inv c s \<Longrightarrow> aq_sys_inv c s'"
  by (induction rule: aq_step.induct)
    (auto simp: aq_sys_inv_def bind_game_thread_def add.commute
      dest!: aq_push_cases aq_pop_cases drain_admit_queue)

lemma aq_steps_inv: "aq_steps s ls s' \<Longrightarrow> aq_sys_inv c s \<Longrightarrow> aq_sys_inv c s'"
  by (induction rule: aq_steps.induct) (auto intro: aq_step_inv)

text \<open>Every running drain and every executed action belongs to the bound thread.\<close>

definition one_thread :: "aq_system \<Rightarrow> bool" where
  "one_thread s \<longleftrightarrow>
     (\<forall>t \<in> dom (sys_drains s) \<union> fst ` set (sys_executed s). aq_game_thread (sys_queue s) = Some t)"

lemma drain_admit_thread:
  "drain_admit t q = (ok, q') \<Longrightarrow>
     (ok \<longrightarrow> aq_game_thread q' = Some t) \<and> (aq_game_thread q = Some u \<longrightarrow> aq_game_thread q' = Some u)"
  by (auto simp: drain_admit_def Let_def split: if_splits)

lemma aq_step_one_thread:
  assumes "aq_step s l s'" "\<forall>t. l \<noteq> LBind t" "one_thread s"
  shows "one_thread s'"
  using assms
proof (induction rule: aq_step.induct)
  case (drain_begin s t q n)
  then show ?case
    using drain_admit_thread [OF drain_begin.hyps(2)] by (force simp: one_thread_def)
next
  case (drain_refuse s t q n)
  then show ?case
    using drain_admit_thread [OF drain_refuse.hyps(2)] by (force simp: one_thread_def)
qed (force simp: one_thread_def dest!: aq_push_cases aq_pop_cases split: if_splits)+

lemma aq_steps_one_thread:
  "aq_steps s ls s' \<Longrightarrow> \<forall>t. LBind t \<notin> set ls \<Longrightarrow> one_thread s \<Longrightarrow> one_thread s'"
proof (induction rule: aq_steps.induct)
  case (steps_snoc s ls s' l s'')
  then show ?case
    by (intro aq_step_one_thread [OF steps_snoc.hyps(2)]) auto
qed

section \<open>The sequential drain\<close>

lemma drain_loop_processed:
  "drain_loop ex n k qw = (p, qw') \<Longrightarrow> k \<le> p \<and> p \<le> k + n"
proof (induction ex n k qw arbitrary: p qw' rule: drain_loop.induct)
  case (2 ex left k q w)
  then show ?case
    by (auto split: option.splits) fastforce+
qed simp

lemma drain_loop_quiet:
  "drain_loop (\<lambda>a (q, w). (q, f a w)) n k (q, w) =
     (k + min n (length (aq_queue q)), q\<lparr>aq_queue := drop n (aq_queue q)\<rparr>, fold f (take n (aq_queue q)) w)"
proof (induction n arbitrary: k q w)
  case (Suc n)
  then show ?case
    by (cases "aq_queue q") (simp_all add: aq_pop_def)
qed simp


section \<open>Properties\<close>

text \<open>C10: Under every interleaving of pushes, binds and drains by any number of threads, the queue
  neither loses, duplicates nor reorders an action: the accepted actions are the executed ones
  followed by the queued ones; it never exceeds its capacity, and the drop counter counts the
  refused pushes.\<close>

theorem action_queue_fifo:
  assumes "aq_steps (aq_init capacity) ls s"
  shows "sys_accepted s = map snd (sys_executed s) @ aq_queue (sys_queue s) \<and>
    length (aq_queue (sys_queue s)) \<le> capacity \<and>
    aq_dropped (sys_queue s) = of_nat (sys_refused s)"
proof -
  have "aq_sys_inv capacity (aq_init capacity)"
    by (simp add: aq_sys_inv_def aq_init_def aq_new_def)
  then show ?thesis
    using aq_steps_inv [OF assms] by (simp add: aq_sys_inv_def)
qed

definition sample_action :: semantic_action where
  "sample_action =
     \<lparr>sa_kind = CallFunction, sa_source_plugin = ''p'', sa_actor = ''a'', sa_actor_handle = 1,
      sa_function_path = ''F'', sa_target_class = ''C'', sa_target_object = 0, sa_call_args = []\<rparr>"

lemma steps_one: "aq_step s l s' \<Longrightarrow> aq_steps s [l] s'"
  using steps_snoc [OF steps_refl] by simp

theorem action_queue_fifo_witness:
  "\<exists>s :: aq_system. sys_accepted s = [sample_action] \<and>
    sys_accepted s = map snd (sys_executed s) @ aq_queue (sys_queue s) \<and>
    length (aq_queue (sys_queue s)) \<le> 2 \<and>
    aq_dropped (sys_queue s) = of_nat (sys_refused s)"
proof -
  let ?s = "(aq_init 2)\<lparr>sys_queue := (aq_new 2)\<lparr>aq_queue := [sample_action]\<rparr>, sys_accepted := [sample_action]\<rparr>"
  have "aq_step (aq_init 2) (LPush sample_action) ?s"
    using push_ok [of sample_action "aq_init 2"] by (simp add: aq_push_def aq_init_def aq_new_def)
  then have "aq_steps (aq_init 2) [LPush sample_action] ?s" by (rule steps_one)
  from action_queue_fifo [OF this] show ?thesis
    by - (rule exI [of _ ?s], simp)
qed

text \<open>C28: As long as nobody rebinds the game thread, every action that is ever executed is executed
  on one and the same thread, whatever threads try to drain.\<close>

theorem actions_run_on_one_thread:
  assumes "aq_steps (aq_init capacity) ls s" "\<forall>t. LBind t \<notin> set ls"
    and "(t, a) \<in> set (sys_executed s)" "(u, b) \<in> set (sys_executed s)"
  shows "t = u \<and> aq_game_thread (sys_queue s) = Some t"
proof -
  have "one_thread (aq_init capacity)"
    by (simp add: one_thread_def aq_init_def)
  then have "one_thread s"
    using aq_steps_one_thread [OF assms(1,2)] by simp
  moreover have "t \<in> fst ` set (sys_executed s)" "u \<in> fst ` set (sys_executed s)"
    using assms(3,4) by force+
  ultimately have "aq_game_thread (sys_queue s) = Some t" "aq_game_thread (sys_queue s) = Some u"
    unfolding one_thread_def by blast+
  then show ?thesis by simp
qed

theorem actions_run_on_one_thread_witness:
  "\<exists>s :: aq_system. sys_executed s = [(7, sample_action)] \<and> aq_game_thread (sys_queue s) = Some 7"
proof -
  let ?a = sample_action
  let ?s1 = "(aq_init 2)\<lparr>sys_queue := (aq_new 2)\<lparr>aq_queue := [?a]\<rparr>, sys_accepted := [?a]\<rparr>"
  let ?s2 = "?s1\<lparr>sys_queue := (aq_new 2)\<lparr>aq_queue := [?a], aq_game_thread := Some 7\<rparr>, sys_drains := (\<lambda>_. None)(7 \<mapsto> 1)\<rparr>"
  let ?s3 = "?s2\<lparr>sys_queue := (aq_new 2)\<lparr>aq_game_thread := Some 7\<rparr>, sys_drains := (\<lambda>_. None)(7 \<mapsto> 0), sys_executed := [(7, ?a)]\<rparr>"
  have 1: "aq_step (aq_init 2) (LPush ?a) ?s1"
    using push_ok [of ?a "aq_init 2"] by (simp add: aq_push_def aq_init_def aq_new_def)
  have 2: "aq_step ?s1 (LBegin 7 1) ?s2"
    using drain_begin [of ?s1 7] by (simp add: drain_admit_def aq_init_def aq_new_def)
  have 3: "aq_step ?s2 (LRound 7) ?s3"
    using drain_round [of ?s2 7 0 ?a] by (simp add: aq_pop_def aq_init_def aq_new_def)
  have "aq_steps (aq_init 2) ([LPush ?a] @ [LBegin 7 1] @ [LRound 7]) ?s3"
    using steps_snoc [OF steps_snoc [OF steps_one [OF 1] 2] 3] by simp
  from actions_run_on_one_thread [OF this] show ?thesis
    by - (rule exI [of _ ?s3], simp)
qed

text \<open>One drain runs at most \<^verbatim>\<open>max_actions\<close> actions even when the executor keeps pushing; from
  the wrong thread it runs none; and with an executor that leaves the queue alone it runs exactly
  the first \<^verbatim>\<open>max_actions\<close> queued actions in order and leaves the rest.\<close>

lemma drain_behaviour:
  "fst (drain t ex m (q, w)) \<le> m \<and>
   drain t (\<lambda>a (q, w). (q, f a w)) m (q, w) =
     (if aq_game_thread q \<in> {None, Some t}
      then (min m (length (aq_queue q)),
            q\<lparr>aq_queue := drop m (aq_queue q), aq_game_thread := Some t\<rparr>,
            fold f (take m (aq_queue q)) w)
      else (0, q, w))"
proof
  show "fst (drain t ex m (q, w)) \<le> m"
    using drain_loop_processed [of ex m 0 "(snd (drain_admit t q), w)"]
    by (cases "drain_loop ex m 0 (snd (drain_admit t q), w)") (auto simp: drain_def split: prod.split)
qed (auto simp: drain_def drain_admit_def Let_def drain_loop_quiet)

end
