(* ===== verification/Palmod_Plugin_Instance.thy ===== *)
theory Palmod_Plugin_Instance
  imports Palmod_Lua_Api Palmod_Plugin_Manifest Palmod_Action_Queue
begin

text \<open>
  One plug-in (\<^verbatim>\<open>PluginRuntime::Instance\<close> of \<^verbatim>\<open>native/src/plugin_runtime.cpp\<close>): two bounded queues
  that the game thread and the control server fill, a worker thread that runs the script, and the
  functions the script may call.

  Every critical section of the code is one function here.  The script is not modelled: a step
  relation lets it make any sequence of calls while it runs, and end its callback whenever it
  likes.  The worker's place in \<^verbatim>\<open>run\<close> is the \<open>phase\<close> of the instance.
\<close>

section \<open>State\<close>

datatype phase = NotStarted | Initializing | Waiting | InCallback | Closing | Finished

record plugin_instance =
  in_manifest :: plugin_manifest
  in_queue :: "command_invocation list"
  in_events :: "plugin_event list"
  in_kinds :: "string set"
  in_initialized :: bool
  in_running :: bool
  in_stopping :: bool
  in_busy :: bool
  in_error :: string
  in_handlers :: "(string, int) smap"
  in_event_handlers :: "(string, int) smap"
  in_current :: "command_invocation option"
  in_current_event :: "plugin_event option"
  in_instructions :: nat
  in_phase :: phase

definition instance_new :: "plugin_manifest \<Rightarrow> plugin_instance" where
  "instance_new man =
     \<lparr>in_manifest = man, in_queue = [], in_events = [], in_kinds = {}, in_initialized = False, in_running = False,
      in_stopping = False, in_busy = False, in_error = [], in_handlers = [], in_event_handlers = [],
      in_current = None, in_current_event = None, in_instructions = 0, in_phase = NotStarted\<rparr>"

definition kMaxCommandQueue :: nat where "kMaxCommandQueue = 256"


section \<open>Calls from other threads\<close>

definition enqueue :: "command_invocation \<Rightarrow> plugin_instance \<Rightarrow> bool \<times> plugin_instance" where
  "enqueue invocation i =
     (if \<not> in_running i \<or> in_stopping i \<or> kMaxCommandQueue \<le> length (in_queue i) then (False, i)
      else (True, i\<lparr>in_queue := in_queue i @ [invocation]\<rparr>))"

definition enqueue_event :: "plugin_event \<Rightarrow> plugin_instance \<Rightarrow> bool \<times> plugin_instance" where
  "enqueue_event event i =
     (if \<not> in_running i \<or> in_stopping i \<or> kMaxCommandQueue \<le> length (in_events i) then (False, i)
      else if canonical (pe_kind event) \<notin> in_kinds i then (False, i)
      else (True, i\<lparr>in_events := in_events i @ [event]\<rparr>))"

record plugin_status =
  st_id :: string
  st_version :: string
  st_running :: bool
  st_error :: string
  st_queued :: nat

definition instance_status :: "plugin_instance \<Rightarrow> plugin_status" where
  "instance_status i =
     \<lparr>st_id = pm_id (in_manifest i), st_version = pm_version (in_manifest i), st_running = in_running i,
      st_error = in_error i, st_queued = length (in_queue i) + length (in_events i)\<rparr>"

definition instance_idle :: "plugin_instance \<Rightarrow> bool" where
  "instance_idle i \<longleftrightarrow> in_queue i = [] \<and> in_events i = [] \<and> \<not> in_busy i"

definition request_stop :: "plugin_instance \<Rightarrow> plugin_instance" where
  "request_stop i = i\<lparr>in_stopping := True\<rparr>"


section \<open>Calls from the script\<close>

text \<open>\<open>reference\<close> is what \<^verbatim>\<open>luaL_ref\<close> returns for the handler; an error is a Lua error in the script.\<close>

definition lua_on_command :: "string \<Rightarrow> lua_value \<Rightarrow> int \<Rightarrow> plugin_instance \<Rightarrow> plugin_instance outcome" where
  "lua_on_command name handler reference i =
     (case handler of
        LFunction _ \<Rightarrow>
          (let key = canonical (c_str name)
           in if \<not> list_ex (\<lambda>c. canonical (cs_name c) = key) (pm_commands (in_manifest i))
              then Inl ''command is not declared in manifest''
              else Inr (i\<lparr>in_handlers := smap_put key reference (in_handlers i)\<rparr>))
      | _ \<Rightarrow> Inl ''function expected'')"

definition lua_on_event :: "string \<Rightarrow> lua_value \<Rightarrow> int \<Rightarrow> plugin_instance \<Rightarrow> plugin_instance outcome" where
  "lua_on_event kind_arg handler reference i =
     (case handler of
        LFunction _ \<Rightarrow>
          (let kind = canonical (c_str kind_arg)
           in if kind = [] \<or> 64 < length kind then Inl ''event kind must be 1..64 bytes''
              else Inr (i\<lparr>in_event_handlers := smap_put kind reference (in_event_handlers i),
                          in_kinds := insert kind (in_kinds i)\<rparr>))
      | _ \<Rightarrow> Inl ''function expected'')"

definition action_actor :: "plugin_instance \<Rightarrow> (string \<times> u64) option" where
  "action_actor i =
     (case in_current i of
        Some c \<Rightarrow>
          Some (if ci_principal c = LocalOperator then ''local-operator:'' @ show_nat (unat (ci_operator_uid c))
                else ci_player c, ci_player_handle c)
      | None \<Rightarrow> map_option (\<lambda>e. (pe_source e, pe_handle e)) (in_current_event i))"

definition call_target :: "lua_value option \<Rightarrow> string \<times> u64" where
  "call_target target =
     (case target of
        Some (LString s) \<Rightarrow> (c_str s, 0)
      | Some (LInt n) \<Rightarrow> ([], of_int n)
      | _ \<Rightarrow> ([], 0))"

definition lua_pal_call ::
  "string \<Rightarrow> lua_value \<Rightarrow> lua_value option \<Rightarrow> plugin_instance \<Rightarrow> action_queue \<Rightarrow> unit outcome \<times> action_queue" where
  "lua_pal_call path args target i q =
     (case args of
        LTable _ _ \<Rightarrow>
          (case action_actor i of
             None \<Rightarrow> (Inl ''actions are only valid inside a callback'', q)
           | Some (actor, handle) \<Rightarrow>
               (let (target_class, target_object) = call_target target;
                    action = \<lparr>sa_kind = CallFunction, sa_source_plugin = pm_id (in_manifest i), sa_actor = actor,
                              sa_actor_handle = handle, sa_function_path = c_str path,
                              sa_target_class = target_class, sa_target_object = target_object,
                              sa_call_args = pi_items (parse_param args [] 0)\<rparr>
                in if 256 < length (sa_function_path action) \<or> 64 < length (sa_call_args action)
                   then (Inl ''call arguments are too large'', q)
                   else (case aq_push action q of
                           (ok, q') \<Rightarrow> (if ok then Inr () else Inl ''game-thread action queue is full'', q'))))
      | _ \<Rightarrow> (Inl ''table expected'', q))"

definition log_level_of :: "string \<Rightarrow> log_level" where
  "log_level_of level =
     (if level = ''debug'' then Debug else if level = ''warn'' then Warn else if level = ''error'' then Error else Info)"

definition lua_log :: "string \<Rightarrow> string \<Rightarrow> plugin_instance \<Rightarrow> log_level \<times> string \<times> (string \<times> string) list" where
  "lua_log level message i =
     (log_level_of (c_str level), take 2048 (c_str message), [(''plugin'', pm_id (in_manifest i))])"


section \<open>The worker\<close>

text \<open>
  \<open>initialize_lua\<close> after the script's body has run: what remains is whether the state was created,
  the standard library loaded and the body ended without an error, and that every declared command
  has a handler.
\<close>

definition missing_handler :: "plugin_instance \<Rightarrow> command_spec option" where
  "missing_handler i =
     List.find (\<lambda>c. smap_find (in_handlers i) (canonical (cs_name c)) = None) (pm_commands (in_manifest i))"

definition initialize_lua :: "bool \<Rightarrow> string option \<Rightarrow> string option \<Rightarrow> plugin_instance \<Rightarrow> unit outcome" where
  "initialize_lua state_ok stdlib_error body_error i =
     (if \<not> state_ok then Inl ''cannot create Lua state within memory limit''
      else (case stdlib_error of
              Some e \<Rightarrow> Inl (''palmod stdlib failed to load: '' @ e)
            | None \<Rightarrow>
                (case body_error of
                   Some e \<Rightarrow> Inl e
                 | None \<Rightarrow>
                     (case missing_handler i of
                        Some c \<Rightarrow> Inl (''plugin did not register declared command: '' @ cs_name c)
                      | None \<Rightarrow> Inr ()))))"

definition begin_run :: "plugin_instance \<Rightarrow> plugin_instance" where
  "begin_run i = i\<lparr>in_phase := Initializing, in_instructions := pm_instruction_limit (in_manifest i)\<rparr>"

definition publish_init :: "unit outcome \<Rightarrow> plugin_instance \<Rightarrow> plugin_instance" where
  "publish_init r i =
     (case r of
        Inl e \<Rightarrow> i\<lparr>in_initialized := True, in_running := False, in_error := e, in_phase := Closing\<rparr>
      | Inr _ \<Rightarrow> i\<lparr>in_initialized := True, in_running := True, in_error := [], in_phase := Waiting\<rparr>)"

datatype work = Blocked | Leave | Command command_invocation | Event plugin_event

definition take_work :: "plugin_instance \<Rightarrow> work \<times> plugin_instance" where
  "take_work i =
     (if \<not> (in_stopping i \<or> in_queue i \<noteq> [] \<or> in_events i \<noteq> []) then (Blocked, i)
      else if in_stopping i \<and> in_queue i = [] \<and> in_events i = [] then (Leave, i\<lparr>in_phase := Closing\<rparr>)
      else (case in_queue i of
              c # cs \<Rightarrow> (Command c, i\<lparr>in_queue := cs, in_busy := True, in_phase := InCallback\<rparr>)
            | [] \<Rightarrow> (Event (hd (in_events i)), i\<lparr>in_events := tl (in_events i), in_busy := True, in_phase := InCallback\<rparr>)))"

definition invoke_begin :: "command_invocation \<Rightarrow> plugin_instance \<Rightarrow> plugin_instance" where
  "invoke_begin invocation i =
     (case smap_find (in_handlers i) (canonical (ci_command invocation)) of
        None \<Rightarrow> i
      | Some _ \<Rightarrow> i\<lparr>in_current := Some invocation, in_instructions := pm_instruction_limit (in_manifest i)\<rparr>)"

definition invoke_event_begin :: "plugin_event \<Rightarrow> plugin_instance \<Rightarrow> plugin_instance" where
  "invoke_event_begin event i =
     (case smap_find (in_event_handlers i) (canonical (pe_kind event)) of
        None \<Rightarrow> i
      | Some _ \<Rightarrow> i\<lparr>in_current_event := Some event, in_instructions := pm_instruction_limit (in_manifest i)\<rparr>)"

definition callback_end :: "plugin_instance \<Rightarrow> plugin_instance" where
  "callback_end i = i\<lparr>in_current := None, in_current_event := None, in_busy := False, in_phase := Waiting\<rparr>"

definition end_run :: "plugin_instance \<Rightarrow> plugin_instance" where
  "end_run i = i\<lparr>in_running := False, in_busy := False, in_phase := Finished\<rparr>"


section \<open>The queues as bounded queues\<close>

definition pop_command :: "plugin_instance \<Rightarrow> (command_invocation \<times> plugin_instance) option" where
  "pop_command i = (case in_queue i of [] \<Rightarrow> None | c # cs \<Rightarrow> Some (c, i\<lparr>in_queue := cs\<rparr>))"

definition pop_event :: "plugin_instance \<Rightarrow> (plugin_event \<times> plugin_instance) option" where
  "pop_event i = (case in_events i of [] \<Rightarrow> None | e # es \<Rightarrow> Some (e, i\<lparr>in_events := es\<rparr>))"

interpretation commands: bounded_queue in_queue
  "\<lambda>c i. in_running i \<and> \<not> in_stopping i \<and> length (in_queue i) < kMaxCommandQueue" enqueue pop_command "\<lambda>_. kMaxCommandQueue"
  by unfold_locales (auto simp: enqueue_def pop_command_def split: list.splits)

interpretation events: bounded_queue in_events
  "\<lambda>e i. in_running i \<and> \<not> in_stopping i \<and> length (in_events i) < kMaxCommandQueue \<and> canonical (pe_kind e) \<in> in_kinds i"
  enqueue_event pop_event "\<lambda>_. kMaxCommandQueue"
  by unfold_locales (auto simp: enqueue_event_def pop_event_def split: list.splits)

section \<open>Interleavings\<close>

text \<open>
  The instance, the action queue it pushes to, and, as history, the accepted and the started
  commands and events, and the actions the script had accepted.
\<close>

record plugin_system =
  ps_inst :: plugin_instance
  ps_actions :: action_queue
  ps_accepted :: "command_invocation list"
  ps_started :: "command_invocation list"
  ps_accepted_events :: "plugin_event list"
  ps_started_events :: "plugin_event list"
  ps_pushed :: "semantic_action list"

definition system_new :: "plugin_manifest \<Rightarrow> action_queue \<Rightarrow> plugin_system" where
  "system_new man q =
     \<lparr>ps_inst = instance_new man, ps_actions = q, ps_accepted = [], ps_started = [], ps_accepted_events = [],
      ps_started_events = [], ps_pushed = []\<rparr>"

datatype plugin_label =
    PEnqueue command_invocation
  | PEnqueueEvent plugin_event
  | PStop
  | PDrain nat
  | PBegin
  | POnCommand string int
  | POnEvent string int
  | PCall string lua_value "lua_value option"
  | PInit "unit outcome"
  | PTake
  | PReturn
  | PEnd

text \<open>The script runs while it is loaded and inside a callback.\<close>

definition script_runs :: "plugin_instance \<Rightarrow> bool" where
  "script_runs i \<longleftrightarrow> in_phase i = Initializing \<or> in_current i \<noteq> None \<or> in_current_event i \<noteq> None"

inductive plugin_step :: "plugin_system \<Rightarrow> plugin_label \<Rightarrow> plugin_system \<Rightarrow> bool" where
  p_enqueue: "enqueue c (ps_inst s) = (ok, i) \<Longrightarrow>
    plugin_step s (PEnqueue c) (s\<lparr>ps_inst := i, ps_accepted := ps_accepted s @ (if ok then [c] else [])\<rparr>)"
| p_enqueue_event: "enqueue_event e (ps_inst s) = (ok, i) \<Longrightarrow>
    plugin_step s (PEnqueueEvent e) (s\<lparr>ps_inst := i, ps_accepted_events := ps_accepted_events s @ (if ok then [e] else [])\<rparr>)"
| p_stop: "plugin_step s PStop (s\<lparr>ps_inst := request_stop (ps_inst s)\<rparr>)"
| p_drain: "plugin_step s (PDrain n) (s\<lparr>ps_actions := (ps_actions s)\<lparr>aq_queue := drop n (aq_queue (ps_actions s))\<rparr>\<rparr>)"
| p_begin: "in_phase (ps_inst s) = NotStarted \<Longrightarrow> plugin_step s PBegin (s\<lparr>ps_inst := begin_run (ps_inst s)\<rparr>)"
| p_on_command: "script_runs (ps_inst s) \<Longrightarrow> lua_on_command name (LFunction f) r (ps_inst s) = Inr i \<Longrightarrow>
    plugin_step s (POnCommand name r) (s\<lparr>ps_inst := i\<rparr>)"
| p_on_event: "script_runs (ps_inst s) \<Longrightarrow> lua_on_event kind (LFunction f) r (ps_inst s) = Inr i \<Longrightarrow>
    plugin_step s (POnEvent kind r) (s\<lparr>ps_inst := i\<rparr>)"
| p_call: "script_runs (ps_inst s) \<Longrightarrow> lua_pal_call path args target (ps_inst s) (ps_actions s) = (r, q) \<Longrightarrow>
    plugin_step s (PCall path args target)
      (s\<lparr>ps_actions := q,
         ps_pushed := ps_pushed s @ (case r of Inl _ \<Rightarrow> [] | Inr _ \<Rightarrow> [last (aq_queue q)])\<rparr>)"
| p_init: "in_phase (ps_inst s) = Initializing \<Longrightarrow> r = initialize_lua state_ok stdlib_error body_error (ps_inst s) \<Longrightarrow>
    plugin_step s (PInit r) (s\<lparr>ps_inst := publish_init r (ps_inst s)\<rparr>)"
| p_take_command: "in_phase (ps_inst s) = Waiting \<Longrightarrow> take_work (ps_inst s) = (Command c, i) \<Longrightarrow>
    plugin_step s PTake (s\<lparr>ps_inst := invoke_begin c i, ps_started := ps_started s @ [c]\<rparr>)"
| p_take_event: "in_phase (ps_inst s) = Waiting \<Longrightarrow> take_work (ps_inst s) = (Event e, i) \<Longrightarrow>
    plugin_step s PTake (s\<lparr>ps_inst := invoke_event_begin e i, ps_started_events := ps_started_events s @ [e]\<rparr>)"
| p_leave: "in_phase (ps_inst s) = Waiting \<Longrightarrow> take_work (ps_inst s) = (Leave, i) \<Longrightarrow>
    plugin_step s PTake (s\<lparr>ps_inst := i\<rparr>)"
| p_return: "in_phase (ps_inst s) = InCallback \<Longrightarrow> plugin_step s PReturn (s\<lparr>ps_inst := callback_end (ps_inst s)\<rparr>)"
| p_end: "in_phase (ps_inst s) = Closing \<Longrightarrow> plugin_step s PEnd (s\<lparr>ps_inst := end_run (ps_inst s)\<rparr>)"

inductive plugin_steps :: "plugin_system \<Rightarrow> plugin_label list \<Rightarrow> plugin_system \<Rightarrow> bool" where
  ps_refl: "plugin_steps s [] s"
| ps_snoc: "plugin_steps s ls s' \<Longrightarrow> plugin_step s' l s'' \<Longrightarrow> plugin_steps s (ls @ [l]) s''"

lemmas worker_defs = begin_run_def publish_init_def take_work_def invoke_begin_def invoke_event_begin_def
  callback_end_def end_run_def request_stop_def

definition declared_commands :: "plugin_manifest \<Rightarrow> string set" where
  "declared_commands man = {key. \<exists>c \<in> set (pm_commands man). canonical (cs_name c) = key}"

definition handlers_declared :: "plugin_instance \<Rightarrow> bool" where
  "handlers_declared i \<longleftrightarrow> fst ` set (in_handlers i) \<subseteq> declared_commands (in_manifest i)"

lemma handlers_declared_put:
  "k \<in> declared_commands (in_manifest i) \<Longrightarrow> handlers_declared i \<Longrightarrow>
   handlers_declared (i\<lparr>in_handlers := smap_put k r (in_handlers i)\<rparr>)"
  by (simp add: handlers_declared_def set_fst_smap_put)

lemma handlers_declared_simps [simp]:
  "handlers_declared (i\<lparr>in_queue := q\<rparr>) = handlers_declared i"
  "handlers_declared (i\<lparr>in_events := es\<rparr>) = handlers_declared i"
  "handlers_declared (i\<lparr>in_kinds := ks\<rparr>) = handlers_declared i"
  "handlers_declared (i\<lparr>in_initialized := b\<rparr>) = handlers_declared i"
  "handlers_declared (i\<lparr>in_running := b\<rparr>) = handlers_declared i"
  "handlers_declared (i\<lparr>in_stopping := b\<rparr>) = handlers_declared i"
  "handlers_declared (i\<lparr>in_busy := b\<rparr>) = handlers_declared i"
  "handlers_declared (i\<lparr>in_error := e\<rparr>) = handlers_declared i"
  "handlers_declared (i\<lparr>in_event_handlers := h\<rparr>) = handlers_declared i"
  "handlers_declared (i\<lparr>in_current := c\<rparr>) = handlers_declared i"
  "handlers_declared (i\<lparr>in_current_event := ce\<rparr>) = handlers_declared i"
  "handlers_declared (i\<lparr>in_instructions := n\<rparr>) = handlers_declared i"
  "handlers_declared (i\<lparr>in_phase := p\<rparr>) = handlers_declared i"
  by (simp_all add: handlers_declared_def)

lemma on_command_Inr:
  "lua_on_command name (LFunction f) r i = Inr i' \<Longrightarrow>
     i' = i\<lparr>in_handlers := smap_put (canonical (c_str name)) r (in_handlers i)\<rparr> \<and>
     (handlers_declared i \<longrightarrow> handlers_declared i')"
  by (auto simp: lua_on_command_def Let_def list_ex_iff declared_commands_def intro!: handlers_declared_put
      split: if_split_asm)

lemma on_event_Inr:
  "lua_on_event kind (LFunction f) r i = Inr i' \<Longrightarrow>
     i' = i\<lparr>in_event_handlers := smap_put (canonical (c_str kind)) r (in_event_handlers i),
             in_kinds := insert (canonical (c_str kind)) (in_kinds i)\<rparr>"
  by (auto simp: lua_on_event_def Let_def split: if_split_asm)

text \<open>A call that is accepted appends one action, under the plug-in's own identifier.\<close>

lemma pal_call_Inr:
  "lua_pal_call path args target i q = (Inr u, q') \<Longrightarrow>
     \<exists>a. aq_queue q' = aq_queue q @ [a] \<and> sa_source_plugin a = pm_id (in_manifest i) \<and>
       action_actor i = Some (sa_actor a, sa_actor_handle a) \<and> sa_function_path a = c_str path \<and>
       length (sa_function_path a) \<le> 256 \<and> length (sa_call_args a) \<le> 64"
  by (auto simp: lua_pal_call_def Let_def aq_push_def
      split: lua_value.split_asm option.split_asm prod.split_asm if_split_asm)

lemma pal_call_Inl:
  "lua_pal_call path args target i q = (Inl e, q') \<Longrightarrow> aq_queue q' = aq_queue q"
  by (auto simp: lua_pal_call_def Let_def aq_push_def
      split: lua_value.split_asm option.split_asm prod.split_asm if_split_asm)


section \<open>The invariant of a plug-in\<close>

definition idle_queues :: "plugin_instance \<Rightarrow> bool" where
  "idle_queues i \<longleftrightarrow> in_queue i = [] \<and> in_events i = []"

definition phase_ok :: "plugin_instance \<Rightarrow> bool" where
  "phase_ok i \<longleftrightarrow>
     (case in_phase i of
        NotStarted \<Rightarrow> \<not> in_running i \<and> idle_queues i
      | Initializing \<Rightarrow> \<not> in_running i \<and> idle_queues i
      | Waiting \<Rightarrow> in_running i
      | InCallback \<Rightarrow> in_running i
      | Closing \<Rightarrow> (\<not> in_running i \<or> in_stopping i) \<and> idle_queues i
      | Finished \<Rightarrow> \<not> in_running i \<and> idle_queues i)"

definition plugin_inv :: "plugin_manifest \<Rightarrow> plugin_system \<Rightarrow> bool" where
  "plugin_inv man s \<longleftrightarrow>
     in_manifest (ps_inst s) = man \<and> phase_ok (ps_inst s) \<and>
     length (in_queue (ps_inst s)) \<le> kMaxCommandQueue \<and> length (in_events (ps_inst s)) \<le> kMaxCommandQueue \<and>
     ps_accepted s = ps_started s @ in_queue (ps_inst s) \<and>
     ps_accepted_events s = ps_started_events s @ in_events (ps_inst s) \<and>
     handlers_declared (ps_inst s) \<and>
     (\<forall>e \<in> set (ps_accepted_events s). canonical (pe_kind e) \<in> in_kinds (ps_inst s)) \<and>
     (\<forall>a \<in> set (ps_pushed s). sa_source_plugin a = pm_id man)"

lemma phase_ok_simps [simp]:
  "phase_ok (i\<lparr>in_handlers := h\<rparr>) = phase_ok i"
  "phase_ok (i\<lparr>in_event_handlers := h\<rparr>) = phase_ok i"
  "phase_ok (i\<lparr>in_kinds := ks\<rparr>) = phase_ok i"
  by (cases "in_phase i"; simp add: phase_ok_def idle_queues_def)+

lemmas inv_defs = plugin_inv_def phase_ok_def idle_queues_def

lemma plugin_inv_new: "plugin_inv man (system_new man q)"
  by (simp add: handlers_declared_def plugin_inv_def system_new_def instance_new_def phase_ok_def idle_queues_def)

lemma plugin_step_inv:
  assumes "plugin_step s l s'" "plugin_inv man s"
  shows "plugin_inv man s'"
  using assms
proof (induction rule: plugin_step.induct)
  case (p_enqueue c s ok i)
  then show ?case
    by (cases "in_phase (ps_inst s)") (auto simp: inv_defs enqueue_def split: if_split_asm)
next
  case (p_enqueue_event e s ok i)
  then show ?case
    by (cases "in_phase (ps_inst s)") (auto simp: inv_defs enqueue_event_def split: if_split_asm)
next
  case (p_on_command s name f r i)
  then show ?case
    using on_command_Inr [OF p_on_command(2)] by (auto simp: plugin_inv_def)
next
  case (p_on_event s kind f r i)
  then show ?case
    using on_event_Inr [OF p_on_event(2)] by (auto simp: plugin_inv_def)
next
  case (p_call s path args target r q)
  then show ?case
    using pal_call_Inr [of path args target "ps_inst s" "ps_actions s" _ q]
    by (cases r) (auto simp: plugin_inv_def)
next
  case (p_take_command s c i)
  then show ?case
    by (cases "in_queue (ps_inst s)")
      (auto simp: inv_defs worker_defs split: if_split_asm option.split)
next
  case (p_take_event s e i)
  then show ?case
    by (cases "in_queue (ps_inst s)"; cases "in_events (ps_inst s)")
      (auto simp: inv_defs worker_defs split: if_split_asm option.split)
next
  case (p_leave s i)
  then show ?case
    by (cases "in_queue (ps_inst s)")
      (auto simp: inv_defs worker_defs split: if_split_asm)
next
  case (p_init s r a b c)
  then show ?case
    by (auto simp: inv_defs worker_defs split: sum.split)
qed (auto simp: inv_defs worker_defs split: phase.splits)

lemma plugin_steps_inv: "plugin_steps s ls s' \<Longrightarrow> plugin_inv man s \<Longrightarrow> plugin_inv man s'"
  by (induction rule: plugin_steps.induct) (auto intro: plugin_step_inv)

section \<open>Stopping\<close>

fun worker :: "plugin_label \<Rightarrow> bool" where
  "worker PBegin = True"
| "worker (PInit _) = True"
| "worker PTake = True"
| "worker PReturn = True"
| "worker PEnd = True"
| "worker _ = False"

fun phase_weight :: "phase \<Rightarrow> nat" where
  "phase_weight NotStarted = 5"
| "phase_weight Initializing = 4"
| "phase_weight Waiting = 2"
| "phase_weight InCallback = 3"
| "phase_weight Closing = 1"
| "phase_weight Finished = 0"

definition work_left :: "plugin_instance \<Rightarrow> nat" where
  "work_left i = 2 * (length (in_queue i) + length (in_events i)) + phase_weight (in_phase i)"

lemma stopping_step:
  assumes "plugin_step s l s'" "in_stopping (ps_inst s)"
  shows "in_stopping (ps_inst s') \<and> (if worker l then 1 else 0) + work_left (ps_inst s') \<le> work_left (ps_inst s) \<and>
    ps_accepted s' = ps_accepted s \<and> ps_accepted_events s' = ps_accepted_events s"
  using assms
proof (induction rule: plugin_step.induct)
  case (p_on_command s name f r i)
  then show ?case
    using on_command_Inr [OF p_on_command(2)] by (simp add: work_left_def)
next
  case (p_on_event s kind f r i)
  then show ?case
    using on_event_Inr [OF p_on_event(2)] by (simp add: work_left_def)
next
  case (p_take_event s e i)
  then show ?case
    by (cases "in_queue (ps_inst s)"; cases "in_events (ps_inst s)")
      (auto simp: work_left_def worker_defs split: if_split_asm option.split)
next
  case (p_take_command s c i)
  then show ?case
    by (cases "in_queue (ps_inst s)") (auto simp: work_left_def worker_defs split: if_split_asm option.split)
next
  case (p_leave s i)
  then show ?case
    by (cases "in_queue (ps_inst s)") (auto simp: work_left_def worker_defs split: if_split_asm)
qed (auto simp: work_left_def worker_defs enqueue_def enqueue_event_def split: if_split_asm sum.split)

lemma stopping_steps:
  assumes "plugin_steps s ls s'" "in_stopping (ps_inst s)"
  shows "in_stopping (ps_inst s') \<and> length (filter worker ls) + work_left (ps_inst s') \<le> work_left (ps_inst s) \<and>
    ps_accepted s' = ps_accepted s \<and> ps_accepted_events s' = ps_accepted_events s"
  using assms
proof (induction rule: plugin_steps.induct)
  case (ps_snoc s ls s' l s'')
  then show ?case
    using stopping_step [of s' l s''] by (auto split: if_split_asm)
qed simp

lemma worker_enabled:
  assumes "in_stopping (ps_inst s)" "in_phase (ps_inst s) \<noteq> Finished"
  shows "\<exists>l s'. worker l \<and> plugin_step s l s'"
proof (cases "in_phase (ps_inst s)")
  case NotStarted
  then show ?thesis using p_begin worker.simps(1) by blast
next
  case Initializing
  then show ?thesis using p_init worker.simps(2) by blast
next
  case Waiting
  obtain w i where "take_work (ps_inst s) = (w, i)" by fastforce
  moreover from this have "w \<noteq> Blocked"
    using assms(1) by (auto simp: take_work_def split: if_split_asm list.split_asm)
  ultimately show ?thesis
    using Waiting p_take_command p_take_event p_leave worker.simps(3) by (cases w) blast+
next
  case InCallback
  then show ?thesis using p_return worker.simps(4) by blast
next
  case Closing
  then show ?thesis using p_end worker.simps(5) by blast
qed (use assms(2) in simp)

lemma plugin_steps_trans: "plugin_steps s' ls' s'' \<Longrightarrow> plugin_steps s ls s' \<Longrightarrow> plugin_steps s (ls @ ls') s''"
proof (induction rule: plugin_steps.induct)
  case (ps_snoc s' ls' s'' l s''')
  then show ?case
    using plugin_steps.ps_snoc [of s "ls @ ls'" s'' l s'''] by simp
qed simp

lemma plugin_step_one: "plugin_step s l s' \<Longrightarrow> plugin_steps s [l] s'"
  using ps_snoc [OF ps_refl] by simp


section \<open>Properties\<close>

text \<open>C7: A plug-in loses and reorders nothing it accepted.  In every interleaving of callers, worker
  and script, the commands started so far, followed by those still queued, are the accepted commands
  in order, and likewise the events, which are of subscribed kinds; neither queue exceeds 256; every
  action the script got accepted carries the plug-in's identifier; handlers exist for declared
  commands only; and when the worker has finished, everything accepted was started.\<close>

theorem plugin_delivers_in_order:
  assumes "plugin_steps (system_new man q) ls s"
  shows "ps_accepted s = ps_started s @ in_queue (ps_inst s) \<and>
    ps_accepted_events s = ps_started_events s @ in_events (ps_inst s) \<and>
    length (in_queue (ps_inst s)) \<le> 256 \<and> length (in_events (ps_inst s)) \<le> 256 \<and>
    list_all (\<lambda>e. canonical (pe_kind e) \<in> in_kinds (ps_inst s)) (ps_accepted_events s) \<and>
    list_all (\<lambda>a. sa_source_plugin a = pm_id man) (ps_pushed s) \<and>
    fst ` set (in_handlers (ps_inst s)) \<subseteq> declared_commands man \<and>
    (in_phase (ps_inst s) = Finished \<longrightarrow> ps_started s = ps_accepted s \<and> ps_started_events s = ps_accepted_events s)"
  using plugin_steps_inv [OF assms plugin_inv_new]
  by (auto simp: plugin_inv_def kMaxCommandQueue_def list_all_iff handlers_declared_def phase_ok_def idle_queues_def)

text \<open>C14: A plug-in that was told to stop finishes.  From a reachable state in which the stop flag is
  set, the worker makes at most twice as many steps as there are queued items, and five more, whatever
  the callers do meanwhile; nothing more is accepted; until it has finished the worker has a next
  step (a callback returns, the next item is taken, the thread ends), so with callbacks that return it
  finishes; and when it has, every command and event accepted before the stop was started.\<close>

theorem plugin_stop_drains:
  assumes "plugin_steps (system_new man q) ls0 s" "in_stopping (ps_inst s)" "plugin_steps s ls s'"
  shows "length (filter worker ls) \<le> 2 * (length (in_queue (ps_inst s)) + length (in_events (ps_inst s))) + 5 \<and>
    ps_accepted s' = ps_accepted s \<and> ps_accepted_events s' = ps_accepted_events s \<and>
    (if in_phase (ps_inst s') = Finished then ps_started s' = ps_accepted s \<and> ps_started_events s' = ps_accepted_events s
     else \<exists>l s''. worker l \<and> plugin_step s' l s'')"
proof -
  have steps: "in_stopping (ps_inst s')" "length (filter worker ls) + work_left (ps_inst s') \<le> work_left (ps_inst s)"
    "ps_accepted s' = ps_accepted s" "ps_accepted_events s' = ps_accepted_events s"
    using stopping_steps [OF assms(3,2)] by blast+
  have inv: "plugin_inv man s'"
    using plugin_steps_inv [OF plugin_steps_trans [OF assms(3,1)] plugin_inv_new] .
  have "phase_weight (in_phase (ps_inst s)) \<le> 5"
    by (cases "in_phase (ps_inst s)") simp_all
  then show ?thesis
    using steps inv worker_enabled [OF steps(1)]
    by (auto simp: work_left_def plugin_inv_def phase_ok_def idle_queues_def)
qed


definition sample_manifest :: plugin_manifest where
  "sample_manifest =
     \<lparr>pm_schema_version = 1, pm_id = ''chat'', pm_version = ''1'', pm_directory = ''/p/chat'',
      pm_entrypoint = ''/p/chat/init.lua'', pm_memory_limit = 2 ^ 20, pm_instruction_limit = 1000, pm_commands = []\<rparr>"

definition sample_invocation :: command_invocation where
  "sample_invocation =
     \<lparr>ci_plugin_id = ''chat'', ci_command = ''hi'', ci_args = [], ci_raw = ''/hi'', ci_player = ''Ann'', ci_player_handle = 7,
      ci_auth = Player, ci_principal = InGamePlayer, ci_operator_uid = 0\<rparr>"

text \<open>A plug-in that starts, accepts one command and is told to stop.\<close>

lemma sample_run:
  "\<exists>s :: plugin_system. plugin_steps (system_new sample_manifest (aq_new 4)) [PBegin, PInit (Inr ()), PEnqueue sample_invocation, PStop] s \<and>
     in_stopping (ps_inst s) \<and> ps_accepted s = [sample_invocation] \<and> in_queue (ps_inst s) = [sample_invocation] \<and>
     in_events (ps_inst s) = [] \<and> in_phase (ps_inst s) = Waiting"
proof -
  let ?s0 = "system_new sample_manifest (aq_new 4)"
  let ?s1 = "?s0\<lparr>ps_inst := begin_run (ps_inst ?s0)\<rparr>"
  let ?s2 = "?s1\<lparr>ps_inst := publish_init (Inr ()) (ps_inst ?s1)\<rparr>"
  let ?s3 = "?s2\<lparr>ps_inst := snd (enqueue sample_invocation (ps_inst ?s2)), ps_accepted := ps_accepted ?s2 @ [sample_invocation]\<rparr>"
  let ?s4 = "?s3\<lparr>ps_inst := request_stop (ps_inst ?s3)\<rparr>"
  note sample = system_new_def instance_new_def sample_manifest_def worker_defs
  have a: "plugin_step ?s0 PBegin ?s1"
    by (rule p_begin) (simp add: sample)
  have b: "plugin_step ?s1 (PInit (Inr ())) ?s2"
    by (rule p_init [of _ _ True None None]) (simp_all add: sample initialize_lua_def missing_handler_def)
  have c: "plugin_step ?s2 (PEnqueue sample_invocation) ?s3"
    using p_enqueue [of sample_invocation ?s2 True]
    by (simp add: sample enqueue_def kMaxCommandQueue_def)
  have d: "plugin_step ?s3 PStop ?s4"
    by (rule p_stop)
  show ?thesis
    using ps_snoc [OF ps_snoc [OF ps_snoc [OF ps_snoc [OF ps_refl a] b] c] d]
    by (intro exI [of _ ?s4]) (simp add: sample enqueue_def kMaxCommandQueue_def)
qed

theorem plugin_delivers_in_order_witness:
  "\<exists>s :: plugin_system. plugin_steps (system_new sample_manifest (aq_new 4)) [PBegin, PInit (Inr ()), PEnqueue sample_invocation, PStop] s \<and>
     [sample_invocation] = ps_started s @ in_queue (ps_inst s)"
proof -
  obtain s :: plugin_system where s:
    "plugin_steps (system_new sample_manifest (aq_new 4)) [PBegin, PInit (Inr ()), PEnqueue sample_invocation, PStop] s"
    "ps_accepted s = [sample_invocation]"
    using sample_run by blast
  then show ?thesis
    using plugin_delivers_in_order [OF s(1)] by metis
qed

theorem plugin_stop_drains_witness:
  "\<exists>(s :: plugin_system) l s''. ps_accepted s = [sample_invocation] \<and> in_stopping (ps_inst s) \<and> worker l \<and> plugin_step s l s''"
proof -
  obtain s :: plugin_system where s:
    "plugin_steps (system_new sample_manifest (aq_new 4)) [PBegin, PInit (Inr ()), PEnqueue sample_invocation, PStop] s"
    "in_stopping (ps_inst s)" "ps_accepted s = [sample_invocation]" "in_phase (ps_inst s) = Waiting"
    using sample_run by blast
  then show ?thesis
    using plugin_stop_drains [OF s(1,2) ps_refl] by (auto split: if_split_asm)
qed

end
