(* ===== verification/Palmod_Plugin_Runtime.thy ===== *)
theory Palmod_Plugin_Runtime
  imports Palmod_Plugin_Instance
begin

text \<open>
  The set of loaded plug-ins (\<^verbatim>\<open>PluginRuntime\<close> of \<^verbatim>\<open>native/src/plugin_runtime.cpp\<close>): discovery and
  loading, dispatch of commands, fan-out of events, status and shutdown.

  What a script does while it is loaded is an argument, \<open>scripts\<close>: the handlers and subscriptions it
  registers and the result of its initialization.
\<close>

section \<open>Loading\<close>

type_synonym plugins = "(string, plugin_instance) smap"

record script_result =
  sr_handlers :: "(string, int) smap"
  sr_event_handlers :: "(string, int) smap"
  sr_kinds :: "string set"
  sr_result :: "unit outcome"

definition start_instance :: "(plugin_manifest \<Rightarrow> script_result) \<Rightarrow> plugin_manifest \<Rightarrow> plugin_instance" where
  "start_instance scripts man =
     (let r = scripts man
      in publish_init (sr_result r)
           ((begin_run (instance_new man))\<lparr>in_handlers := sr_handlers r, in_event_handlers := sr_event_handlers r,
              in_kinds := sr_kinds r\<rparr>))"

record load_report =
  lr_discovered :: nat
  lr_loaded :: nat
  lr_errors :: "string list"

definition report_ok :: "load_report \<Rightarrow> bool" where
  "report_ok r \<longleftrightarrow> lr_errors r = [] \<and> lr_discovered r = lr_loaded r"

text \<open>Paths compare element by element.\<close>

fun path_elements :: "string \<Rightarrow> string list" where
  "path_elements [] = [[]]"
| "path_elements (c # cs) =
     (if c = CHR ''/'' then [] # path_elements cs
      else (case path_elements cs of e # es \<Rightarrow> (c # e) # es | [] \<Rightarrow> [[c]]))"

definition manifest_paths :: "file_system \<Rightarrow> string \<Rightarrow> string list" where
  "manifest_paths fs root =
     sort_key path_elements
       (filter (fs_regular fs) (map (\<lambda>d. path_join d ''manifest.json'') (filter (fs_directory fs) (fs_entries fs root))))"

text \<open>Registering stops at the first refusal; what was registered before stays.\<close>

fun register_all :: "command_spec list \<Rightarrow> router \<Rightarrow> string option \<times> router" where
  "register_all [] r = (None, r)"
| "register_all (c # cs) r =
     (case register_command c r of Inl e \<Rightarrow> (Some e, r) | Inr r' \<Rightarrow> register_all cs r')"

type_synonym load_state = "load_report \<times> plugins \<times> router"

definition add_error :: "string \<Rightarrow> string \<Rightarrow> load_report \<Rightarrow> load_report" where
  "add_error who e report = report\<lparr>lr_errors := lr_errors report @ [who @ '': '' @ e]\<rparr>"

definition load_one :: "file_system \<Rightarrow> (plugin_manifest \<Rightarrow> script_result) \<Rightarrow> string \<Rightarrow> load_state \<Rightarrow> load_state" where
  "load_one fs scripts path s =
     (case s of (report, plugins, r) \<Rightarrow>
        (case manifest_load fs path of
           Inl e \<Rightarrow> (add_error path e report, plugins, r)
         | Inr man \<Rightarrow>
             (let i = start_instance scripts man
              in if \<not> in_running i
                 then (add_error (pm_id man) (in_error i) report, fst (smap_emplace (pm_id man) i plugins), r)
                 else (case register_all (pm_commands man) r of
                         (Some e, r') \<Rightarrow> (add_error (pm_id man) e report, plugins, r')
                       | (None, r') \<Rightarrow>
                           (case smap_emplace (pm_id man) i plugins of
                              (plugins', inserted) \<Rightarrow>
                                if \<not> inserted then (add_error (pm_id man) ''duplicate plugin id'' report, plugins', r')
                                else (report\<lparr>lr_loaded := lr_loaded report + 1\<rparr>, plugins', r'))))))"

definition load_directory_report ::
  "file_system \<Rightarrow> (plugin_manifest \<Rightarrow> script_result) \<Rightarrow> string \<Rightarrow> plugins \<Rightarrow> router \<Rightarrow> load_state" where
  "load_directory_report fs scripts root plugins r =
     (if \<not> fs_directory fs root
      then (\<lparr>lr_discovered = 0, lr_loaded = 0, lr_errors = [''plugin directory is unavailable: '' @ root]\<rparr>, plugins, r)
      else (let manifests = manifest_paths fs root
            in fold (load_one fs scripts) manifests
                 (\<lparr>lr_discovered = length manifests, lr_loaded = 0, lr_errors = []\<rparr>, plugins, r)))"

definition load_directory ::
  "file_system \<Rightarrow> (plugin_manifest \<Rightarrow> script_result) \<Rightarrow> string \<Rightarrow> plugins \<Rightarrow> router \<Rightarrow> nat \<times> plugins \<times> router" where
  "load_directory fs scripts root plugins r =
     (case load_directory_report fs scripts root plugins r of (report, plugins', r') \<Rightarrow> (lr_loaded report, plugins', r'))"


section \<open>Running\<close>

definition dispatch :: "command_invocation \<Rightarrow> plugins \<Rightarrow> bool \<times> plugins" where
  "dispatch invocation plugins =
     (case smap_find plugins (ci_plugin_id invocation) of
        None \<Rightarrow> (False, plugins)
      | Some i \<Rightarrow>
          (let (ok, i') = enqueue invocation i in (ok, smap_put (ci_plugin_id invocation) i' plugins)))"

fun deliver_event :: "plugin_event \<Rightarrow> plugins \<Rightarrow> nat \<times> plugins" where
  "deliver_event event [] = (0, [])"
| "deliver_event event ((k, i) # plugins) =
     (let (ok, i') = enqueue_event event i; (n, rest) = deliver_event event plugins
      in ((if ok then 1 else 0) + n, (k, i') # rest))"

definition subscribed_event_kinds :: "plugins \<Rightarrow> string set" where
  "subscribed_event_kinds plugins = (\<Union>(k, i) \<in> set plugins. in_kinds i)"

definition statuses :: "plugins \<Rightarrow> plugin_status list" where
  "statuses plugins = map (\<lambda>(k, i). instance_status i) plugins"

text \<open>The instances that are told to stop, and the empty set that is left.\<close>

definition plugins_stop :: "plugins \<Rightarrow> plugin_instance list \<times> plugins" where
  "plugins_stop plugins = (map (\<lambda>(k, i). request_stop i) plugins, [])"


section \<open>Lemmas\<close>

lemma start_instance_manifest [simp]: "in_manifest (start_instance scripts man) = man"
  by (simp add: start_instance_def Let_def worker_defs instance_new_def split: sum.split)

lemma start_instance_fresh [simp]:
  "\<not> in_stopping (start_instance scripts man)" "in_queue (start_instance scripts man) = []"
  by (simp_all add: start_instance_def Let_def worker_defs instance_new_def split: sum.split)

lemma register_all_grows:
  "register_all cs r = (e, r') \<Longrightarrow> router_inv r \<Longrightarrow>
     router_inv r' \<and> (\<forall>k v. smap_find r k = Some v \<longrightarrow> smap_find r' k = Some v)"
proof (induction cs arbitrary: r)
  case (Cons c cs)
  show ?case
  proof (cases "register_command c r")
    case (Inl e')
    then show ?thesis using Cons.prems by auto
  next
    case (Inr r1)
    note reg = register_command_cases [OF Inr] register_command_inv [OF Inr Cons.prems(2)]
    have "smap_find r1 k = Some v" if "smap_find r k = Some v" for k v
      using that reg Cons.prems(2) by (auto simp: smap_find_put router_inv_def)
    then show ?thesis
      using Cons.IH [of r1] Cons.prems Inr reg(4) by auto
  qed
qed auto

lemma register_all_None:
  "register_all cs r = (None, r') \<Longrightarrow> router_inv r \<Longrightarrow> list_all (\<lambda>c. smap_find r' (canonical (cs_name c)) = Some c) cs"
proof (induction cs arbitrary: r)
  case (Cons c cs)
  obtain r1 where r1: "register_command c r = Inr r1" "register_all cs r1 = (None, r')"
    using Cons.prems(1) by (auto split: sum.split_asm)
  note reg = register_command_cases [OF r1(1)] register_command_inv [OF r1(1) Cons.prems(2)]
  have "smap_find r1 (canonical (cs_name c)) = Some c"
    using reg Cons.prems(2) by (simp add: smap_find_put router_inv_def)
  then show ?case
    using Cons.IH [OF r1(2) reg(4)] register_all_grows [OF r1(2) reg(4)] by simp
qed simp

definition commands_registered :: "router \<Rightarrow> plugin_instance \<Rightarrow> bool" where
  "commands_registered r i \<longleftrightarrow>
     list_all (\<lambda>c. smap_find r (canonical (cs_name c)) = Some c) (pm_commands (in_manifest i))"

definition entry_ok :: "router \<Rightarrow> string \<times> plugin_instance \<Rightarrow> bool" where
  "entry_ok r ki \<longleftrightarrow>
     fst ki = pm_id (in_manifest (snd ki)) \<and>
     list_all (\<lambda>c. cs_plugin_id c = fst ki) (pm_commands (in_manifest (snd ki))) \<and>
     (if in_running (snd ki)
      then commands_registered r (snd ki) \<and> \<not> in_stopping (snd ki) \<and> in_queue (snd ki) = [] else True)"

definition running_count :: "plugins \<Rightarrow> nat" where
  "running_count plugins = length (filter (\<lambda>ki. in_running (snd ki)) plugins)"

fun load_inv :: "nat \<Rightarrow> load_state \<Rightarrow> bool" where
  "load_inv n (report, plugins, r) \<longleftrightarrow>
     n = lr_loaded report + length (lr_errors report) \<and> running_count plugins = lr_loaded report \<and>
     smap_inv plugins \<and> router_inv r \<and> (\<forall>ki \<in> set plugins. entry_ok r ki)"

lemma length_filter_put:
  "k \<notin> fst ` set m \<Longrightarrow> length (filter P (smap_put k v m)) = length (filter P m) + (if P (k, v) then 1 else 0)"
  by (induction k v m rule: smap_put.induct) auto

lemma entry_ok_mono:
  "entry_ok r ki \<Longrightarrow> (\<And>k v. smap_find r k = Some v \<Longrightarrow> smap_find r' k = Some v) \<Longrightarrow> entry_ok r' ki"
  by (auto simp: entry_ok_def commands_registered_def list_all_iff)

lemma emplace_entry:
  assumes "smap_emplace k i plugins = (plugins', inserted)" "smap_inv plugins"
    "\<forall>ki \<in> set plugins. entry_ok r ki" "entry_ok r (k, i)"
  shows "smap_inv plugins' \<and> (\<forall>ki \<in> set plugins'. entry_ok r ki) \<and>
    running_count plugins' = running_count plugins + (if inserted \<and> in_running i then 1 else 0)"
proof (cases "smap_find plugins k")
  case None
  then have put: "plugins' = smap_put k i plugins" "inserted"
    using assms(1) by (simp_all add: smap_emplace_def)
  have "k \<notin> fst ` set plugins"
    using None by (simp add: smap_find_def map_of_eq_None_iff)
  then show ?thesis
    using assms(2-4) set_smap_put [of k i plugins]
    by (auto simp: put smap.inv_put running_count_def length_filter_put)
qed (use assms in \<open>auto simp: smap_emplace_def\<close>)

lemma load_one_inv:
  assumes "load_inv n s"
  shows "load_inv (Suc n) (load_one fs scripts path s)"
proof -
  obtain report plugins r where s: "s = (report, plugins, r)" by (cases s)
  note inv = assms [unfolded s load_inv.simps]
  show ?thesis
  proof (cases "manifest_load fs path")
    case (Inl e)
    then show ?thesis using inv by (simp add: s load_one_def add_error_def)
  next
    case (Inr man)
    let ?i = "start_instance scripts man"
    have own: "list_all (\<lambda>c. cs_plugin_id c = pm_id man) (pm_commands man)"
      using manifest_load_wf [OF Inr] by (auto simp: manifest_wf_def list_all_iff)
    obtain plugins' inserted where e: "smap_emplace (pm_id man) ?i plugins = (plugins', inserted)" by fastforce
    show ?thesis
    proof (cases "in_running ?i")
      case False
      have step: "load_one fs scripts path s = (add_error (pm_id man) (in_error ?i) report, plugins', r)"
        using Inr False e by (simp add: s load_one_def)
      have "entry_ok r (pm_id man, ?i)"
        using False own by (simp add: entry_ok_def)
      then have placed: "smap_inv plugins' \<and> (\<forall>ki \<in> set plugins'. entry_ok r ki) \<and> running_count plugins' = running_count plugins"
        using inv emplace_entry [OF e, of r] False by simp
      show ?thesis
        unfolding step load_inv.simps using inv placed by (simp add: add_error_def)
    next
      case running: True
      obtain failure r' where reg: "register_all (pm_commands man) r = (failure, r')" by fastforce
      have grows: "router_inv r'" "\<And>k v. smap_find r k = Some v \<Longrightarrow> smap_find r' k = Some v"
        using register_all_grows [OF reg] inv by blast+
      have old: "\<forall>ki \<in> set plugins. entry_ok r' ki"
        using inv entry_ok_mono [OF _ grows(2)] by blast
      show ?thesis
      proof (cases failure)
        case (Some e')
        have step: "load_one fs scripts path s = (add_error (pm_id man) e' report, plugins, r')"
          using Inr running reg Some by (simp add: s load_one_def)
        show ?thesis
          unfolding step using inv grows(1) old by (simp add: add_error_def)
      next
        case None
        have step: "load_one fs scripts path s =
            (if inserted then report\<lparr>lr_loaded := lr_loaded report + 1\<rparr>
             else add_error (pm_id man) ''duplicate plugin id'' report, plugins', r')"
          using Inr running reg None e by (simp add: s load_one_def)
        have "entry_ok r' (pm_id man, ?i)"
          using register_all_None [OF reg [unfolded None]] inv own by (simp add: entry_ok_def commands_registered_def)
        then have placed: "smap_inv plugins' \<and> (\<forall>ki \<in> set plugins'. entry_ok r' ki) \<and>
            running_count plugins' = running_count plugins + (if inserted then 1 else 0)"
          using inv emplace_entry [OF e _ old] running by simp
        show ?thesis
          unfolding step load_inv.simps using inv grows(1) placed by (simp add: add_error_def)
      qed
    qed
  qed
qed

lemma load_all_inv: "load_inv n s \<Longrightarrow> load_inv (n + length paths) (fold (load_one fs scripts) paths s)"
proof (induction paths arbitrary: n s)
  case (Cons path paths)
  then show ?case
    using Cons.IH [OF load_one_inv [OF Cons.prems]] by simp
qed simp

lemma load_one_discovered: "lr_discovered (fst (load_one fs scripts path s)) = lr_discovered (fst s)"
  by (auto simp: load_one_def add_error_def Let_def split: prod.split sum.split option.split)

lemma load_all_discovered: "lr_discovered (fst (fold (load_one fs scripts) paths s)) = lr_discovered (fst s)"
  by (induction paths arbitrary: s) (simp_all add: load_one_discovered)

lemma load_directory_inv:
  assumes "load_directory_report fs scripts root [] [] = (report, plugins, r)"
  shows "load_inv (lr_loaded report + length (lr_errors report)) (report, plugins, r)"
    "if fs_directory fs root then lr_discovered report = lr_loaded report + length (lr_errors report)
     else lr_discovered report = 0 \<and> lr_loaded report = 0 \<and> length (lr_errors report) = 1"
proof -
  let ?s = "(\<lparr>lr_discovered = length (manifest_paths fs root), lr_loaded = 0, lr_errors = []\<rparr>, [], [])"
  have "load_inv 0 ?s"
    by (simp add: router_inv_def running_count_def)
  note inv = load_all_inv [OF this, of "manifest_paths fs root" fs scripts]
  have "load_inv (lr_loaded report + length (lr_errors report)) (report, plugins, r) \<and>
    (if fs_directory fs root then lr_discovered report = lr_loaded report + length (lr_errors report)
     else lr_discovered report = 0 \<and> lr_loaded report = 0 \<and> length (lr_errors report) = 1)"
    using assms inv load_all_discovered [of fs scripts "manifest_paths fs root" ?s]
    by (cases "fs_directory fs root")
      (auto simp: load_directory_report_def Let_def router_inv_def running_count_def)
  then show "load_inv (lr_loaded report + length (lr_errors report)) (report, plugins, r)"
    "if fs_directory fs root then lr_discovered report = lr_loaded report + length (lr_errors report)
     else lr_discovered report = 0 \<and> lr_loaded report = 0 \<and> length (lr_errors report) = 1"
    by blast+
qed

interpretation players: dispatcher dispatch smap_inv
  by unfold_locales (auto simp: dispatch_def smap.inv_put split: option.split_asm prod.split_asm)

lemma deliver_event_alt:
  "deliver_event event plugins =
     (length (filter (\<lambda>(k, i). fst (enqueue_event event i)) plugins),
      map (\<lambda>(k, i). (k, snd (enqueue_event event i))) plugins)"
  by (induction plugins) (auto simp: split: prod.split)

lemma dispatch_cases:
  assumes "dispatch invocation plugins = (ok, plugins')" "smap_inv plugins"
  shows "if ok
    then \<exists>i. smap_find plugins (ci_plugin_id invocation) = Some i \<and> in_running i \<and> \<not> in_stopping i \<and>
      length (in_queue i) < kMaxCommandQueue \<and>
      smap_find plugins' = (smap_find plugins)(ci_plugin_id invocation \<mapsto> i\<lparr>in_queue := in_queue i @ [invocation]\<rparr>)
    else smap_find plugins' = smap_find plugins"
  using assms
  by (auto simp: dispatch_def enqueue_def smap_find_put fun_eq_iff split: option.split_asm if_split_asm)


section \<open>Properties\<close>


text \<open>A plug-in that declares a command twice is refused, but its command stays registered.\<close>

lemma leftover_command:
  "register_all [sample_spec, sample_spec] [] = (Some ''duplicate command: kick'', [(''kick'', sample_spec)])"
  by (simp add: register_command_def sample_spec_def valid_command_name_def smap_emplace_def canonical_def lower_def cctype_defs
      command_char_def char_of_eq_code)

end
