(* ===== verification/Palmod_Player_Directory.thy ===== *)
theory Palmod_Player_Directory
  imports Palmod_Prelude
begin

text \<open>
  The registry of connected players (\<^verbatim>\<open>native/src/player_directory.cpp\<close>): a map from stable id
  to record, and a resolution that never guesses.  The proofs use the map through the facts of
  the interpretation \<open>smap\<close> of \<open>ordered_map\<close>.
\<close>

section \<open>The directory\<close>

record player_record =
  pr_stable_id :: string
  pr_display_name :: string
  pr_handle :: u64

datatype resolve_status = Resolved | NotFound | Ambiguous

record player_resolution =
  res_status :: resolve_status
  res_player :: player_record
  res_candidate_count :: nat

type_synonym player_directory = "(string, player_record) smap"

definition player_record_new :: player_record where
  "player_record_new = \<lparr>pr_stable_id = [], pr_display_name = [], pr_handle = 0\<rparr>"

definition kMaxField :: nat where
  "kMaxField = 128"

definition upsert :: "string \<Rightarrow> string \<Rightarrow> u64 \<Rightarrow> player_directory \<Rightarrow> player_directory outcome" where
  "upsert stable_id display_name handle d =
     (if stable_id = [] \<or> kMaxField < length stable_id
      then Inl ''player stable_id must be between 1 and 128 bytes''
      else if display_name = [] \<or> kMaxField < length display_name
      then Inl ''player display_name must be between 1 and 128 bytes''
      else Inr (smap_put stable_id
             \<lparr>pr_stable_id = stable_id, pr_display_name = display_name, pr_handle = handle\<rparr> d))"

definition remove :: "string \<Rightarrow> player_directory \<Rightarrow> bool \<times> player_directory" where
  "remove stable_id d =
     (case smap_find d stable_id of None \<Rightarrow> (False, d) | Some _ \<Rightarrow> (True, smap_erase stable_id d))"

definition dir_clear :: "player_directory \<Rightarrow> player_directory" where
  "dir_clear d = []"

text \<open>The scan over the records: the last match and how many there were.\<close>

fun name_scan :: "string \<Rightarrow> player_directory \<Rightarrow> player_record option \<times> nat \<Rightarrow> player_record option \<times> nat" where
  "name_scan query [] acc = acc"
| "name_scan query ((i, r) # d) (best, n) =
     (if pr_display_name r = query then name_scan query d (Some r, n + 1)
      else name_scan query d (best, n))"

definition resolve :: "string \<Rightarrow> player_directory \<Rightarrow> player_resolution" where
  "resolve query d =
     (let none = \<lparr>res_status = NotFound, res_player = player_record_new, res_candidate_count = 0\<rparr>
      in if query = [] then none
         else (case smap_find d query of
                 Some r \<Rightarrow> \<lparr>res_status = Resolved, res_player = r, res_candidate_count = 1\<rparr>
               | None \<Rightarrow>
                   (let (best, count) = name_scan query d (None, 0)
                    in if count = 1 then
                         (case best of
                            Some r \<Rightarrow> \<lparr>res_status = Resolved, res_player = r, res_candidate_count = 1\<rparr>
                          | None \<Rightarrow> none)
                       else if count = 0 then none
                       else \<lparr>res_status = Ambiguous, res_player = player_record_new, res_candidate_count = count\<rparr>)))"

definition directory_inv :: "player_directory \<Rightarrow> bool" where
  "directory_inv d \<longleftrightarrow> smap_inv d \<and>
     (\<forall>(i, r) \<in> set d. pr_stable_id r = i \<and> i \<noteq> [] \<and> length i \<le> kMaxField \<and>
        pr_display_name r \<noteq> [] \<and> length (pr_display_name r) \<le> kMaxField)"

definition bearers :: "string \<Rightarrow> player_directory \<Rightarrow> player_record list" where
  "bearers name d = filter (\<lambda>r. pr_display_name r = name) (map snd d)"

datatype dir_op = Join string string u64 | Leave string | Clear

text \<open>A rejected join leaves the directory as it was.\<close>

fun run_dir_op :: "dir_op \<Rightarrow> player_directory \<Rightarrow> player_directory" where
  "run_dir_op (Join i n h) d = (case upsert i n h d of Inl _ \<Rightarrow> d | Inr d' \<Rightarrow> d')"
| "run_dir_op (Leave i) d = snd (remove i d)"
| "run_dir_op Clear d = dir_clear d"


section \<open>Lemmas\<close>

lemma bearers_simps [simp]:
  "bearers q [] = []"
  "bearers q ((i, r) # d) = (if pr_display_name r = q then r # bearers q d else bearers q d)"
  by (simp_all add: bearers_def)

lemma name_scan_bearers:
  "name_scan q d (b, n) =
     (if bearers q d = [] then b else Some (last (bearers q d)), n + length (bearers q d))"
  by (induction d arbitrary: b n) (auto split: if_splits)

lemma set_smap_put_Pair: "set (smap_put k v m) \<subseteq> insert (k, v) (set m)"
  by (induction k v m rule: smap_put.induct) auto

lemma run_dir_op_inv: "directory_inv d \<Longrightarrow> directory_inv (run_dir_op op d)"
proof (induction op d rule: run_dir_op.induct)
  case (1 i n h d)
  then show ?case
    using set_smap_put_Pair [of i "\<lparr>pr_stable_id = i, pr_display_name = n, pr_handle = h\<rparr>" d]
    by (auto simp: upsert_def directory_inv_def smap.inv_put)
next
  case (2 i d)
  then show ?case
    using set_smap_erase [of i d]
    by (auto simp: remove_def directory_inv_def smap.inv_erase split: option.split)
qed (simp add: dir_clear_def directory_inv_def)

lemma directory_reachable_inv: "directory_inv d \<Longrightarrow> directory_inv (fold run_dir_op ops d)"
  by (induction ops arbitrary: d) (simp_all add: run_dir_op_inv)

lemma ran_smap_find: "smap_inv d \<Longrightarrow> ran (smap_find d) = snd ` set d"
  by (force simp: ran_def smap_find_iff)

lemma distinct_bearers:
  assumes "directory_inv d"
  shows "distinct (bearers q d)"
proof -
  have "inj_on snd (set d)"
  proof (rule inj_onI)
    fix x y
    assume "x \<in> set d" "y \<in> set d" "snd x = snd y"
    moreover have "fst z = pr_stable_id (snd z)" if "z \<in> set d" for z
      using assms that by (auto simp: directory_inv_def)
    ultimately show "x = y" by (simp add: prod_eq_iff)
  qed
  moreover have "distinct d"
    using assms smap_inv_distinct distinct_map by (auto simp: directory_inv_def)
  ultimately show ?thesis
    by (simp add: bearers_def distinct_map)
qed

lemma bearers_singleton:
  assumes "directory_inv d"
  shows "bearers q d = [r] \<longleftrightarrow> {s \<in> ran (smap_find d). pr_display_name s = q} = {r}"
proof -
  have "set (bearers q d) = {s \<in> ran (smap_find d). pr_display_name s = q}"
    using assms ran_smap_find [of d] by (auto simp: bearers_def directory_inv_def)
  moreover have "set (bearers q d) = {r} \<longleftrightarrow> bearers q d = [r]"
    using distinct_bearers [OF assms, of q] by (cases "bearers q d") (auto simp: subset_singleton_iff)
  ultimately show ?thesis by simp
qed

lemma resolve_alt:
  "q \<noteq> [] \<Longrightarrow> smap_find d q = None \<Longrightarrow>
   resolve q d =
     (case bearers q d of
        [] \<Rightarrow> \<lparr>res_status = NotFound, res_player = player_record_new, res_candidate_count = 0\<rparr>
      | [r] \<Rightarrow> \<lparr>res_status = Resolved, res_player = r, res_candidate_count = 1\<rparr>
      | rs \<Rightarrow> \<lparr>res_status = Ambiguous, res_player = player_record_new, res_candidate_count = length rs\<rparr>)"
  by (auto simp: resolve_def name_scan_bearers split: list.split)

lemma resolve_empty: "res_status (resolve [] d) = NotFound"
  by (simp add: resolve_def)


section \<open>Properties\<close>

text \<open>C31: Resolution never guesses: after any history of joins, leaves and resets, a query resolves
  to a player exactly when it is that player's stable id, or when it is nobody's stable id and
  that player is the only one connected under that display name.\<close>

theorem resolve_never_guesses:
  fixes ops
  defines "d \<equiv> fold run_dir_op ops []"
  shows "(res_status (resolve q d) = Resolved \<and> res_player (resolve q d) = r) \<longleftrightarrow>
    smap_find d q = Some r \<or>
    (q \<noteq> [] \<and> smap_find d q = None \<and> {s \<in> ran (smap_find d). pr_display_name s = q} = {r})"
proof -
  have inv: "directory_inv d"
    unfolding d_def by (rule directory_reachable_inv) (simp add: directory_inv_def)
  have nonempty: "smap_find d [] = None"
  proof (rule ccontr)
    assume "smap_find d [] \<noteq> None"
    then obtain s where "([], s) \<in> set d" by (auto dest: smap_find_Some_in)
    with inv show False by (auto simp: directory_inv_def)
  qed
  show ?thesis
  proof (cases "smap_find d q")
    case (Some s)
    then have "q \<noteq> []" using nonempty by auto
    with Some show ?thesis by (simp add: resolve_def)
  next
    case None
    then show ?thesis
      unfolding bearers_singleton [OF inv, symmetric]
      by (cases "q = []") (simp_all add: resolve_alt resolve_empty split: list.split)
  qed
qed

text \<open>C32: Joining, leaving and rejoining: a player who joins with fields of legal size is found by
  stable id with the data of the latest join, the other players stay as they were, and after
  leaving the id resolves to nobody unless it is somebody's unique display name.\<close>

theorem join_leave_refine_map:
  fixes ops
  defines "d \<equiv> fold run_dir_op ops []"
  shows "smap_find (run_dir_op (Join i n h) d) =
      (if i \<noteq> [] \<and> length i \<le> 128 \<and> n \<noteq> [] \<and> length n \<le> 128
       then (smap_find d)(i \<mapsto> \<lparr>pr_stable_id = i, pr_display_name = n, pr_handle = h\<rparr>) else smap_find d) \<and>
    smap_find (run_dir_op (Leave i) d) = (smap_find d)(i := None) \<and>
    (fst (remove i d) \<longleftrightarrow> smap_find d i \<noteq> None)"
proof -
  have "smap_inv d"
    using directory_reachable_inv [of "[]" ops] by (simp add: d_def directory_inv_def)
  then show ?thesis
    by (auto simp: upsert_def kMaxField_def remove_def smap.find_put smap.find_erase split: option.split)
qed

end
