(* ===== verification/Palmod_Runtime.thy ===== *)
theory Palmod_Runtime
  imports Palmod_Profile_Gate Palmod_Plugin_Runtime Palmod_Player_Directory
begin

text \<open>
  The runtime (\<^verbatim>\<open>native/src/runtime.cpp\<close>): the state machine that starts palmod in the server
  process, the entry points the hooks call, the transactional reload of plug-ins and the requests of
  the control socket.

  What lies outside (the descriptor, the executable, live memory, the file system, the scripts, the
  control socket and the hook backend) is the record \<open>environment\<close>.  Each operation is one
  function on the runtime's state.
\<close>

section \<open>State\<close>

record runtime_config =
  cfg_profile_fd :: int
  cfg_sha256 :: string
  cfg_plugin_directory :: string
  cfg_control_socket :: string
  cfg_enable_control :: bool

definition config_new :: runtime_config where
  "config_new = \<lparr>cfg_profile_fd = - 1, cfg_sha256 = [], cfg_plugin_directory = [], cfg_control_socket = [],
     cfg_enable_control = True\<rparr>"

text \<open>\<^verbatim>\<open>std::from_chars\<close> into an \<^verbatim>\<open>int\<close>, the whole token.\<close>

definition from_chars_i32 :: "string \<Rightarrow> int option" where
  "from_chars_i32 tok =
     (case from_chars_i64 tok of
        None \<Rightarrow> None
      | Some i \<Rightarrow> if - (2 ^ 31) \<le> i \<and> i < 2 ^ 31 then Some i else None)"

definition config_from_environment :: "(string \<Rightarrow> string option) \<Rightarrow> runtime_config" where
  "config_from_environment getenv =
     \<lparr>cfg_profile_fd =
        (case getenv ''PALMOD_PROFILE_FD'' of
           None \<Rightarrow> - 1
         | Some fd \<Rightarrow> (case from_chars_i32 fd of None \<Rightarrow> - 1 | Some n \<Rightarrow> n)),
      cfg_sha256 = (case getenv ''PALMOD_PROFILE_SHA256'' of None \<Rightarrow> [] | Some d \<Rightarrow> d),
      cfg_plugin_directory = (case getenv ''PALMOD_PLUGIN_DIR'' of None \<Rightarrow> [] | Some d \<Rightarrow> d),
      cfg_control_socket = (case getenv ''PALMOD_CONTROL_SOCKET'' of None \<Rightarrow> [] | Some s \<Rightarrow> s),
      cfg_enable_control = True\<rparr>"

datatype runtime_state = Cold | Starting | UnsupportedBuild | Running | Failed | Stopped

record runtime =
  rt_state :: runtime_state
  rt_error :: string
  rt_fingerprint :: "build_fingerprint option"
  rt_profile :: "build_profile option"
  rt_actions :: action_queue
  rt_players :: player_directory
  rt_commands :: router
  rt_plugins :: plugins
  rt_reader :: reader
  rt_plugin_directory :: string
  rt_hooked :: bool
  rt_generic_hooks :: "string set"
  rt_control :: bool
  rt_watching :: bool

definition runtime_new :: runtime where
  "runtime_new =
     \<lparr>rt_state = Cold, rt_error = [], rt_fingerprint = None, rt_profile = None, rt_actions = aq_new 1024,
      rt_players = [], rt_commands = [], rt_plugins = [], rt_reader = None, rt_plugin_directory = [], rt_hooked = False,
      rt_generic_hooks = {}, rt_control = False, rt_watching = False\<rparr>"

record environment =
  env_profile_path :: bool
  env_fd :: sealed_fd
  env_fingerprint :: "build_fingerprint outcome"
  env_mem :: mem
  env_fs :: file_system
  env_scripts :: "plugin_manifest \<Rightarrow> script_result"
  env_control :: "string \<Rightarrow> unit outcome"
  env_hooks :: "build_profile \<Rightarrow> unit outcome"
  env_generic_hook :: "string \<Rightarrow> unit outcome"
  env_backend :: string


section \<open>Reload\<close>

fun report_failures :: "string list \<Rightarrow> string" where
  "report_failures [] = []"
| "report_failures (e # es) = ''; '' @ e @ report_failures es"

definition report_summary :: "load_report \<Rightarrow> string" where
  "report_summary r =
     ''loaded '' @ show_nat (lr_loaded r) @ ''/'' @ show_nat (lr_discovered r) @ report_failures (lr_errors r)"

definition reflection_reader_of :: "build_profile option \<Rightarrow> reader" where
  "reflection_reader_of profile =
     (case profile of
        None \<Rightarrow> None
      | Some p \<Rightarrow>
          if bp_guobjectarray_objects_va p \<noteq> 0 \<and> bp_fname_pool_blocks_va p \<noteq> 0
          then Some (layout_default\<lparr>ol_objects_va := bp_guobjectarray_objects_va p,
                       ol_super_offset := bp_super_struct_offset p\<rparr>, bp_fname_pool_blocks_va p)
          else None)"

text \<open>The fresh set replaces the old one whole, or nothing changes.\<close>

definition reload_plugins :: "environment \<Rightarrow> runtime \<Rightarrow> unit outcome \<times> runtime" where
  "reload_plugins env rt =
     (case load_directory_report (env_fs env) (env_scripts env) (rt_plugin_directory rt) [] [] of
        (report, plugins, commands) \<Rightarrow>
          if \<not> report_ok report then (Inl (report_summary report), rt)
          else (Inr (),
            rt\<lparr>rt_commands := commands, rt_plugins := plugins,
                rt_reader := reflection_reader_of (rt_profile rt)\<rparr>))"


section \<open>Starting and stopping\<close>

definition is_absolute :: "string \<Rightarrow> bool" where
  "is_absolute p \<longleftrightarrow> take 1 p = ''/''"

definition fail :: "runtime_state \<Rightarrow> string \<Rightarrow> runtime \<Rightarrow> (bool \<times> string \<times> runtime) option" where
  "fail st message rt = Some (False, message, rt\<lparr>rt_error := message, rt_state := st\<rparr>)"

text \<open>The profile gate: the profile that may be used, or the state and message of the failure.\<close>

definition gate ::
  "environment \<Rightarrow> runtime_config \<Rightarrow> string \<Rightarrow> (runtime_state \<times> string) + (build_profile \<times> build_fingerprint)" where
  "gate env config text =
     (if \<not> fixed_equal (sha256_text text) (lower (cfg_sha256 config))
      then Inl (Failed, ''sealed profile SHA-256 does not match PALMOD_PROFILE_SHA256'')
      else (case parse_json text of
              Inl e \<Rightarrow> Inl (Failed, e)
            | Inr profile \<Rightarrow>
                (case env_fingerprint env of
                   Inl e \<Rightarrow> Inl (Failed, e)
                 | Inr fingerprint \<Rightarrow>
                     (case exactly_matches profile fingerprint of
                        Inl e \<Rightarrow> Inl (UnsupportedBuild, e)
                      | Inr _ \<Rightarrow>
                          (case verify_anchors (env_mem env) profile of
                             Inl e \<Rightarrow> Inl (UnsupportedBuild, e)
                           | Inr _ \<Rightarrow> Inr (profile, fingerprint))))))"

definition install_generic_hooks :: "environment \<Rightarrow> runtime \<Rightarrow> runtime" where
  "install_generic_hooks env rt =
     rt\<lparr>rt_generic_hooks :=
        {kind \<in> subscribed_event_kinds (rt_plugins rt). kind \<noteq> ''chat'' \<and> env_generic_hook env kind = Inr ()}\<rparr>"

text \<open>Everything after the gate: control socket, plug-ins, hooks.\<close>

definition bring_up :: "environment \<Rightarrow> runtime_config \<Rightarrow> build_profile \<Rightarrow> runtime \<Rightarrow> (bool \<times> string \<times> runtime) option" where
  "bring_up env config profile rt =
     (case (if cfg_enable_control config then env_control env (cfg_control_socket config) else Inr ()) of
        Inl e \<Rightarrow> fail Failed e rt
      | Inr _ \<Rightarrow>
          (let rt1 = rt\<lparr>rt_control := cfg_enable_control config, rt_plugin_directory := cfg_plugin_directory config\<rparr>
           in case reload_plugins env rt1 of
                (Inl e, rt2) \<Rightarrow> fail Failed (''plugin transaction failed: '' @ e) rt2
              | (Inr _, rt2) \<Rightarrow>
                  (case env_hooks env profile of
                     Inl e \<Rightarrow>
                       fail Failed (''hook backend '' @ tick (env_backend env) @ '' failed: '' @ e)
                         (rt2\<lparr>rt_plugins := snd (plugins_stop (rt_plugins rt2))\<rparr>)
                   | Inr _ \<Rightarrow>
                       Some (True, [], (install_generic_hooks env (rt2\<lparr>rt_hooked := True\<rparr>))
                         \<lparr>rt_state := Running, rt_watching := True\<rparr>))))"

definition start :: "environment \<Rightarrow> runtime_config \<Rightarrow> runtime \<Rightarrow> (bool \<times> string \<times> runtime) option" where
  "start env config rt =
     (if rt_state rt \<noteq> Cold then Some (False, ''runtime can only be started once'', rt)
      else (let rt0 = rt\<lparr>rt_state := Starting\<rparr>
            in if env_profile_path env
               then fail Failed ''PALMOD_PROFILE path bypass is forbidden; use a sealed PALMOD_PROFILE_FD'' rt0
               else if \<not> is_absolute (cfg_plugin_directory config) \<or>
                       (cfg_enable_control config \<and> \<not> is_absolute (cfg_control_socket config))
               then fail Failed ''plugin directory and control socket must be absolute paths'' rt0
               else if length (cfg_sha256 config) \<noteq> 64
               then fail Failed ''PALMOD_PROFILE_SHA256 must be a 64-character digest'' rt0
               else (case read_sealed_profile (cfg_profile_fd config) (env_fd env) of
                       None \<Rightarrow> None
                     | Some (Inl e) \<Rightarrow> fail Failed e rt0
                     | Some (Inr text) \<Rightarrow>
                         (case gate env config text of
                            Inl (st, e) \<Rightarrow> fail st e rt0
                          | Inr (profile, fingerprint) \<Rightarrow>
                              bring_up env config profile
                                (rt0\<lparr>rt_fingerprint := Some fingerprint, rt_profile := Some profile\<rparr>)))))"

definition stop :: "runtime \<Rightarrow> runtime" where
  "stop rt =
     (if rt_state rt = Cold \<or> rt_state rt = Stopped then rt\<lparr>rt_state := Stopped\<rparr>
      else rt\<lparr>rt_state := Stopped, rt_watching := False, rt_hooked := False, rt_generic_hooks := {},
              rt_plugins := snd (plugins_stop (rt_plugins rt)), rt_control := False\<rparr>)"


section \<open>Calls from the hooks\<close>

definition on_chat :: "string \<Rightarrow> string \<Rightarrow> u64 \<Rightarrow> auth_state \<Rightarrow> runtime \<Rightarrow> bool \<times> runtime" where
  "on_chat text player player_handle auth rt =
     (if rt_state rt \<noteq> Running then (False, rt)
      else (case route (rt_commands rt) text player player_handle auth dispatch (rt_plugins rt) of
              (result, plugins) \<Rightarrow> (rr_matched result \<and> rr_suppress result, rt\<lparr>rt_plugins := plugins\<rparr>)))"

definition auth_of :: "int \<Rightarrow> auth_state" where
  "auth_of auth = (if auth = 1 then Player else if auth = 2 then Admin else Unknown)"

definition on_game_tick :: "thread_id \<Rightarrow> 'w executor \<Rightarrow> runtime \<times> 'w \<Rightarrow> runtime \<times> 'w" where
  "on_game_tick t executor s =
     (case drain t executor 128 (rt_actions (fst s), snd s) of
        (n, q, w) \<Rightarrow> ((fst s)\<lparr>rt_actions := q\<rparr>, w))"

text \<open>The executor of a tick hands the action to the backend; a failure is only logged.\<close>

definition execute_action_on_game_thread :: "(semantic_action \<Rightarrow> 'w \<Rightarrow> unit outcome \<times> 'w) \<Rightarrow> 'w executor" where
  "execute_action_on_game_thread execute_action action qw = (fst qw, snd (execute_action action (snd qw)))"

definition on_player_join :: "string \<Rightarrow> string \<Rightarrow> u64 \<Rightarrow> runtime \<Rightarrow> runtime" where
  "on_player_join stable_id display_name handle rt =
     (case upsert stable_id display_name handle (rt_players rt) of
        Inl _ \<Rightarrow> rt
      | Inr d \<Rightarrow> rt\<lparr>rt_players := d\<rparr>)"

definition on_player_leave :: "string \<Rightarrow> runtime \<Rightarrow> runtime" where
  "on_player_leave stable_id rt = rt\<lparr>rt_players := snd (remove stable_id (rt_players rt))\<rparr>"

definition on_event :: "plugin_event \<Rightarrow> runtime \<Rightarrow> nat \<times> runtime" where
  "on_event event rt =
     (if rt_state rt \<noteq> Running then (0, rt)
      else (case deliver_event event (rt_plugins rt) of (n, plugins) \<Rightarrow> (n, rt\<lparr>rt_plugins := plugins\<rparr>)))"


section \<open>Watching the plug-in directory\<close>

text \<open>An entry of the recursive listing is a regular file or not, and its time may be unreadable.  The
  file clock counts in 64 bits.\<close>

definition newest_mtime :: "(bool \<times> int option) list \<Rightarrow> int" where
  "newest_mtime entries =
     fold (\<lambda>(regular, mtime) newest.
       case mtime of None \<Rightarrow> newest | Some t \<Rightarrow> if regular \<and> newest < t then t else newest) entries (- (2 ^ 63))"

definition watch_round :: "environment \<Rightarrow> (bool \<times> int option) list \<Rightarrow> int \<times> runtime \<Rightarrow> int \<times> runtime" where
  "watch_round env entries s =
     (let now = newest_mtime entries
      in if now \<le> fst s then s else (now, snd (reload_plugins env (snd s))))"


section \<open>The control socket\<close>

definition state_name :: "runtime_state \<Rightarrow> string" where
  "state_name st =
     (case st of
        Cold \<Rightarrow> ''cold'' | Starting \<Rightarrow> ''starting'' | UnsupportedBuild \<Rightarrow> ''unsupported_build''
      | Running \<Rightarrow> ''running'' | Failed \<Rightarrow> ''failed'' | Stopped \<Rightarrow> ''stopped'')"

definition json_of :: "(string \<times> json) list \<Rightarrow> json" where
  "json_of members = JObject (fold (\<lambda>(k, v) m. smap_put k v m) members [])"

definition status_value :: "plugin_status \<Rightarrow> json" where
  "status_value s = json_of
     [(''id'', JString (st_id s)), (''version'', JString (st_version s)), (''running'', JBool (st_running s)),
      (''error'', JString (st_error s)), (''queued'', JInt (int (st_queued s)))]"

definition status_json :: "environment \<Rightarrow> runtime \<Rightarrow> string" where
  "status_json env rt = stringify (json_of
     [(''state'', JString (state_name (rt_state rt))), (''lua_available'', JBool True),
      (''hook_backend'', JString (env_backend env)), (''action_queue_size'', JInt (int (aq_size (rt_actions rt)))),
      (''action_queue_dropped'', JInt (sint (aq_dropped (rt_actions rt)))), (''error'', JString (rt_error rt)),
      (''profile_id'', JString (case rt_profile rt of None \<Rightarrow> [] | Some p \<Rightarrow> bp_profile_id p)),
      (''executable_sha256'', JString (case rt_fingerprint rt of None \<Rightarrow> [] | Some f \<Rightarrow> fp_sha256 f)),
      (''elf_build_id'', JString (case rt_fingerprint rt of None \<Rightarrow> [] | Some f \<Rightarrow> fp_elf_build_id f)),
      (''plugins'', JArray (map status_value (statuses (rt_plugins rt))))])"

fun request_id_json :: "json \<Rightarrow> string" where
  "request_id_json (JString s) = stringify (JString s)"
| "request_id_json (JInt i) = stringify (JInt i)"
| "request_id_json _ = ''null''"

definition in_quotes :: "string \<Rightarrow> string" where
  "in_quotes s = quote @ s @ quote"

definition response_error :: "string \<Rightarrow> string \<Rightarrow> string \<Rightarrow> string" where
  "response_error rid kind message =
     ''{'' @ in_quotes ''id'' @ '':'' @ rid @ '','' @ in_quotes ''ok'' @ '':false,'' @ in_quotes ''error'' @ '':{'' @
     in_quotes ''code'' @ '':'' @ in_quotes (escape kind) @ '','' @ in_quotes ''message'' @ '':'' @ in_quotes (escape message) @ ''}}''"

definition response_ok :: "string \<Rightarrow> string \<Rightarrow> string" where
  "response_ok rid result =
     ''{'' @ in_quotes ''id'' @ '':'' @ rid @ '','' @ in_quotes ''ok'' @ '':true,'' @ in_quotes ''result'' @ '':'' @ result @ ''}''"

text \<open>The dispatcher of the operator's commands marks the invocation before it hands it on.\<close>

definition operator_dispatch :: "u32 \<Rightarrow> command_invocation \<Rightarrow> plugins \<Rightarrow> bool \<times> plugins" where
  "operator_dispatch peer_uid invocation plugins =
     dispatch (invocation\<lparr>ci_principal := LocalOperator, ci_operator_uid := peer_uid, ci_player := [], ci_player_handle := 0\<rparr>)
       plugins"

definition control_reload :: "environment \<Rightarrow> string \<Rightarrow> json_obj \<Rightarrow> runtime \<Rightarrow> string \<times> runtime" where
  "control_reload env rid params rt =
     (if rt_state rt \<noteq> Running then (response_error rid ''not_running'' ''plugins can only be reloaded while running'', rt)
      else if (case json_get params ''plugin'' of None \<Rightarrow> False | Some v \<Rightarrow> json_string v \<noteq> Some [])
      then (response_error rid ''unsupported''
              ''single-plugin reload is not transactional yet; omit params.plugin to reload all'', rt)
      else (case reload_plugins env rt of
              (Inl e, rt') \<Rightarrow> (response_error rid ''reload_failed'' e, rt')
            | (Inr _, rt') \<Rightarrow> (response_ok rid (''{'' @ in_quotes ''reloaded'' @ '':true}''), rt')))"

definition control_invoke :: "string \<Rightarrow> json_obj \<Rightarrow> u32 \<Rightarrow> runtime \<Rightarrow> string \<times> runtime" where
  "control_invoke rid params peer_uid rt =
     (if rt_state rt \<noteq> Running then (response_error rid ''not_running'' ''commands can only be invoked while running'', rt)
      else (case control_command_line params of
              Inl e \<Rightarrow> (response_error rid ''invalid_params'' e, rt)
            | Inr line \<Rightarrow>
                (case route (rt_commands rt) line [] 0 Admin (operator_dispatch peer_uid) (rt_plugins rt) of
                   (routed, plugins) \<Rightarrow>
                     (if \<not> rr_matched routed then response_error rid ''unknown_command'' ''command is not registered''
                      else if \<not> rr_dispatched routed then response_error rid ''command_rejected'' (rr_error routed)
                      else response_ok rid (''{'' @ in_quotes ''queued'' @ '':true,'' @ in_quotes ''principal'' @ '':'' @
                             in_quotes ''local_operator'' @ ''}''),
                      rt\<lparr>rt_plugins := plugins\<rparr>))))"

definition control_method ::
  "environment \<Rightarrow> string \<Rightarrow> string \<Rightarrow> json_obj \<Rightarrow> u32 \<Rightarrow> runtime \<Rightarrow> string \<times> runtime" where
  "control_method env rid name params peer_uid rt =
     (if name = ''ping'' then (response_ok rid (''{'' @ in_quotes ''pong'' @ '':true}''), rt)
      else if name = ''status'' \<or> name = ''plugins.list'' then (response_ok rid (status_json env rt), rt)
      else if name = ''plugins.reload'' then control_reload env rid params rt
      else if name = ''command.invoke'' then control_invoke rid params peer_uid rt
      else (response_error rid ''method_not_found'' ''unknown read-only control method'', rt))"

definition request_fields :: "json_obj \<Rightarrow> (json \<times> string \<times> json_obj) option" where
  "request_fields root =
     (case json_get root ''id'' of
        Some (JInt i) \<Rightarrow>
          if i < 0 then None
          else (case Option.bind (json_get root ''method'') json_string of
                  None \<Rightarrow> None
                | Some name \<Rightarrow>
                    map_option (\<lambda>params. (JInt i, name, params)) (Option.bind (json_get root ''params'') json_object))
      | _ \<Rightarrow> None)"

definition control_request :: "environment \<Rightarrow> string \<Rightarrow> u32 \<Rightarrow> runtime \<Rightarrow> string \<times> runtime" where
  "control_request env packet peer_uid rt =
     (case parse packet of
        Inl e \<Rightarrow> (response_error ''null'' ''invalid_request'' e, rt)
      | Inr v \<Rightarrow>
          (case json_object v of
             None \<Rightarrow> (response_error ''null'' ''invalid_request'' ''request must be a JSON object'', rt)
           | Some root \<Rightarrow>
               (case request_fields root of
                  None \<Rightarrow>
                    (response_error (case json_get root ''id'' of None \<Rightarrow> ''null'' | Some rid \<Rightarrow> request_id_json rid)
                       ''invalid_request'' ''expected {id:<nonnegative integer>,method,params:{}}'', rt)
                | Some (rid, name, params) \<Rightarrow>
                    if (case json_get root ''version'' of None \<Rightarrow> False | Some ver \<Rightarrow> json_integer ver \<noteq> Some 1)
                    then (response_error (request_id_json rid) ''invalid_request'' ''optional version must be 1'', rt)
                    else control_method env (request_id_json rid) name params peer_uid rt)))"

section \<open>Lemmas\<close>

lemma gate_Inr:
  "gate env config text = Inr (p, fp) \<longleftrightarrow>
     sha256_text text = lower (cfg_sha256 config) \<and> parse_json text = Inr p \<and> env_fingerprint env = Inr fp \<and>
     exactly_matches p fp = Inr () \<and> verify_anchors (env_mem env) p = Inr ()"
  by (auto simp: gate_def fixed_equal_iff split: sum.split)

lemma gate_Inl_state: "gate env config text = Inl (st, e) \<Longrightarrow> st = Failed \<or> st = UnsupportedBuild"
  by (auto simp: gate_def split: if_split_asm sum.split_asm)

lemma reload_cases:
  assumes "reload_plugins env rt = (res, rt')"
  obtains e where "res = Inl e" "rt' = rt"
  | report plugins commands where "res = Inr ()"
    "load_directory_report (env_fs env) (env_scripts env) (rt_plugin_directory rt) [] [] = (report, plugins, commands)"
    "report_ok report"
    "rt' = rt\<lparr>rt_commands := commands, rt_plugins := plugins, rt_reader := reflection_reader_of (rt_profile rt)\<rparr>"
  using assms by (auto simp: reload_plugins_def split: prod.split_asm if_split_asm)

text \<open>The outcomes of a start: it was started before, it failed, or it runs.\<close>

definition starts :: "environment \<Rightarrow> runtime_config \<Rightarrow> runtime \<Rightarrow> build_profile \<Rightarrow> build_fingerprint \<Rightarrow> string \<Rightarrow> bool" where
  "starts env config rt p fp text \<longleftrightarrow>
     rt_state rt = Cold \<and> \<not> env_profile_path env \<and> is_absolute (cfg_plugin_directory config) \<and>
     (if cfg_enable_control config
      then is_absolute (cfg_control_socket config) \<and> env_control env (cfg_control_socket config) = Inr () else True) \<and>
     length (cfg_sha256 config) = 64 \<and> read_sealed_profile (cfg_profile_fd config) (env_fd env) = Some (Inr text) \<and>
     gate env config text = Inr (p, fp) \<and>
     report_ok (fst (load_directory_report (env_fs env) (env_scripts env) (cfg_plugin_directory config) [] [])) \<and>
     env_hooks env p = Inr ()"

lemma bring_up_cases:
  assumes "bring_up env config p rt = Some (ok, e, rt')"
  obtains "\<not> ok" "rt_state rt' = Failed" "rt_error rt' = e" "rt_hooked rt' = rt_hooked rt"
    "rt_generic_hooks rt' = rt_generic_hooks rt" "rt_watching rt' = rt_watching rt"
    "rt_actions rt' = rt_actions rt" "rt_players rt' = rt_players rt"
  | "ok" "e = []" "rt_state rt' = Running" "rt_hooked rt'" "rt_watching rt'"
    "rt_actions rt' = rt_actions rt" "rt_players rt' = rt_players rt"
    "rt_profile rt' = rt_profile rt" "rt_fingerprint rt' = rt_fingerprint rt"
    "if cfg_enable_control config then env_control env (cfg_control_socket config) = Inr () else True"
    "report_ok (fst (load_directory_report (env_fs env) (env_scripts env) (cfg_plugin_directory config) [] []))"
    "env_hooks env p = Inr ()"
proof (cases "if cfg_enable_control config then env_control env (cfg_control_socket config) else Inr ()")
  case (Inl m)
  with assms that(1) show ?thesis by (auto simp: bring_up_def fail_def)
next
  case (Inr u)
  let ?rt = "rt\<lparr>rt_control := cfg_enable_control config, rt_plugin_directory := cfg_plugin_directory config\<rparr>"
  obtain res rt2 where reload: "reload_plugins env ?rt = (res, rt2)" by fastforce
  from reload show ?thesis
  proof (cases rule: reload_cases)
    case (1 m)
    with assms that(1) Inr reload show ?thesis by (auto simp: bring_up_def fail_def)
  next
    case (2 report plugins commands)
    with assms that Inr reload show ?thesis
      by (cases "env_hooks env p") (auto simp: bring_up_def fail_def install_generic_hooks_def split: if_split_asm)
  qed
qed


lemma start_cases:
  assumes "start env config rt = Some (ok, e, rt')"
  obtains "rt_state rt \<noteq> Cold" "\<not> ok" "rt' = rt"
  | "rt_state rt = Cold" "\<not> ok" "rt_state rt' = Failed \<or> rt_state rt' = UnsupportedBuild" "rt_error rt' = e"
    "rt_hooked rt' = rt_hooked rt" "rt_generic_hooks rt' = rt_generic_hooks rt" "rt_watching rt' = rt_watching rt"
    "rt_actions rt' = rt_actions rt" "rt_players rt' = rt_players rt"
  | contents p fp where "ok" "starts env config rt p fp contents" "rt_state rt' = Running" "rt_hooked rt'" "rt_watching rt'"
    "rt_actions rt' = rt_actions rt" "rt_players rt' = rt_players rt"
    "rt_profile rt' = Some p" "rt_fingerprint rt' = Some fp"
proof (cases "rt_state rt = Cold \<and> \<not> env_profile_path env \<and> is_absolute (cfg_plugin_directory config) \<and>
    (cfg_enable_control config \<longrightarrow> is_absolute (cfg_control_socket config)) \<and> length (cfg_sha256 config) = 64")
  case False
  with assms that(1,2) show ?thesis
    by (auto simp: start_def fail_def Let_def split: if_split_asm)
next
  case ready: True
  then show ?thesis
  proof (cases "read_sealed_profile (cfg_profile_fd config) (env_fd env)")
    case None
    with ready assms show ?thesis by (auto simp: start_def Let_def)
  next
    case (Some sealed)
    show ?thesis
    proof (cases sealed)
      case (Inl m)
      with ready assms Some that(2) show ?thesis by (auto simp: start_def fail_def Let_def)
    next
      case (Inr contents)
      show ?thesis
      proof (cases "gate env config contents")
        case (Inl failure)
        then obtain st m where failed: "gate env config contents = Inl (st, m)" by (cases failure) auto
        with ready assms Some Inr that(2) gate_Inl_state [OF failed] show ?thesis
          by (auto simp: start_def fail_def Let_def)
      next
        case gated: (Inr facts)
        obtain p fp where facts: "facts = (p, fp)" by (cases facts)
        have up: "bring_up env config p
            (rt\<lparr>rt_state := Starting, rt_fingerprint := Some fp, rt_profile := Some p\<rparr>) = Some (ok, e, rt')"
          using ready assms Some Inr gated by (auto simp: start_def Let_def facts)
        then show ?thesis
        proof (cases rule: bring_up_cases)
          case 1
          with ready that(2) show ?thesis by simp
        next
          case 2
          with ready Some Inr gated have "starts env config rt p fp contents"
            by (auto simp: starts_def facts)
          with 2 that(3) [of p fp contents] show ?thesis by simp
        qed
      qed
    qed
  qed
qed

lemma starts_start: "starts env config rt p fp text \<Longrightarrow> \<exists>e rt'. start env config rt = Some (True, e, rt')"
  by (auto simp: starts_def start_def Let_def bring_up_def reload_plugins_def split: prod.split if_split_asm)

definition runtime_sets_ok :: "runtime \<Rightarrow> bool" where
  "runtime_sets_ok rt \<longleftrightarrow> smap_inv (rt_plugins rt) \<and> router_inv (rt_commands rt)"

lemma reload_sets:
  assumes "reload_plugins env rt = (res, rt')" "runtime_sets_ok rt"
  shows "runtime_sets_ok rt'"
  using assms(1)
proof (cases rule: reload_cases)
  case (2 report plugins commands)
  then show ?thesis
    using load_directory_inv(1) [OF 2(2)] by (simp add: runtime_sets_ok_def)
qed (use assms in simp)


lemma bring_up_sets:
  assumes "bring_up env config p rt = Some (ok, e, rt')" "runtime_sets_ok rt"
  shows "runtime_sets_ok rt'"
proof -
  let ?rt = "rt\<lparr>rt_control := cfg_enable_control config, rt_plugin_directory := cfg_plugin_directory config\<rparr>"
  obtain res rt2 where reload: "reload_plugins env ?rt = (res, rt2)" by fastforce
  have "runtime_sets_ok ?rt" using assms(2) by (simp add: runtime_sets_ok_def)
  from reload_sets [OF reload this] assms show ?thesis
    by (auto simp: bring_up_def fail_def reload install_generic_hooks_def plugins_stop_def runtime_sets_ok_def
        split: sum.split_asm)
qed

lemma start_via_bring_up:
  assumes "start env config rt = Some (ok, e, rt')"
  obtains "rt_plugins rt' = rt_plugins rt" "rt_commands rt' = rt_commands rt"
  | p rt1 where "bring_up env config p rt1 = Some (ok, e, rt')" "rt_plugins rt1 = rt_plugins rt"
    "rt_commands rt1 = rt_commands rt"
proof (cases "read_sealed_profile (cfg_profile_fd config) (env_fd env)")
  case None
  with assms that(1) show ?thesis by (auto simp: start_def fail_def Let_def split: if_split_asm)
next
  case (Some sealed)
  show ?thesis
  proof (cases "case sealed of Inl m \<Rightarrow> Inl (Failed, m) | Inr contents \<Rightarrow> gate env config contents")
    case (Inl failure)
    with assms Some that(1) show ?thesis
      by (cases failure) (auto simp: start_def fail_def Let_def split: if_split_asm sum.split_asm)
  next
    case (Inr facts)
    with assms Some that show ?thesis
      by (cases facts) (auto simp: start_def fail_def Let_def split: if_split_asm sum.split_asm)
  qed
qed

lemma start_sets:
  assumes "start env config rt = Some (ok, e, rt')" "runtime_sets_ok rt"
  shows "runtime_sets_ok rt'"
  using assms(1)
proof (cases rule: start_via_bring_up)
  case (2 p rt1)
  with assms(2) have "runtime_sets_ok rt1" by (simp add: runtime_sets_ok_def)
  then show ?thesis by (rule bring_up_sets [OF 2(1)])
qed (use assms(2) in \<open>simp add: runtime_sets_ok_def\<close>)


interpretation operator: dispatcher "operator_dispatch uid" smap_inv for uid
  by unfold_locales (auto simp: operator_dispatch_def intro: players.deliver_keeps)

lemma drain_loop_keeps:
  assumes "\<And>a q w. P q \<Longrightarrow> P (fst (ex a (q, w)))" "\<And>q a q'. P q \<Longrightarrow> aq_pop q = Some (a, q') \<Longrightarrow> P q'"
  shows "P q \<Longrightarrow> P (fst (snd (drain_loop ex left n (q, w))))"
proof (induction left arbitrary: n q w)
  case (Suc left)
  show ?case
  proof (cases "aq_pop q")
    case (Some popped)
    obtain a q1 where a: "popped = (a, q1)" by (cases popped)
    obtain q2 w2 where ex: "ex a (q1, w) = (q2, w2)" by fastforce
    have "P q2"
      using assms(1) [OF assms(2) [OF Suc.prems Some [unfolded a]], of a w] by (simp add: ex)
    then show ?thesis
      using Suc.IH by (simp add: Some a ex)
  qed (use Suc in simp)
qed simp

section \<open>Runs\<close>

text \<open>
  A run of the runtime, one entry point at a time.  The environment of each call is its own: files,
  memory and descriptors change between calls.  The state \<open>w\<close> is the game's, changed only by the
  actions that a tick executes.
\<close>

inductive runtime_step :: "(semantic_action \<Rightarrow> 'w \<Rightarrow> unit outcome \<times> 'w) \<Rightarrow> runtime \<times> 'w \<Rightarrow> runtime \<times> 'w \<Rightarrow> bool"
  for execute where
  started: "start env config rt = Some (ok, e, rt') \<Longrightarrow> runtime_step execute (rt, w) (rt', w)"
| stopped: "runtime_step execute (rt, w) (stop rt, w)"
| chat: "on_chat text player h auth rt = (suppress, rt') \<Longrightarrow> runtime_step execute (rt, w) (rt', w)"
| event: "on_event ev rt = (n, rt') \<Longrightarrow> runtime_step execute (rt, w) (rt', w)"
| joined: "runtime_step execute (rt, w) (on_player_join sid name h rt, w)"
| left: "runtime_step execute (rt, w) (on_player_leave sid rt, w)"
| tick: "on_game_tick t (execute_action_on_game_thread execute) (rt, w) = s \<Longrightarrow> runtime_step execute (rt, w) s"
| submit: "aq_push a (rt_actions rt) = (ok, q) \<Longrightarrow> runtime_step execute (rt, w) (rt\<lparr>rt_actions := q\<rparr>, w)"
| control: "control_request env packet uid rt = (reply, rt') \<Longrightarrow> runtime_step execute (rt, w) (rt', w)"
| watch: "rt_watching rt \<Longrightarrow> watch_round env entries (before, rt) = (after, rt') \<Longrightarrow> runtime_step execute (rt, w) (rt', w)"

definition runtime_inv :: "runtime \<Rightarrow> bool" where
  "runtime_inv rt \<longleftrightarrow>
     (rt_hooked rt \<longleftrightarrow> rt_state rt = Running) \<and> (rt_watching rt \<longleftrightarrow> rt_state rt = Running) \<and>
     (rt_generic_hooks rt \<noteq> {} \<longrightarrow> rt_state rt = Running) \<and> rt_state rt \<noteq> Starting \<and>
     (rt_state rt = Running \<longrightarrow> (\<exists>p fp. rt_profile rt = Some p \<and> rt_fingerprint rt = Some fp \<and> profile_wf p \<and>
        exactly_matches p fp = Inr ())) \<and>
     length (aq_queue (rt_actions rt)) \<le> 1024 \<and> aq_capacity (rt_actions rt) = 1024 \<and>
     directory_inv (rt_players rt) \<and> runtime_sets_ok rt"

text \<open>The parts of the state that routing, delivery and reloading leave alone.\<close>

definition same_core :: "runtime \<Rightarrow> runtime \<Rightarrow> bool" where
  "same_core rt rt' \<longleftrightarrow>
     rt_state rt' = rt_state rt \<and> rt_hooked rt' = rt_hooked rt \<and> rt_watching rt' = rt_watching rt \<and>
     rt_generic_hooks rt' = rt_generic_hooks rt \<and> rt_profile rt' = rt_profile rt \<and>
     rt_fingerprint rt' = rt_fingerprint rt \<and> rt_actions rt' = rt_actions rt \<and> rt_players rt' = rt_players rt"

lemma same_core_inv: "runtime_inv rt \<Longrightarrow> same_core rt rt' \<Longrightarrow> runtime_sets_ok rt' \<Longrightarrow> runtime_inv rt'"
  by (simp add: runtime_inv_def same_core_def)

lemma runtime_inv_sets: "runtime_inv rt \<Longrightarrow> runtime_sets_ok rt"
  by (simp add: runtime_inv_def)

lemma reload_core: "reload_plugins env rt = (res, rt') \<Longrightarrow> same_core rt rt'"
  by (cases rule: reload_cases) (auto simp: same_core_def)

lemma start_inv:
  assumes "start env config rt = Some (ok, e, rt')" "runtime_inv rt"
  shows "runtime_inv rt'"
proof -
  have sets: "runtime_sets_ok rt'"
    by (rule start_sets [OF assms(1) runtime_inv_sets [OF assms(2)]])
  from assms(1) show ?thesis
  proof (cases rule: start_cases)
    case (3 contents p fp)
    then have "profile_wf p" "exactly_matches p fp = Inr ()"
      by (auto simp: starts_def gate_Inr intro: parse_json_wf)
    with 3 sets assms(2) show ?thesis by (simp add: runtime_inv_def)
  qed (use assms(2) sets in \<open>auto simp: runtime_inv_def\<close>)
qed

lemma on_chat_inv: "on_chat text player h auth rt = (b, rt') \<Longrightarrow> runtime_inv rt \<Longrightarrow> runtime_inv rt'"
  by (rule same_core_inv)
    (auto simp: on_chat_def same_core_def runtime_inv_def runtime_sets_ok_def split: if_split_asm prod.split_asm
      dest: players.route_keeps)


lemma on_event_inv: "on_event ev rt = (n, rt') \<Longrightarrow> runtime_inv rt \<Longrightarrow> runtime_inv rt'"
  by (rule same_core_inv)
    (auto simp: on_event_def same_core_def runtime_inv_def runtime_sets_ok_def deliver_event_alt smap_inv_def comp_def
      case_prod_unfold split: if_split_asm)

lemma on_game_tick_inv:
  assumes "runtime_inv rt"
  shows "runtime_inv (fst (on_game_tick t (execute_action_on_game_thread execute) (rt, w)))"
proof -
  let ?P = "\<lambda>q. length (aq_queue q) \<le> 1024 \<and> aq_capacity q = 1024"
  let ?ex = "execute_action_on_game_thread execute"
  have keeps: "?P q \<Longrightarrow> ?P (fst (snd (drain_loop ?ex left n (q, w))))" for q left n w
    by (rule drain_loop_keeps)
      (auto simp: execute_action_on_game_thread_def aq_pop_def split: list.split_asm)
  have "?P (fst (snd (drain t ?ex 128 (rt_actions rt, w))))"
    using assms keeps [of "rt_actions rt" 128 0 w] keeps [of "rt_actions rt\<lparr>aq_game_thread := Some t\<rparr>" 128 0 w]
    by (auto simp: drain_def drain_admit_def runtime_inv_def Let_def)
  with assms show ?thesis
    by (auto simp: on_game_tick_def runtime_inv_def runtime_sets_ok_def split: prod.split)
qed

text \<open>What a request of the control socket can change.\<close>

lemma control_request_cases:
  assumes "control_request env packet uid rt = (reply, rt')"
  obtains "rt' = rt"
  | res where "rt_state rt = Running" "reload_plugins env rt = (res, rt')"
  | line routed plugins where "rt_state rt = Running"
    "route (rt_commands rt) line [] 0 Admin (operator_dispatch uid) (rt_plugins rt) = (routed, plugins)"
    "rt' = rt\<lparr>rt_plugins := plugins\<rparr>"
proof (cases "rt' = rt")
  case False
  then obtain rid name params where m: "control_method env rid name params uid rt = (reply, rt')"
    using assms by (auto simp: control_request_def split: if_split_asm option.split_asm sum.split_asm prod.split_asm)
  consider "control_reload env rid params rt = (reply, rt')" | "control_invoke rid params uid rt = (reply, rt')"
    using m False by (simp add: control_method_def split: if_split_asm)
  then show ?thesis
  proof cases
    case 1
    with False that(2) show ?thesis
      by (simp add: control_reload_def split: if_split_asm prod.split_asm sum.split_asm)
  next
    case 2
    with False that(3) show ?thesis
      by (simp add: control_invoke_def split: if_split_asm prod.split_asm sum.split_asm)
  qed
qed (rule that(1))

lemma control_request_inv:
  assumes "control_request env packet uid rt = (reply, rt')" "runtime_inv rt"
  shows "runtime_inv rt'"
  using assms(1)
proof (cases rule: control_request_cases)
  case (2 res)
  then show ?thesis
    using assms(2) by (blast intro: same_core_inv reload_core reload_sets runtime_inv_sets)
next
  case (3 line routed plugins)
  have "smap_inv plugins"
    by (rule operator.route_keeps [OF 3(2)]) (use assms(2) in \<open>simp add: runtime_inv_def runtime_sets_ok_def\<close>)
  with 3 assms(2) show ?thesis
    by (auto intro!: same_core_inv [OF assms(2)] simp: same_core_def runtime_inv_def runtime_sets_ok_def)
qed (use assms in simp)

lemma watch_round_inv:
  assumes "watch_round env entries (before, rt) = (after, rt')" "runtime_inv rt"
  shows "runtime_inv rt'"
proof (cases "newest_mtime entries \<le> before")
  case False
  obtain res rt2 where reload: "reload_plugins env rt = (res, rt2)" by fastforce
  with False assms(1) have "rt' = rt2" by (simp add: watch_round_def Let_def)
  with reload assms(2) show ?thesis
    by (blast intro: same_core_inv reload_core reload_sets runtime_inv_sets)
qed (use assms in \<open>auto simp: watch_round_def Let_def\<close>)

lemma runtime_step_inv: "runtime_step execute s s' \<Longrightarrow> runtime_inv (fst s) \<Longrightarrow> runtime_inv (fst s')"
proof (induction rule: runtime_step.induct)
  case (stopped rt w)
  then show ?case
    by (auto simp: stop_def runtime_inv_def runtime_sets_ok_def plugins_stop_def)
next
  case (joined rt w sid name h)
  then show ?case
    using run_dir_op_inv [of "rt_players rt" "Join sid name h"]
    by (auto simp: on_player_join_def runtime_inv_def runtime_sets_ok_def split: sum.split)
next
  case (left rt w sid)
  then show ?case
    using run_dir_op_inv [of "rt_players rt" "Leave sid"]
    by (auto simp: on_player_leave_def runtime_inv_def runtime_sets_ok_def)
next
  case (tick t rt w s)
  then show ?case using on_game_tick_inv by auto
next
  case (submit a rt ok q w)
  then show ?case
    by (auto simp: runtime_inv_def runtime_sets_ok_def aq_push_def split: if_split_asm)
qed (auto intro: start_inv on_chat_inv on_event_inv control_request_inv watch_round_inv)


lemma runtime_steps_inv:
  "(runtime_step execute)\<^sup>*\<^sup>* s s' \<Longrightarrow> runtime_inv (fst s) \<Longrightarrow> runtime_inv (fst s')"
  by (induction rule: rtranclp_induct) (auto intro: runtime_step_inv)

lemma runtime_new_inv: "runtime_inv runtime_new"
  by (simp add: runtime_inv_def runtime_new_def aq_new_def directory_inv_def runtime_sets_ok_def router_inv_def)

text \<open>A reload installs no hook: the generic hooks stay those of the start.\<close>

lemma reload_keeps_generic_hooks: "reload_plugins env rt = (res, rt') \<Longrightarrow> rt_generic_hooks rt' = rt_generic_hooks rt"
  using reload_core by (simp add: same_core_def)


section \<open>Properties\<close>

text \<open>C1: The runtime starts exactly when everything it must check holds: it was never started, the
  paths are absolute, the profile comes from a sealed descriptor and has the expected digest, it
  parses, it matches the running executable, the bytes at each of its anchors are those of the live
  image, every plug-in loads and the hooks install.  A failed start reports its error and installs
  nothing.\<close>

theorem start_only_through_gate:
  "((\<exists>e rt'. start env config rt = Some (True, e, rt')) \<longleftrightarrow>
     rt_state rt = Cold \<and> \<not> env_profile_path env \<and> is_absolute (cfg_plugin_directory config) \<and>
     (if cfg_enable_control config
      then is_absolute (cfg_control_socket config) \<and> env_control env (cfg_control_socket config) = Inr () else True) \<and>
     length (cfg_sha256 config) = 64 \<and>
     (\<exists>text p fp. read_sealed_profile (cfg_profile_fd config) (env_fd env) = Some (Inr text) \<and>
        sha256_text text = lower (cfg_sha256 config) \<and> parse_json text = Inr p \<and> profile_wf p \<and>
        env_fingerprint env = Inr fp \<and> bp_sha256 p = lower (fp_sha256 fp) \<and>
        bp_elf_build_id p = lower (fp_elf_build_id fp) \<and> bp_executable_size p = fp_size fp \<and>
        bp_status p = ''validated'' \<and>
        list_all (\<lambda>(name, anchor). anchor_holds (env_mem env) (bp_image_base p) anchor) (bp_hooks p) \<and>
        env_hooks env p = Inr ()) \<and>
     report_ok (fst (load_directory_report (env_fs env) (env_scripts env) (cfg_plugin_directory config) [] []))) \<and>
   (case start env config rt of
      Some (False, e, rt') \<Rightarrow>
        rt_hooked rt' = rt_hooked rt \<and> rt_generic_hooks rt' = rt_generic_hooks rt \<and> rt_actions rt' = rt_actions rt \<and>
        (if rt_state rt = Cold then (rt_state rt' = Failed \<or> rt_state rt' = UnsupportedBuild) \<and> rt_error rt' = e
         else rt' = rt)
    | _ \<Rightarrow> True)"
    (is "(?started \<longleftrightarrow> ?ready) \<and> ?failure")
proof
  have "?started \<longleftrightarrow> (\<exists>p fp text. starts env config rt p fp text)"
    using starts_start by (fastforce elim: start_cases)
  also have "\<dots> \<longleftrightarrow> ?ready"
    using parse_json_wf
    by (simp add: starts_def gate_Inr verify_anchors_def verify_hooks_iff exactly_matches_iff) blast
  finally show "?started \<longleftrightarrow> ?ready" .
  show ?failure
    by (auto split: option.split bool.split elim!: start_cases)
qed

text \<open>C5: In every reachable state of the runtime, whatever the order of starts, stops, hook callbacks,
  control requests and reloads, hooks are installed exactly while it runs, it runs only with a
  well-formed profile that matches the executable, the action queue holds at most 1024 actions, and
  the player directory, the command table and the plug-in table satisfy their invariants.\<close>

theorem runtime_reachable_consistent:
  assumes "(runtime_step execute)\<^sup>*\<^sup>* (runtime_new, w) (rt, w')"
  shows "(rt_hooked rt \<longleftrightarrow> rt_state rt = Running) \<and> (rt_watching rt \<longleftrightarrow> rt_state rt = Running) \<and>
    (rt_generic_hooks rt \<noteq> {} \<longrightarrow> rt_state rt = Running) \<and> rt_state rt \<noteq> Starting \<and>
    (rt_state rt = Running \<longrightarrow> (\<exists>p fp. rt_profile rt = Some p \<and> rt_fingerprint rt = Some fp \<and> profile_wf p \<and>
       exactly_matches p fp = Inr ())) \<and>
    length (aq_queue (rt_actions rt)) \<le> 1024 \<and> directory_inv (rt_players rt) \<and>
    smap_inv (rt_plugins rt) \<and> router_inv (rt_commands rt)"
  using runtime_steps_inv [OF assms] runtime_new_inv
  by (simp add: runtime_inv_def runtime_sets_ok_def)

theorem runtime_reachable_consistent_witness:
  "length (aq_queue (rt_actions (stop (on_player_join ''s'' ''Ann'' 7 runtime_new)))) \<le> 1024 \<and>
   rt_state (stop (on_player_join ''s'' ''Ann'' 7 runtime_new)) = Stopped \<and>
   \<not> rt_hooked (stop (on_player_join ''s'' ''Ann'' 7 runtime_new)) \<and>
   directory_inv (rt_players (stop (on_player_join ''s'' ''Ann'' 7 runtime_new)))"
proof -
  let ?execute = "\<lambda>a w. (Inr (), w) :: unit outcome \<times> unit"
  have "runtime_step ?execute (runtime_new, ()) (on_player_join ''s'' ''Ann'' 7 runtime_new, ())"
    "runtime_step ?execute (on_player_join ''s'' ''Ann'' 7 runtime_new, ())
       (stop (on_player_join ''s'' ''Ann'' 7 runtime_new), ())"
    by (rule runtime_step.joined runtime_step.stopped)+
  then have "(runtime_step ?execute)\<^sup>*\<^sup>* (runtime_new, ()) (stop (on_player_join ''s'' ''Ann'' 7 runtime_new), ())"
    by (meson converse_rtranclp_into_rtranclp r_into_rtranclp)
  from runtime_reachable_consistent [OF this] show ?thesis
    by (auto simp: stop_def)
qed

text \<open>C4: Authority of the control socket: a request changes the runtime only while it runs, and then
  only by replacing the whole plug-in set after a reload without errors, or by handing one invocation
  to a plug-in.  That invocation carries the local operator, the peer's user id and no player, and
  belongs to a registered command.\<close>

theorem control_request_authority:
  "case control_request env packet uid rt of
     (reply, rt') \<Rightarrow>
       rt' = rt \<or>
       (rt_state rt = Running \<and>
        (\<exists>report plugins commands.
           load_directory_report (env_fs env) (env_scripts env) (rt_plugin_directory rt) [] [] = (report, plugins, commands) \<and>
           lr_errors report = [] \<and> lr_loaded report = lr_discovered report \<and>
           rt' = rt\<lparr>rt_commands := commands, rt_plugins := plugins, rt_reader := reflection_reader_of (rt_profile rt)\<rparr>)) \<or>
       (rt_state rt = Running \<and>
        (\<exists>key spec invocation ok plugins.
           smap_find (rt_commands rt) key = Some spec \<and> ci_plugin_id invocation = cs_plugin_id spec \<and>
           ci_command invocation = cs_name spec \<and> ci_principal invocation = LocalOperator \<and>
           ci_operator_uid invocation = uid \<and> ci_player invocation = [] \<and> ci_player_handle invocation = 0 \<and>
           dispatch invocation (rt_plugins rt) = (ok, plugins) \<and> rt' = rt\<lparr>rt_plugins := plugins\<rparr>))"
proof -
  obtain reply rt' where req: "control_request env packet uid rt = (reply, rt')" by fastforce
  then show ?thesis
  proof (cases rule: control_request_cases)
    case (2 res)
    from 2(2) show ?thesis
      by (cases rule: reload_cases) (use req 2 in \<open>auto simp: report_ok_def\<close>)
  next
    case (3 line routed plugins)
    from 3(2) show ?thesis
    proof (cases rule: route_cases)
      case 1
      with 3 req show ?thesis by simp
    next
      case (2 parsed spec)
      let ?invocation = "\<lparr>ci_plugin_id = cs_plugin_id spec, ci_command = cs_name spec, ci_args = pc_args parsed,
        ci_raw = line, ci_player = [], ci_player_handle = 0, ci_auth = Admin, ci_principal = LocalOperator,
        ci_operator_uid = uid\<rparr>"
      have "dispatch ?invocation (rt_plugins rt) = (rr_dispatched routed, plugins)"
        using 2(4) by (simp add: operator_dispatch_def)
      moreover have "ci_plugin_id ?invocation = cs_plugin_id spec" "ci_command ?invocation = cs_name spec"
        "ci_principal ?invocation = LocalOperator" "ci_operator_uid ?invocation = uid" "ci_player ?invocation = []"
        "ci_player_handle ?invocation = 0"
        by simp_all
      ultimately show ?thesis
        unfolding req prod.case using 2(2) 3(1,3) by blast
    qed
  qed (use req in simp)
qed

end
