(* ===== verification/Palmod_Parms_Encode.thy ===== *)
theory Palmod_Parms_Encode
  imports Palmod_Parms_Decode
begin

text \<open>
  Encoding a parameter buffer (\<^verbatim>\<open>native/src/parms_encode.cpp\<close>): a zeroed buffer, each input
  written at the offset of its field, strings and arrays in pools of their own.

  The buffers are byte lists; a pointer is a buffer and an offset into it.  A write outside its
  buffer, and a conversion of a floating-point number to an integer type that cannot hold it, are
  undefined in C++ and end in \<open>Crash\<close>.  The address the allocator gives the \<open>k\<close>-th pool is
  \<open>pool_va k\<close>.
\<close>

section \<open>Numbers\<close>

text \<open>\<^verbatim>\<open>static_cast\<close> of a double to an integer type with the range \<open>lo\<close> to \<open>hi\<close>.\<close>

definition cast_ok :: "int \<Rightarrow> int \<Rightarrow> double \<Rightarrow> bool" where
  "cast_ok lo hi n \<longleftrightarrow> isfinite n \<and> lo \<le> double_trunc n \<and> double_trunc n \<le> hi"

definition cast_int :: "int \<Rightarrow> int \<Rightarrow> double \<Rightarrow> int guarded" where
  "cast_int lo hi n = (if cast_ok lo hi n then Done (double_trunc n) else Crash)"

definition is_zero :: "double \<Rightarrow> bool" where
  "is_zero n \<longleftrightarrow> unat n mod 2 ^ 63 = 0"

definition float_of_quotient :: "bool \<Rightarrow> nat \<Rightarrow> nat \<Rightarrow> u32" where
  "float_of_quotient neg n d =
     (let s = (if neg then 2 ^ 31 else 0)
      in if n = 0 then of_nat s
         else
           (let e = max (log2_floor n d - 23) (- 149);
                q = (if 0 \<le> e then round_half_even n (d * 2 ^ nat e)
                     else round_half_even (n * 2 ^ nat (- e)) d);
                (q', e') = (if q = 2 ^ 24 then (2 ^ 23, e + 1) else (q, e))
            in if 104 < e' then of_nat (s + 255 * 2 ^ 23)
               else if q' < 2 ^ 23 then of_nat (s + q')
               else of_nat (s + nat (e' + 150) * 2 ^ 23 + (q' - 2 ^ 23))))"

definition float_of_double :: "double \<Rightarrow> u32" where
  "float_of_double x =
     (let s = (if double_neg x then 2 ^ 31 else 0)
      in if isfinite x then (let (n, d) = double_quotient x in float_of_quotient (double_neg x) n d)
         else if isnan x then of_nat (s + 255 * 2 ^ 23 + 2 ^ 22 + double_frac x div 2 ^ 29 mod 2 ^ 22)
         else of_nat (s + 255 * 2 ^ 23))"


section \<open>Buffers\<close>

datatype buffer = Parms | Pool nat

record encoded_parms =
  ep_parms :: "u8 list"
  ep_pools :: "u8 list list"

fun buffer_bytes :: "encoded_parms \<Rightarrow> buffer \<Rightarrow> u8 list" where
  "buffer_bytes out Parms = ep_parms out"
| "buffer_bytes out (Pool k) = (if k < length (ep_pools out) then ep_pools out ! k else [])"

fun set_buffer :: "buffer \<Rightarrow> u8 list \<Rightarrow> encoded_parms \<Rightarrow> encoded_parms" where
  "set_buffer Parms bs out = out\<lparr>ep_parms := bs\<rparr>"
| "set_buffer (Pool k) bs out = out\<lparr>ep_pools := (ep_pools out)[k := bs]\<rparr>"

definition splice :: "nat \<Rightarrow> u8 list \<Rightarrow> u8 list \<Rightarrow> u8 list" where
  "splice off new old = take off old @ new @ drop (off + length new) old"

definition write_at :: "buffer \<Rightarrow> nat \<Rightarrow> u8 list \<Rightarrow> encoded_parms \<Rightarrow> encoded_parms guarded" where
  "write_at buf off bs out =
     (let old = buffer_bytes out buf
      in if off + length bs \<le> length old then Done (set_buffer buf (splice off bs old) out) else Crash)"

definition new_pool :: "u8 list \<Rightarrow> encoded_parms \<Rightarrow> encoded_parms" where
  "new_pool bs out = out\<lparr>ep_pools := ep_pools out @ [bs]\<rparr>"


section \<open>Writing values\<close>

definition find_input :: "param_input list \<Rightarrow> string \<Rightarrow> param_input option" where
  "find_input inputs name = List.find (\<lambda>i. pi_name i = name) inputs"

type_synonym fname_encoder = "(string \<Rightarrow> u32 guarded) option"

definition write_int :: "nat \<Rightarrow> buffer \<Rightarrow> nat \<Rightarrow> int guarded \<Rightarrow> encoded_parms \<Rightarrow> encoded_parms guarded" where
  "write_int n buf off v out = gbind v (\<lambda>i. write_at buf off (le_bytes n (nat (i mod 256 ^ n))) out)"

definition encode_scalar ::
  "fname_encoder \<Rightarrow> buffer \<Rightarrow> nat \<Rightarrow> string \<Rightarrow> param_input \<Rightarrow> encoded_parms \<Rightarrow> encoded_parms guarded" where
  "encode_scalar encode_fname buf off type input out =
     (let n = pi_number input
      in if type = ''IntProperty'' \<or> type = ''Int32Property'' \<or> type = ''UInt32Property'' then
           write_int 4 buf off (cast_int (- (2 ^ 31)) (2 ^ 31 - 1) n) out
         else if type = ''Int64Property'' \<or> type = ''UInt64Property'' then
           write_int 8 buf off (cast_int (- (2 ^ 63)) (2 ^ 63 - 1) n) out
         else if type = ''Int16Property'' \<or> type = ''UInt16Property'' then
           write_int 2 buf off (cast_int (- (2 ^ 15)) (2 ^ 15 - 1) n) out
         else if type = ''ByteProperty'' \<or> type = ''Int8Property'' \<or> type = ''EnumProperty'' then
           write_int 1 buf off (cast_int 0 255 n) out
         else if type = ''BoolProperty'' then write_at buf off [if is_zero n then 0 else 1] out
         else if type = ''FloatProperty'' then write_at buf off (le_bytes 4 (unat (float_of_double n))) out
         else if type = ''DoubleProperty'' then write_at buf off (le_bytes 8 (unat n)) out
         else if type = ''NameProperty'' then
           gbind (case encode_fname of None \<Rightarrow> Done 0 | Some enc \<Rightarrow> enc (pi_text input)) (\<lambda>index.
             gbind (write_at buf off (le_bytes 4 (unat index)) out) (\<lambda>out.
               write_at buf (off + 4) [0, 0, 0, 0] out))
         else Done out)"

definition unit_bytes :: "u16 list \<Rightarrow> u8 list" where
  "unit_bytes units = concat (map (\<lambda>u. le_bytes 2 (unat u)) units)"

text \<open>The \<^verbatim>\<open>{Data, Num, Max}\<close> triple of a string or an array.\<close>

definition write_triple :: "buffer \<Rightarrow> nat \<Rightarrow> u64 \<Rightarrow> nat \<Rightarrow> encoded_parms \<Rightarrow> encoded_parms guarded" where
  "write_triple buf off data num out =
     gbind (write_at buf off (le_bytes 8 (unat data)) out) (\<lambda>out.
       gbind (write_at buf (off + 8) (le_bytes 4 num) out) (\<lambda>out.
         write_at buf (off + 12) (le_bytes 4 num) out))"

definition encode_str ::
  "(nat \<Rightarrow> u64) \<Rightarrow> buffer \<Rightarrow> nat \<Rightarrow> string \<Rightarrow> encoded_parms \<Rightarrow> encoded_parms guarded" where
  "encode_str pool_va buf off text out =
     (if text = [] then write_at buf off (replicate 16 0) out
      else (let units = utf8_to_utf16 text @ [0]; k = length (ep_pools out)
            in write_triple buf off (pool_va k) (length units) (new_pool (unit_bytes units) out)))"

function encode_fields ::
    "(nat \<Rightarrow> u64) \<Rightarrow> fname_encoder \<Rightarrow> buffer \<Rightarrow> nat \<Rightarrow> param_spec list \<Rightarrow> param_input list \<Rightarrow> nat \<Rightarrow>
     encoded_parms \<Rightarrow> encoded_parms guarded"
and encode_field ::
    "(nat \<Rightarrow> u64) \<Rightarrow> fname_encoder \<Rightarrow> buffer \<Rightarrow> nat \<Rightarrow> param_spec \<Rightarrow> param_input \<Rightarrow> nat \<Rightarrow>
     encoded_parms \<Rightarrow> encoded_parms guarded"
and encode_array ::
    "(nat \<Rightarrow> u64) \<Rightarrow> fname_encoder \<Rightarrow> buffer \<Rightarrow> nat \<Rightarrow> param_spec \<Rightarrow> param_input \<Rightarrow> nat \<Rightarrow>
     encoded_parms \<Rightarrow> encoded_parms guarded"
and encode_elements ::
    "(nat \<Rightarrow> u64) \<Rightarrow> fname_encoder \<Rightarrow> buffer \<Rightarrow> nat \<Rightarrow> param_spec \<Rightarrow> param_input list \<Rightarrow> nat \<Rightarrow>
     encoded_parms \<Rightarrow> encoded_parms guarded"
where
  "encode_fields pool_va encode_fname buf base [] inputs depth out = Done out"
| "encode_fields pool_va encode_fname buf base (param # params) inputs depth out =
     gbind (case find_input inputs (ps_name param) of
              None \<Rightarrow> Done out
            | Some input \<Rightarrow> encode_field pool_va encode_fname buf (base + unat (ps_offset param)) param input depth out) (\<lambda>out.
       encode_fields pool_va encode_fname buf base params inputs depth out)"
| "encode_field pool_va encode_fname buf off param input depth out =
     (if ps_type param = ''ArrayProperty'' then encode_array pool_va encode_fname buf off param input depth out
      else if ps_type param = ''StructProperty'' then
        (if depth < kMaxStructDepth
         then encode_fields pool_va encode_fname buf off (ps_fields param) (pi_items input) (depth + 1) out
         else Done out)
      else if ps_type param = ''StrProperty'' then encode_str pool_va buf off (pi_text input) out
      else encode_scalar encode_fname buf off (ps_type param) input out)"
| "encode_array pool_va encode_fname buf off param input depth out =
     gbind (write_at buf off (replicate 16 0) out) (\<lambda>out.
       if \<not> pi_is_array input \<or> pi_items input = [] \<or> ps_inner_size param = 0 then Done out
       else (let count = length (pi_items input); k = length (ep_pools out);
                 pool = replicate (unat (of_nat count * ps_inner_size param)) 0
             in gbind (encode_elements pool_va encode_fname (Pool k) 0 param (pi_items input) depth (new_pool pool out)) (\<lambda>out.
                  write_triple buf off (pool_va k) count out)))"
| "encode_elements pool_va encode_fname buf off param [] depth out = Done out"
| "encode_elements pool_va encode_fname buf off param (item # items) depth out =
     gbind (if struct_elements param then
              (if depth < kMaxStructDepth
               then encode_fields pool_va encode_fname buf off (ps_fields param) (pi_items item) (depth + 1) out
               else Done out)
            else if ps_inner_type param = ''StrProperty'' then encode_str pool_va buf off (pi_text item) out
            else encode_scalar encode_fname buf off (ps_inner_type param) item out) (\<lambda>out.
       encode_elements pool_va encode_fname buf (off + unat (ps_inner_size param)) param items depth out)"
  by pat_completeness auto
termination
  by (relation "inv_image (less_than <*lex*> less_than <*lex*> less_than) (\<lambda>x.
        case x of
          Inl (Inl (_, _, _, _, params, _)) \<Rightarrow> (size_list size params, 0, 0)
        | Inl (Inr (_, _, _, _, param, _)) \<Rightarrow> (size param, 2, 0)
        | Inr (Inl (_, _, _, _, param, _)) \<Rightarrow> (size param, 1, 0)
        | Inr (Inr (_, _, _, _, param, items, _)) \<Rightarrow> (size param, 0, length items))")
    (auto simp: size_ps_fields)

declare encode_field.simps [simp del] encode_array.simps [simp del]

definition encode_parms ::
  "(nat \<Rightarrow> u64) \<Rightarrow> nat \<Rightarrow> param_spec list \<Rightarrow> param_input list \<Rightarrow> fname_encoder \<Rightarrow> encoded_parms guarded" where
  "encode_parms pool_va parms_size params inputs encode_fname =
     encode_fields pool_va encode_fname Parms 0 params inputs 0
       \<lparr>ep_parms = replicate parms_size 0, ep_pools = []\<rparr>"

section \<open>Layouts that fit and values that convert\<close>

definition width :: "string \<Rightarrow> nat" where
  "width type =
     (if type \<in> set [''IntProperty'', ''Int32Property'', ''UInt32Property'', ''FloatProperty''] then 4
      else if type \<in> set [''Int64Property'', ''UInt64Property'', ''DoubleProperty'', ''NameProperty''] then 8
      else if type \<in> set [''Int16Property'', ''UInt16Property''] then 2
      else if type \<in> set [''ByteProperty'', ''Int8Property'', ''EnumProperty'', ''BoolProperty''] then 1
      else if type = ''StrProperty'' then 16
      else 0)"

function span_fields :: "param_spec list \<Rightarrow> nat" and span :: "param_spec \<Rightarrow> nat" where
  "span_fields [] = 0"
| "span_fields (param # params) = max (unat (ps_offset param) + span param) (span_fields params)"
| "span param =
     (if ps_type param = ''ArrayProperty'' then 16
      else if ps_type param = ''StructProperty'' then span_fields (ps_fields param)
      else width (ps_type param))"
  by pat_completeness auto
termination
  by (relation "measure (\<lambda>x. case x of Inl params \<Rightarrow> size_list size params | Inr param \<Rightarrow> size param)")
    (auto simp: size_ps_fields)

declare span.simps [simp del]

text \<open>The elements of every array of the layout fit their stride.\<close>

function strides_fit :: "param_spec list \<Rightarrow> bool" and stride_fits :: "param_spec \<Rightarrow> bool" where
  "strides_fit [] = True"
| "strides_fit (param # params) = (stride_fits param \<and> strides_fit params)"
| "stride_fits param =
     (if ps_type param = ''ArrayProperty'' then
        (if struct_elements param
         then span_fields (ps_fields param) \<le> unat (ps_inner_size param) \<and> strides_fit (ps_fields param)
         else width (ps_inner_type param) \<le> unat (ps_inner_size param))
      else if ps_type param = ''StructProperty'' then strides_fit (ps_fields param)
      else True)"
  by pat_completeness auto
termination
  by (relation "measure (\<lambda>x. case x of Inl params \<Rightarrow> size_list size params | Inr param \<Rightarrow> size param)")
    (auto simp: size_ps_fields)

declare stride_fits.simps [simp del]

definition number_fits :: "string \<Rightarrow> double \<Rightarrow> bool" where
  "number_fits type n =
     (if type \<in> set [''IntProperty'', ''Int32Property'', ''UInt32Property''] then cast_ok (- (2 ^ 31)) (2 ^ 31 - 1) n
      else if type \<in> set [''Int64Property'', ''UInt64Property''] then cast_ok (- (2 ^ 63)) (2 ^ 63 - 1) n
      else if type \<in> set [''Int16Property'', ''UInt16Property''] then cast_ok (- (2 ^ 15)) (2 ^ 15 - 1) n
      else if type \<in> set [''ByteProperty'', ''Int8Property'', ''EnumProperty''] then cast_ok 0 255 n
      else True)"

function values_fit :: "param_spec list \<Rightarrow> param_input list \<Rightarrow> bool"
and value_fits :: "param_spec \<Rightarrow> param_input \<Rightarrow> bool"
and item_fits :: "param_spec \<Rightarrow> param_input \<Rightarrow> bool"
where
  "values_fit [] inputs = True"
| "values_fit (param # params) inputs =
     ((case find_input inputs (ps_name param) of None \<Rightarrow> True | Some input \<Rightarrow> value_fits param input) \<and>
      values_fit params inputs)"
| "value_fits param input =
     (if ps_type param = ''ArrayProperty''
      then length (pi_items input) * unat (ps_inner_size param) < 2 ^ 64 \<and>
        (\<forall>x \<in> set (pi_items input). item_fits param x)
      else if ps_type param = ''StructProperty'' then values_fit (ps_fields param) (pi_items input)
      else number_fits (ps_type param) (pi_number input))"
| "item_fits param input =
     (if struct_elements param then values_fit (ps_fields param) (pi_items input)
      else number_fits (ps_inner_type param) (pi_number input))"
  by pat_completeness auto
termination
  by (relation "inv_image (less_than <*lex*> less_than) (\<lambda>x.
        case x of
          Inl (params, _) \<Rightarrow> (size_list size params, 0)
        | Inr (Inl (param, _)) \<Rightarrow> (size param, 1)
        | Inr (Inr (param, _)) \<Rightarrow> (size param, 0))")
    (auto simp: size_ps_fields)

declare value_fits.simps [simp del] item_fits.simps [simp del]


section \<open>What a write leaves alone\<close>

fun present :: "encoded_parms \<Rightarrow> buffer \<Rightarrow> bool" where
  "present out Parms = True"
| "present out (Pool k) = (k < length (ep_pools out))"

definition only :: "buffer \<Rightarrow> nat \<Rightarrow> nat \<Rightarrow> encoded_parms \<Rightarrow> encoded_parms \<Rightarrow> bool" where
  "only buf lo hi out out' \<longleftrightarrow>
     length (ep_pools out) \<le> length (ep_pools out') \<and>
     (\<forall>b. present out b \<longrightarrow>
        length (buffer_bytes out' b) = length (buffer_bytes out b) \<and>
        (\<forall>i < length (buffer_bytes out b). \<not> (b = buf \<and> lo \<le> i \<and> i < hi) \<longrightarrow>
           buffer_bytes out' b ! i = buffer_bytes out b ! i))"

lemma only_refl [simp]: "only buf lo hi out out"
  by (simp add: only_def)

lemma only_present: "only buf lo hi out out' \<Longrightarrow> present out b \<Longrightarrow> present out' b"
  by (cases b) (auto simp: only_def)

lemma only_length: "only buf lo hi out out' \<Longrightarrow> present out b \<Longrightarrow> length (buffer_bytes out' b) = length (buffer_bytes out b)"
  by (simp add: only_def)

lemma only_trans: "only buf lo hi out out' \<Longrightarrow> only buf lo hi out' out'' \<Longrightarrow> only buf lo hi out out''"
  using only_present [of buf lo hi out out'] by (fastforce simp: only_def)

lemma only_mono: "only buf lo hi out out' \<Longrightarrow> lo' \<le> lo \<Longrightarrow> hi \<le> hi' \<Longrightarrow> only buf lo' hi' out out'"
  by (fastforce simp: only_def)

lemma buffer_bytes_new_pool:
  "present out b \<Longrightarrow> buffer_bytes (new_pool bs out) b = buffer_bytes out b"
  "buffer_bytes (new_pool bs out) (Pool (length (ep_pools out))) = bs"
  by (cases b; simp add: new_pool_def nth_append) (simp add: new_pool_def)

lemma only_new_pool: "only buf lo hi out (new_pool bs out)"
  by (auto simp: only_def buffer_bytes_new_pool(1)) (simp add: new_pool_def)

text \<open>Changes to a pool that did not exist yet.\<close>

lemma only_fresh_pool:
  assumes "only (Pool (length (ep_pools out))) lo hi (new_pool bs out) out'"
  shows "only buf lo' hi' out out'"
proof -
  have "present (new_pool bs out) b" if "present out b" for b
    using that by (cases b) (auto simp: new_pool_def)
  moreover have "b \<noteq> Pool (length (ep_pools out))" if "present out b" for b
    using that by auto
  ultimately show ?thesis
    using assms by (auto simp: only_def buffer_bytes_new_pool(1)) (simp add: new_pool_def)
qed

lemma length_splice: "off + length new \<le> length old \<Longrightarrow> length (splice off new old) = length old"
  by (simp add: splice_def)

lemma splice_nth:
  "off + length new \<le> length old \<Longrightarrow> i < off \<or> off + length new \<le> i \<Longrightarrow> splice off new old ! i = old ! i"
  by (auto simp: splice_def nth_append)

lemma buffer_bytes_set_buffer:
  "present out buf \<Longrightarrow> buffer_bytes (set_buffer buf bs out) b = (if b = buf then bs else buffer_bytes out b)"
  by (cases buf; cases b) auto

lemma length_pools_set_buffer [simp]: "length (ep_pools (set_buffer buf bs out)) = length (ep_pools out)"
  by (cases buf) simp_all

lemma write_at_only:
  "present out buf \<Longrightarrow> off + length bs \<le> length (buffer_bytes out buf) \<Longrightarrow>
   guaranteed E (only buf off (off + length bs) out) (write_at buf off bs out)"
  by (auto simp: write_at_def only_def buffer_bytes_set_buffer length_splice splice_nth)

lemma length_unit_bytes [simp]: "length (unit_bytes us) = 2 * length us"
  by (induction us) (simp_all add: unit_bytes_def)

text \<open>A write inside a wider span, and two in a row.\<close>

lemma write_at_within:
  assumes "present out buf" "lo \<le> off" "off + length bs \<le> hi" "hi \<le> length (buffer_bytes out buf)"
  shows "guaranteed E (only buf lo hi out) (write_at buf off bs out)"
  using assms by (intro guaranteed_mono [OF write_at_only]) (auto intro: only_mono)

lemma only_gbind:
  assumes "guaranteed E (only buf lo hi out) r" "present out buf" "hi \<le> length (buffer_bytes out buf)"
    "\<And>out'. only buf lo hi out out' \<Longrightarrow> present out' buf \<Longrightarrow> hi \<le> length (buffer_bytes out' buf) \<Longrightarrow>
       guaranteed E (only buf lo hi out') (k out')"
  shows "guaranteed E (only buf lo hi out) (gbind r k)"
proof (rule guaranteed_gbind [OF assms(1)])
  fix out'
  assume "only buf lo hi out out'"
  with assms(2-4) show "guaranteed E (only buf lo hi out) (k out')"
    by (metis only_length only_present only_trans guaranteed_mono)
qed

definition encoder_crashes :: "fname_encoder \<Rightarrow> bool" where
  "encoder_crashes encode_fname \<longleftrightarrow> (\<exists>enc text. encode_fname = Some enc \<and> enc text = Crash)"

lemma encode_name_within:
  assumes "present out buf" "off + 8 \<le> length (buffer_bytes out buf)"
  shows "guaranteed (encoder_crashes enc) (only buf off (off + 8) out)
    (gbind (case enc of None \<Rightarrow> Done 0 | Some f \<Rightarrow> f text) (\<lambda>index.
       gbind (write_at buf off (le_bytes 4 (unat index)) out) (\<lambda>out. write_at buf (off + 4) [0, 0, 0, 0] out)))"
proof -
  have "guaranteed (encoder_crashes enc) (\<lambda>_ :: u32. True) (case enc of None \<Rightarrow> Done 0 | Some f \<Rightarrow> f text)"
    by (auto simp: encoder_crashes_def guaranteed_def split: option.splits guarded.splits)
  then show ?thesis
    by (rule guaranteed_gbind) (intro only_gbind write_at_within; use assms in simp)
qed

lemma write_int_within:
  assumes "present out buf" "off + n \<le> length (buffer_bytes out buf)" "cast_ok lo hi x"
  shows "guaranteed E (only buf off (off + n) out) (write_int n buf off (cast_int lo hi x) out)"
  using assms by (simp add: write_int_def cast_int_def write_at_within)

text \<open>The integral types: how many bytes, and which numbers convert.\<close>

definition int_types :: "string set" where
  "int_types = {''IntProperty'', ''Int32Property'', ''UInt32Property'', ''Int64Property'', ''UInt64Property'',
     ''Int16Property'', ''UInt16Property'', ''ByteProperty'', ''Int8Property'', ''EnumProperty''}"

definition flat_types :: "string set" where
  "flat_types = {''BoolProperty'', ''FloatProperty'', ''DoubleProperty''}"

lemma scalar_int_cases:
  assumes "type \<in> int_types"
  obtains n lo hi where "width type = n" "number_fits type = cast_ok lo hi"
    "\<And>input enc buf off out. encode_scalar enc buf off type input out = write_int n buf off (cast_int lo hi (pi_number input)) out"
proof -
  have "\<exists>n lo hi. width type = n \<and> number_fits type = cast_ok lo hi \<and>
    (\<forall>input enc buf off out. encode_scalar enc buf off type input out = write_int n buf off (cast_int lo hi (pi_number input)) out)"
    using assms unfolding int_types_def
    by (elim insertE emptyE; simp add: encode_scalar_def width_def number_fits_def fun_eq_iff Let_def; blast)
  then show ?thesis using that by blast
qed

lemma encode_scalar_within:
  assumes "present out buf" "off + width type \<le> length (buffer_bytes out buf)" "number_fits type (pi_number input)"
  shows "guaranteed (encoder_crashes enc) (only buf off (off + width type) out) (encode_scalar enc buf off type input out)"
proof -
  consider "type \<in> int_types" | "type \<in> flat_types" | "type = ''NameProperty''"
    | "type \<notin> int_types \<union> flat_types \<union> {''NameProperty''}"
    by blast
  then show ?thesis
  proof cases
    case 1
    show ?thesis
      by (rule scalar_int_cases [OF 1]) (use assms in \<open>simp add: write_int_within\<close>)
  next
    case 2
    then show ?thesis
      using assms(1,2) unfolding flat_types_def
      by (elim insertE emptyE) (simp_all add: encode_scalar_def width_def write_at_within)
  next
    case 3
    then show ?thesis
      using assms(1,2) encode_name_within [of out buf off enc "pi_text input"] by (simp add: encode_scalar_def width_def)
  next
    case 4
    then have "encode_scalar enc buf off type input out = Done out"
      by (simp add: encode_scalar_def int_types_def flat_types_def)
    then show ?thesis by simp
  qed
qed

lemma write_triple_within:
  assumes "present out buf" "off + 16 \<le> length (buffer_bytes out buf)"
  shows "guaranteed E (only buf off (off + 16) out) (write_triple buf off data num out)"
  unfolding write_triple_def by (intro only_gbind write_at_within; use assms in simp)

lemma encode_str_within:
  assumes "present out buf" "off + 16 \<le> length (buffer_bytes out buf)"
  shows "guaranteed E (only buf off (off + 16) out) (encode_str pool_va buf off text out)"
proof (cases "text = []")
  case True
  then show ?thesis
    using assms by (auto simp: encode_str_def intro: write_at_within)
next
  case False
  have "present (new_pool bs out) buf" for bs
    using assms(1) by (cases buf) (auto simp: new_pool_def)
  then have "guaranteed E (only buf off (off + 16) (new_pool bs out)) (write_triple buf off data num (new_pool bs out))"
    for bs data num
    using assms by (intro write_triple_within) (simp_all add: buffer_bytes_new_pool(1))
  then have "guaranteed E (only buf off (off + 16) out) (write_triple buf off data num (new_pool bs out))"
    for bs data num
    by (rule guaranteed_mono) (rule only_trans [OF only_new_pool])
  with False show ?thesis
    by (simp only: encode_str_def Let_def if_False)
qed



lemma span_cases:
  "ps_type param = ''ArrayProperty'' \<Longrightarrow> span param = 16"
  "ps_type param = ''StructProperty'' \<Longrightarrow> span param = span_fields (ps_fields param)"
  "ps_type param = ''StrProperty'' \<Longrightarrow> span param = 16"
  "ps_type param \<notin> {''ArrayProperty'', ''StructProperty''} \<Longrightarrow> span param = width (ps_type param)"
  by (simp_all add: span.simps width_def)

lemma encode_within:
  "present out buf \<Longrightarrow> base + span_fields params \<le> length (buffer_bytes out buf) \<Longrightarrow> strides_fit params \<Longrightarrow>
     values_fit params inputs \<Longrightarrow>
     guaranteed (encoder_crashes enc) (only buf base (base + span_fields params) out)
       (encode_fields pool_va enc buf base params inputs depth out)"
  "present out buf \<Longrightarrow> off + span param \<le> length (buffer_bytes out buf) \<Longrightarrow> stride_fits param \<Longrightarrow>
     value_fits param input \<Longrightarrow>
     guaranteed (encoder_crashes enc) (only buf off (off + span param) out)
       (encode_field pool_va enc buf off param input depth out)"
  "present out buf \<Longrightarrow> off + 16 \<le> length (buffer_bytes out buf) \<Longrightarrow> stride_fits param \<Longrightarrow>
     ps_type param = ''ArrayProperty'' \<Longrightarrow> value_fits param input \<Longrightarrow>
     guaranteed (encoder_crashes enc) (only buf off (off + 16) out)
       (encode_array pool_va enc buf off param input depth out)"
  "present out buf \<Longrightarrow> off + length items * unat (ps_inner_size param) \<le> length (buffer_bytes out buf) \<Longrightarrow>
     stride_fits param \<Longrightarrow> ps_type param = ''ArrayProperty'' \<Longrightarrow> \<forall>x \<in> set items. item_fits param x \<Longrightarrow>
     guaranteed (encoder_crashes enc) (only buf off (off + length items * unat (ps_inner_size param)) out)
       (encode_elements pool_va enc buf off param items depth out)"
proof (induction pool_va enc buf base params inputs depth out and pool_va enc buf off param input depth out
    and pool_va enc buf off param input depth out and pool_va enc buf off param items depth out
    rule: encode_fields_encode_field_encode_array_encode_elements.induct)
  case (2 pool_va enc buf base param params inputs depth out)
  let ?hi = "base + span_fields (param # params)"
  have first: "guaranteed (encoder_crashes enc) (only buf base ?hi out)
      (case find_input inputs (ps_name param) of None \<Rightarrow> Done out
       | Some input \<Rightarrow> encode_field pool_va enc buf (base + unat (ps_offset param)) param input depth out)"
  proof (cases "find_input inputs (ps_name param)")
    case (Some input)
    have "guaranteed (encoder_crashes enc)
        (only buf (base + unat (ps_offset param)) (base + unat (ps_offset param) + span param) out)
        (encode_field pool_va enc buf (base + unat (ps_offset param)) param input depth out)"
      using 2 Some by (intro 2(1)) auto
    then show ?thesis
      by (simp add: Some) (erule guaranteed_mono, erule only_mono, auto)
  qed simp
  show ?case
    unfolding encode_fields.simps
  proof (rule only_gbind [OF first])
    fix out'
    assume "present out' buf" "?hi \<le> length (buffer_bytes out' buf)"
    then have "guaranteed (encoder_crashes enc) (only buf base (base + span_fields params) out')
        (encode_fields pool_va enc buf base params inputs depth out')"
      using 2(5,6) by (intro 2(2)) auto
    then show "guaranteed (encoder_crashes enc) (only buf base ?hi out')
        (encode_fields pool_va enc buf base params inputs depth out')"
      by (rule guaranteed_mono) (auto elim: only_mono)
  qed (use 2(3,4) in simp_all)
next
  case (3 pool_va enc buf off param input depth out)
  consider "ps_type param = ''ArrayProperty''" | "ps_type param = ''StructProperty''" | "ps_type param = ''StrProperty''"
    | "ps_type param \<notin> {''ArrayProperty'', ''StructProperty'', ''StrProperty''}" by blast
  then show ?case
  proof cases
    case 1
    then show ?thesis
      using 3 by (simp add: encode_field.simps span_cases)
  next
    case 2
    then show ?thesis
      using 3(2-) by (simp add: encode_field.simps span_cases stride_fits.simps value_fits.simps)
  next
    case str: 3
    then show ?thesis
      using 3(3-) by (simp add: encode_field.simps span_cases encode_str_within)
  next
    case 4
    then show ?thesis
      using 3(3-) by (simp add: encode_field.simps span_cases value_fits.simps encode_scalar_within)
  qed
next
  case (4 pool_va enc buf off param input depth out)
  have zeroed: "guaranteed (encoder_crashes enc) (only buf off (off + 16) out) (write_at buf off (replicate 16 0) out)"
    using 4(2,3) by (intro write_at_within) simp_all
  show ?case
    unfolding encode_array.simps
  proof (rule only_gbind [OF zeroed 4(2,3)], goal_cases)
    case (1 out1)
    let ?n = "length (pi_items input) * unat (ps_inner_size param)"
    let ?k = "length (ep_pools out1)"
    let ?out2 = "new_pool (replicate (unat (of_nat (length (pi_items input)) * ps_inner_size param)) 0) out1"
    show ?case
    proof (cases "\<not> pi_is_array input \<or> pi_items input = [] \<or> ps_inner_size param = 0")
      case False
      have size: "unat (of_nat (length (pi_items input)) * ps_inner_size param) = ?n"
        using 4(6) 4(5) by (simp add: unat_word_ariths(2) value_fits.simps unat_of_nat mod_mult_left_eq)
      have "guaranteed (encoder_crashes enc) (only (Pool ?k) 0 (0 + ?n) ?out2)
          (encode_elements pool_va enc (Pool ?k) 0 param (pi_items input) depth ?out2)"
      proof (rule 4(1) [OF False refl refl refl])
        show "0 + ?n \<le> length (buffer_bytes ?out2 (Pool ?k))"
          by (simp only: buffer_bytes_new_pool(2) length_replicate size add_0)
      qed (use 4(4-6) in \<open>simp_all add: value_fits.simps new_pool_def\<close>)
      then have "guaranteed (encoder_crashes enc) (only buf off (off + 16) out1)
          (encode_elements pool_va enc (Pool ?k) 0 param (pi_items input) depth ?out2)"
        by (rule guaranteed_mono) (rule only_fresh_pool)
      then show ?thesis
        using False 1 by (simp only: if_False Let_def) (rule only_gbind, assumption+, rule write_triple_within, assumption+)
    qed simp
  qed
next
  case (6 pool_va enc buf off param item items depth out)
  let ?size = "unat (ps_inner_size param)"
  let ?hi = "off + length (item # items) * ?size"
  have first: "guaranteed (encoder_crashes enc) (only buf off ?hi out)
      (if struct_elements param then
         (if depth < kMaxStructDepth
          then encode_fields pool_va enc buf off (ps_fields param) (pi_items item) (depth + 1) out else Done out)
       else if ps_inner_type param = ''StrProperty'' then encode_str pool_va buf off (pi_text item) out
       else encode_scalar enc buf off (ps_inner_type param) item out)"
  proof (cases "struct_elements param")
    case True
    then show ?thesis
      using 6(1) 6(3-) by (auto simp: stride_fits.simps item_fits.simps elim!: guaranteed_mono only_mono)
  next
    case False
    have "guaranteed (encoder_crashes enc) (only buf off (off + width (ps_inner_type param)) out)
       (if ps_inner_type param = ''StrProperty'' then encode_str pool_va buf off (pi_text item) out
        else encode_scalar enc buf off (ps_inner_type param) item out)"
      using 6(3-) False encode_str_within [of out buf off] encode_scalar_within [of out buf off "ps_inner_type param" item enc]
      by (auto simp: stride_fits.simps item_fits.simps width_def)
    then show ?thesis
      using False 6(5,6) by (simp only: if_False) (erule guaranteed_mono, erule only_mono, auto simp: stride_fits.simps)
  qed
  show ?case
    unfolding encode_elements.simps
  proof (rule only_gbind [OF first 6(3)], goal_cases)
    case (2 out')
    then have "guaranteed (encoder_crashes enc) (only buf (off + ?size) (off + ?size + length items * ?size) out')
        (encode_elements pool_va enc buf (off + ?size) param items depth out')"
      using 6(5-7) by (intro 6(2)) (simp_all add: algebra_simps)
    then show ?case
      by (rule guaranteed_mono) (erule only_mono, simp_all add: algebra_simps)
  qed (use 6(4) in simp)
qed simp_all

text \<open>An unsigned value above the signed maximum does not convert, and a byte is written unsigned.\<close>

lemma cast_byte_200: "cast_int 0 255 0x4069000000000000 = Done 200"
  by (simp add: cast_int_def cast_ok_def isfinite_def double_exp_def double_trunc_def double_quotient_def double_frac_def
      double_neg_def)

lemma cast_above_int32: "\<not> cast_ok (- (2 ^ 31)) (2 ^ 31 - 1) 0x41E65A0BC0000000"
  by (simp add: cast_ok_def isfinite_def double_exp_def double_trunc_def double_quotient_def double_frac_def
      double_neg_def)

lemma byte_200_written:
  "encode_scalar ef buf off ''ByteProperty'' (ParamInput name False [] 0x4069000000000000 False False []) out =
     write_at buf off [200] out"
  by (simp add: encode_scalar_def write_int_def cast_byte_200)

lemma unsigned_above_signed:
  "encode_scalar ef buf off ''UInt32Property'' (ParamInput name False [] 0x41E65A0BC0000000 False False []) out = Crash"
  using cast_above_int32 by (simp add: encode_scalar_def write_int_def cast_int_def)


section \<open>Properties\<close>

text \<open>C24: Encoding stays inside its buffers.  When the fields of the layout lie within the parameter
  buffer, the elements of its arrays within their stride, and every number converts to the integer
  type it is written as, no write leaves its buffer and no conversion is undefined: encoding ends
  the process only if the name lookup it was given does, and otherwise returns a buffer of the
  requested size.\<close>

theorem encode_parms_in_bounds:
  assumes "span_fields params \<le> parms_size" "strides_fit params" "values_fit params inputs"
  shows "case encode_parms pool_va parms_size params inputs encode_fname of
      Crash \<Rightarrow> encoder_crashes encode_fname
    | Done out \<Rightarrow> length (ep_parms out) = parms_size"
proof -
  let ?out = "\<lparr>ep_parms = replicate parms_size 0, ep_pools = []\<rparr>"
  have "guaranteed (encoder_crashes encode_fname) (only Parms 0 (0 + span_fields params) ?out)
      (encode_parms pool_va parms_size params inputs encode_fname)"
    unfolding encode_parms_def using assms by (intro encode_within(1)) simp_all
  then show ?thesis
    using only_length [of Parms _ _ ?out _ Parms] by (auto simp: guaranteed_def split: guarded.splits)
qed

definition sample_params :: "param_spec list" where
  "sample_params =
     [ParamSpec ''Count'' ''IntProperty'' 0 [] 0 [], ParamSpec ''Item'' ''StrProperty'' 8 [] 0 [],
      ParamSpec ''Slots'' ''ArrayProperty'' 24 ''Int16Property'' 2 []]"

definition sample_inputs :: "param_input list" where
  "sample_inputs =
     [ParamInput ''Count'' False [] 0x401c000000000000 False False [],
      ParamInput ''Item'' True ''Wood'' 0 False False [],
      ParamInput ''Slots'' False [] 0 True False
        [ParamInput [] False [] 0xbff0000000000000 False False [], ParamInput [] False [] 0x4008000000000000 False False []]]"

theorem encode_parms_in_bounds_witness:
  "\<exists>out. encode_parms (\<lambda>k. 0x5000 + of_nat k * 0x100) 40 sample_params sample_inputs None = Done out \<and>
     length (ep_parms out) = 40"
proof -
  have "span_fields sample_params \<le> 40"
    by (simp add: sample_params_def span.simps width_def)
  moreover have "strides_fit sample_params"
    by (simp add: sample_params_def stride_fits.simps width_def struct_elements_def)
  moreover have "values_fit sample_params sample_inputs"
    by (simp add: sample_params_def sample_inputs_def find_input_def value_fits.simps item_fits.simps number_fits_def
        struct_elements_def cast_ok_def isfinite_def double_exp_def double_trunc_def double_quotient_def double_frac_def
        double_neg_def)
  ultimately show ?thesis
    using encode_parms_in_bounds [where pool_va = "\<lambda>k. 0x5000 + of_nat k * 0x100" and encode_fname = None
        and params = sample_params and inputs = sample_inputs and parms_size = 40]
    by (auto simp: encoder_crashes_def split: guarded.splits)
qed

end
