(* ===== verification/Palmod_Backend.thy ===== *)
theory Palmod_Backend
  imports Palmod_Chat Palmod_Runtime Palmod_Parms_Encode
begin

text \<open>
  The reflection backend (\<^verbatim>\<open>native/src/reflection_backend.cpp\<close>), which connects the game to the
  runtime: it installs the tick and chat hooks and the by-name hooks, turns chat into commands with
  the sender's authority, and calls game functions for queued actions.  The simpler backends of
  \<^verbatim>\<open>native/src/hook_backend.cpp\<close> are at the end.

  The callbacks act on a state \<open>'w\<close>.  While the backend waits for the engine it polls memory: the
  snapshots it sees, and the answers of the slot search at each attempt, are arguments.  A call of
  the game's own \<^verbatim>\<open>ProcessEvent\<close> is returned as a record of its arguments.
\<close>

section \<open>Callbacks\<close>

record 'w callbacks =
  cb_on_chat :: "(string \<Rightarrow> string \<Rightarrow> u64 \<Rightarrow> int \<Rightarrow> 'w \<Rightarrow> bool \<times> 'w) option"
  cb_on_game_tick :: "('w \<Rightarrow> 'w) option"
  cb_on_player_join :: "(string \<Rightarrow> string \<Rightarrow> u64 \<Rightarrow> 'w \<Rightarrow> 'w) option"
  cb_on_player_leave :: "(string \<Rightarrow> 'w \<Rightarrow> 'w) option"
  cb_on_event :: "(plugin_event \<Rightarrow> 'w \<Rightarrow> 'w) option"

definition callbacks_new :: "'w callbacks" where
  "callbacks_new = \<lparr>cb_on_chat = None, cb_on_game_tick = None, cb_on_player_join = None, cb_on_player_leave = None,
     cb_on_event = None\<rparr>"

text \<open>What the runtime passes to its backend; \<open>drain_tick\<close> drains the action queue.\<close>

definition runtime_callbacks :: "(runtime \<Rightarrow> runtime) \<Rightarrow> runtime callbacks" where
  "runtime_callbacks drain_tick =
     \<lparr>cb_on_chat = Some (\<lambda>text player handle auth. on_chat text player handle (auth_of auth)),
      cb_on_game_tick = Some drain_tick,
      cb_on_player_join = Some on_player_join,
      cb_on_player_leave = Some on_player_leave,
      cb_on_event = Some (\<lambda>event rt. snd (on_event event rt))\<rparr>"

definition optionally :: "('a \<Rightarrow> 'a) option \<Rightarrow> 'a \<Rightarrow> 'a" where
  "optionally f x = (case f of None \<Rightarrow> x | Some g \<Rightarrow> g x)"


section \<open>State\<close>

definition make_reflection_resolver :: "build_profile \<Rightarrow> resolver option" where
  "make_reflection_resolver p =
     (if \<not> has_reflection p then None else Some \<lparr>rs_func_offset = bp_func_offset p, rs_vtable_va = bp_vtable_va p\<rparr>)"

record 'w backend =
  rb_tick_slot :: u64
  rb_callbacks :: "'w callbacks"
  rb_tick_hook :: slot_hook
  rb_chat_hook :: "unit chat_hook"
  rb_resolver :: "resolver option"
  rb_fname_pool :: u64
  rb_generic_hooks :: "(plugin_event \<Rightarrow> 'w \<Rightarrow> 'w) hook_table"
  rb_object_layout :: object_layout
  rb_admin_layout :: admin_layout
  rb_process_event_slot :: u64
  rb_current :: bool

definition admin_layout_of :: "build_profile \<Rightarrow> admin_layout \<Rightarrow> admin_layout" where
  "admin_layout_of p old =
     (if bp_admin_controller_class p \<noteq> [] \<and> bp_admin_badmin_offset p \<noteq> 0
      then \<lparr>al_controller_class = bp_admin_controller_class p,
            al_player_state_offset = bp_admin_player_state_offset p,
            al_player_uid_offset = bp_admin_player_uid_offset p,
            al_badmin_offset = bp_admin_badmin_offset p\<rparr>
      else old)"


section \<open>Chat\<close>

definition hex_upper :: "u8 \<Rightarrow> string" where
  "hex_upper b = [''0123456789ABCDEF'' ! unat (drop_bit 4 b), ''0123456789ABCDEF'' ! unat (b AND 15)]"

definition bytes_to_hex :: "u8 list \<Rightarrow> string" where
  "bytes_to_hex bs = concat (map hex_upper bs)"

definition auth_code :: "auth_state \<Rightarrow> int" where
  "auth_code auth = (if auth = Admin then 2 else if auth = Player then 1 else 0)"

text \<open>The authority of the sender, unknown without an identity or without the facts to check it.\<close>

definition sender_auth :: "mem \<Rightarrow> 'w backend \<Rightarrow> decoded_chat \<Rightarrow> auth_state guarded" where
  "sender_auth m b chat =
     (if dc_has_sender_uid chat \<and> al_configured (rb_admin_layout b) \<and> ol_configured (rb_object_layout b)
      then gbind (resolve_player_auth m (rb_object_layout b) (rb_fname_pool b) (rb_admin_layout b) (dc_sender_uid chat)
                    (\<lambda>_. None)) (\<lambda>r. Done (fst r))
      else Done Unknown)"

definition make_chat_deliver :: "mem \<Rightarrow> 'w backend \<Rightarrow> 'w chat_deliver" where
  "make_chat_deliver m b chat w =
     (let cbs = rb_callbacks b;
          event = dc_event chat;
          w1 = optionally (map_option (\<lambda>f. f event) (cb_on_event cbs)) w
      in case (if length (pe_text event) < 2 \<or> hd (pe_text event) \<noteq> CHR ''!'' then None else cb_on_chat cbs) of
           None \<Rightarrow> Done (False, w1)
         | Some on_chat' \<Rightarrow>
             gbind (sender_auth m b chat) (\<lambda>auth.
               let w2 = (if auth \<noteq> Unknown \<and> dc_has_sender_uid chat
                         then optionally (map_option (\<lambda>f. f (bytes_to_hex (dc_sender_uid chat)) (pe_source event) 0)
                                (cb_on_player_join cbs)) w1
                         else w1)
               in Done (on_chat' (''/'' @ tl (pe_text event)) (pe_source event) 0 (auth_code auth) w2)))"


text \<open>The installed handler is the backend itself, whose state it reads when it is called.\<close>

definition backend_chat_trampoline :: "mem \<Rightarrow> u64 \<Rightarrow> 'w backend \<Rightarrow> 'w \<Rightarrow> (u64 option \<times> 'w) guarded" where
  "backend_chat_trampoline m fframe b w =
     (let h = rb_chat_hook b
      in chat_trampoline m fframe
           \<lparr>ch_hook = ch_hook h, ch_deliver = map_option (\<lambda>_. make_chat_deliver m b) (ch_deliver h),
            ch_config = ch_config h, ch_current = ch_current h\<rparr> w)"


section \<open>Installation\<close>

definition in_image :: "build_profile \<Rightarrow> u64 \<Rightarrow> bool" where
  "in_image p va \<longleftrightarrow> bp_image_base p \<le> va \<and> va < bp_image_base p + bp_executable_size p"

definition probe_engine :: "build_profile \<Rightarrow> mem \<Rightarrow> u64 option" where
  "probe_engine p m =
     (case try_read_u64 m (bp_gengine_global_va p) of
        None \<Rightarrow> None
      | Some engine \<Rightarrow>
          if engine < 0x10000 then None
          else (case try_read_u64 m engine of
                  None \<Rightarrow> None
                | Some vtable \<Rightarrow>
                    if \<not> in_image p vtable then None
                    else (case try_read_u64 m (vtable + bp_engine_tick_vtable_slot p * 8) of
                            None \<Rightarrow> None
                          | Some tick_fn \<Rightarrow> if in_image p tick_fn then Some engine else None)))"

text \<open>The polls until the deadline.\<close>

fun wait_engine :: "build_profile \<Rightarrow> mem list \<Rightarrow> u64" where
  "wait_engine p [] = 0"
| "wait_engine p (m # ms) = (case probe_engine p m of Some engine \<Rightarrow> engine | None \<Rightarrow> wait_engine p ms)"

record install_world =
  iw_paging :: paging
  iw_polls :: "mem list"
  iw_attempts :: "(u64 \<Rightarrow> u64 outcome) list"
  iw_tick_trampoline :: u64
  iw_chat_trampoline :: u64

definition tick_slot_of :: "install_world \<Rightarrow> build_profile \<Rightarrow> u64 \<Rightarrow> mem \<Rightarrow> u64" where
  "tick_slot_of iw p configured m =
     (let ready_engine = (if bp_gengine_global_va p \<noteq> 0 then wait_engine p (iw_polls iw) else 0)
      in if configured = 0 \<and> ready_engine \<noteq> 0 then vtable_slot_address m ready_engine (bp_engine_tick_vtable_slot p)
         else configured)"

definition install_tick :: "install_world \<Rightarrow> 'w backend \<Rightarrow> mem \<Rightarrow> (bool \<times> 'w backend \<times> mem) guarded" where
  "install_tick iw b m =
     (if rb_tick_slot b = 0 then Done (False, b, m)
      else gbind (slot_install (iw_paging iw) (rb_tick_slot b) (iw_tick_trampoline iw) (rb_tick_hook b) m) (\<lambda>(res, h, m').
        Done (res = Inr (), b\<lparr>rb_tick_hook := h\<rparr>, m')))"

definition chat_config_of :: "build_profile \<Rightarrow> chat_config" where
  "chat_config_of p =
     \<lparr>cc_broadcast_thunk_va = bp_image_base p + bp_chat_broadcast_thunk_rva p,
      cc_fframe_locals_offset = bp_chat_fframe_locals_offset p,
      cc_layout = \<lparr>cl_sender_fstring_offset = bp_chat_sender_offset p, cl_text_fstring_offset = bp_chat_text_offset p,
                   cl_sender_uid_offset = bp_admin_sender_uid_offset p\<rparr>\<rparr>"

definition install_chat :: "install_world \<Rightarrow> build_profile \<Rightarrow> 'w backend \<Rightarrow> mem \<Rightarrow> (bool \<times> 'w backend \<times> mem) guarded" where
  "install_chat iw p b m =
     (if has_chat_hook p \<and> (cb_on_event (rb_callbacks b) \<noteq> None \<or> cb_on_chat (rb_callbacks b) \<noteq> None)
      then gbind (attempts (\<lambda>attempt. chat_install (iw_paging iw) (iw_chat_trampoline iw) attempt (chat_config_of p) (Some ()))
                    (iw_attempts iw) (rb_chat_hook b) m) (\<lambda>(ok, h, m').
        Done (ok, b\<lparr>rb_chat_hook := h\<rparr>, m'))
      else Done (False, b, m))"

definition backend_facts :: "build_profile \<Rightarrow> 'w callbacks \<Rightarrow> 'w backend \<Rightarrow> 'w backend" where
  "backend_facts p cbs b =
     b\<lparr>rb_callbacks := cbs, rb_current := True, rb_resolver := make_reflection_resolver p,
       rb_fname_pool := bp_fname_pool_blocks_va p,
       rb_object_layout := layout_default\<lparr>ol_objects_va := bp_guobjectarray_objects_va p,
         ol_super_offset := bp_super_struct_offset p\<rparr>,
       rb_process_event_slot := bp_process_event_slot p,
       rb_admin_layout := admin_layout_of p (rb_admin_layout b)\<rparr>"

definition backend_install ::
  "install_world \<Rightarrow> build_profile \<Rightarrow> 'w callbacks \<Rightarrow> 'w backend \<Rightarrow> mem \<Rightarrow> (unit outcome \<times> 'w backend \<times> mem) guarded" where
  "backend_install iw p cbs b m =
     (let b0 = backend_facts p cbs b;
          b1 = b0\<lparr>rb_tick_slot := tick_slot_of iw p (rb_tick_slot b0) m\<rparr>
      in gbind (install_tick iw b1 m) (\<lambda>(tick_ok, b2, m2).
           gbind (install_chat iw p b2 m2) (\<lambda>(chat_ok, b3, m3).
             if tick_ok \<or> chat_ok then Done (Inr (), b3, m3)
             else Done (Inl ''reflection backend: no hooks available (no reflection layout or chat facts)'',
                        b3\<lparr>rb_current := False, rb_callbacks := callbacks_new\<rparr>, m3))))"

definition backend_uninstall :: "'w backend \<Rightarrow> mem \<Rightarrow> ('w backend \<times> mem) guarded" where
  "backend_uninstall b m =
     gbind (uninstall_all (rb_generic_hooks b) m) (\<lambda>(t, m1).
       gbind (chat_uninstall (rb_chat_hook b) m1) (\<lambda>(ch, m2).
         gbind (slot_uninstall (rb_tick_hook b) m2) (\<lambda>(th, m3).
           Done (b\<lparr>rb_generic_hooks := t, rb_chat_hook := ch, rb_tick_hook := th, rb_resolver := None,
                   rb_fname_pool := 0, rb_callbacks := callbacks_new, rb_current := False\<rparr>, m3))))"

text \<open>The tick: the queue is drained, then the engine's own tick is chained.\<close>

definition tick_trampoline :: "'w backend \<Rightarrow> 'w \<Rightarrow> u64 option \<times> 'w" where
  "tick_trampoline b w =
     (if \<not> rb_current b then (None, w)
      else (let original = sh_original (rb_tick_hook b)
            in (if original = 0 then None else Some original, optionally (cb_on_game_tick (rb_callbacks b)) w)))"


section \<open>By-name hooks\<close>

definition install_generic_hook ::
  "paging \<Rightarrow> (nat \<Rightarrow> u64) \<Rightarrow> bool \<Rightarrow> (u64 \<Rightarrow> u64 outcome) \<Rightarrow> hook_spec \<Rightarrow> 'w backend \<Rightarrow> mem \<Rightarrow>
   (unit outcome \<times> 'w backend \<times> mem) guarded" where
  "install_generic_hook pg stubs owner resolve_thunk spec b m =
     (case (rb_resolver b, cb_on_event (rb_callbacks b)) of
        (None, _) \<Rightarrow> Done (Inl ''reflection backend has no resolver; profile lacks reflection facts'', b, m)
      | (Some _, None) \<Rightarrow> Done (Inl ''reflection backend has no event sink to deliver generic hooks'', b, m)
      | (Some rs, Some on_event') \<Rightarrow>
          gbind
            (if hs_thunk_va spec = 0 \<and> hs_func_slot_va spec = 0 then
               if \<not> ol_configured (rb_object_layout b) \<or> rb_fname_pool b = 0
               then Done (Inl ''generic hook: object array / FName pool missing for live resolution'')
               else gbind (find_function m (rb_object_layout b) (rb_fname_pool b) (hs_name spec) [] (\<lambda>_. None)) (\<lambda>(ufunction, _).
                 if ufunction = 0 then Done (Inl (''generic hook: UFunction not found: '' @ hs_name spec))
                 else gbind (read_struct_layout m ufunction (rb_fname_pool b) 0) (\<lambda>layout.
                   Done (Inr (spec\<lparr>hs_func_slot_va := ufunction + rs_func_offset rs, hs_params := sl_fields layout\<rparr>))))
             else Done (Inr spec)) (\<lambda>target.
            case target of
              Inl e \<Rightarrow> Done (Inl e, b, m)
            | Inr spec' \<Rightarrow>
                gbind (table_install pg stubs owner resolve_thunk spec'
                         (if rb_fname_pool b \<noteq> 0 then Some (fname_resolve m (rb_fname_pool b)) else None)
                         (Some on_event') (rb_generic_hooks b) m) (\<lambda>(res, t, m').
                  Done (ok_then res (\<lambda>_. Inr ()), b\<lparr>rb_generic_hooks := t\<rparr>, m'))))"

text \<open>A call through stub \<open>i\<close>: the decoded call becomes an event of the function's name.\<close>

definition generic_stub :: "mem \<Rightarrow> nat \<Rightarrow> u64 \<Rightarrow> 'w backend \<Rightarrow> 'w \<Rightarrow> (u64 option \<times> 'w) guarded" where
  "generic_stub m i fframe b w =
     gbind (hook_dispatch m i fframe (rb_generic_hooks b)) (\<lambda>(delivered, chained).
       Done (chained,
             case delivered of
               None \<Rightarrow> w
             | Some (deliver, decoded) \<Rightarrow> deliver (event_new\<lparr>pe_kind := gv_name decoded, pe_args := gv_args decoded\<rparr>) w))"


section \<open>Calls\<close>

record process_event_call =
  pc_process_event :: u64
  pc_target :: u64
  pc_function :: u64
  pc_parms :: encoded_parms

definition call_process_event :: "u64 \<Rightarrow> u64 \<Rightarrow> u64 \<Rightarrow> encoded_parms \<Rightarrow> process_event_call option" where
  "call_process_event process_event_va target function_va parms =
     (if process_event_va = 0 \<or> target = 0 then None
      else Some \<lparr>pc_process_event = process_event_va, pc_target = target, pc_function = function_va, pc_parms = parms\<rparr>)"

type_synonym call_outcome = "process_event_call option outcome guarded"

text \<open>The part before and the part after the last occurrence of a character.\<close>

definition rsplit :: "char \<Rightarrow> string \<Rightarrow> (string \<times> string) option" where
  "rsplit c s =
     (if c \<notin> set s then None
      else Some (rev (drop 1 (dropWhile (\<lambda>x. x \<noteq> c) (rev s))), rev (takeWhile (\<lambda>x. x \<noteq> c) (rev s))))"

text \<open>The owning class and the name of the function of a path.\<close>

definition parse_function_path :: "string \<Rightarrow> string \<times> string" where
  "parse_function_path path =
     (case rsplit CHR '':'' path of
        None \<Rightarrow> ([], path)
      | Some (class_path, func) \<Rightarrow>
          (case rsplit CHR ''.'' class_path of None \<Rightarrow> class_path | Some (_, cls) \<Rightarrow> cls, func))"

definition execute_call ::
  "(nat \<Rightarrow> u64) \<Rightarrow> mem \<Rightarrow> 'w backend \<Rightarrow> semantic_action \<Rightarrow> call_outcome" where
  "execute_call pool_va m b action =
     (let l = rb_object_layout b; names = rb_fname_pool b
      in if rb_process_event_slot b = 0 \<or> \<not> ol_configured l \<or> names = 0
         then Done (Inl ''generic call: ProcessEvent slot / object array / FName pool missing'')
         else
           (let path = sa_function_path action;
                (owner, func) = parse_function_path path;
                target_class = (if sa_target_class action = [] then owner else sa_target_class action)
            in gbind (find_function m l names func owner (\<lambda>_. None)) (\<lambda>(ufunction, cache).
                 if ufunction = 0 then Done (Inl (''generic call: UFunction not found: '' @ path))
                 else gbind (if sa_target_object action \<noteq> 0 then Done (sa_target_object action)
                             else gbind (find m l names target_class (\<lambda>_. Done True) cache) (\<lambda>r. Done (fst r))) (\<lambda>target.
                   if target = 0 then Done (Inl (''generic call: no live instance of '' @ target_class))
                   else gbind (read_struct_layout m ufunction names 0) (\<lambda>layout.
                     gbind (encode_parms pool_va (unat (sl_size layout + 0x40)) (sl_fields layout) (sa_call_args action)
                              (Some (fname_lookup m names))) (\<lambda>encoded.
                       let process_event = read_vtable_slot m target (rb_process_event_slot b)
                       in if process_event = 0
                          then Done (Inl ''generic call: could not read ProcessEvent from the target vtable'')
                          else Done (Inr (call_process_event process_event target ufunction encoded))))))))"

definition execute_action ::
  "(nat \<Rightarrow> u64) \<Rightarrow> mem \<Rightarrow> 'w backend \<Rightarrow> semantic_action \<Rightarrow> call_outcome" where
  "execute_action pool_va m b action = (case sa_kind action of CallFunction \<Rightarrow> execute_call pool_va m b action)"


text \<open>The call through a known exec thunk (\<^verbatim>\<open>native/src/generic_call.cpp\<close>).\<close>

record call_spec =
  gc_thunk_va :: u64
  gc_parms_size :: u64
  gc_params :: "param_spec list"

definition call_ufunction ::
  "(nat \<Rightarrow> u64) \<Rightarrow> mem \<Rightarrow> call_spec \<Rightarrow> resolver \<Rightarrow> (u64 \<Rightarrow> u64 outcome) \<Rightarrow> u64 \<Rightarrow> u64 \<Rightarrow> param_input list \<Rightarrow> fname_encoder \<Rightarrow>
   call_outcome" where
  "call_ufunction pool_va m spec rs resolve_thunk target process_event_slot inputs encode_fname =
     (if gc_thunk_va spec = 0 then Done (Inl ''generic call requires a UFunction exec-thunk address'')
      else if target = 0 then Done (Inl ''generic call requires a non-null target object'')
      else (case resolve_thunk (gc_thunk_va spec) of
              Inl e \<Rightarrow> Done (Inl e)
            | Inr slot_va \<Rightarrow>
                if slot_va < rs_func_offset rs
                then Done (Inl ''resolved UFunction slot is below the function offset'')
                else (let process_event_va = read_vtable_slot m target process_event_slot
                      in if process_event_va = 0
                         then Done (Inl ''could not read ProcessEvent from the target object's vtable'')
                         else gbind (encode_parms pool_va (unat (gc_parms_size spec)) (gc_params spec) inputs encode_fname)
                                (\<lambda>parms. Done (Inr (call_process_event process_event_va target (slot_va - rs_func_offset rs) parms))))))"


section \<open>The other backends\<close>

definition noop_install :: "unit outcome" where
  "noop_install = Inr ()"

definition noop_execute_action :: "semantic_action \<Rightarrow> unit outcome" where
  "noop_execute_action action = Inl ''no-op hook backend cannot execute game actions''"

definition unavailable_install :: "unit outcome" where
  "unavailable_install =
     Inl ''PALMOD_HOOK_BACKEND requested Frida Gum, but the loader was built without PALMOD_FRIDA_GUM_ROOT''"

definition unavailable_execute_action :: "semantic_action \<Rightarrow> unit outcome" where
  "unavailable_execute_action action = Inl ''Frida Gum backend is unavailable''"

text \<open>A backend without reflection refuses by-name hooks.\<close>

definition default_install_generic_hook :: "hook_spec \<Rightarrow> unit outcome" where
  "default_install_generic_hook spec = Inl ''hook backend does not support generic by-name hooks''"

record 'w test_backend =
  tb_callbacks :: "'w callbacks"
  tb_executed :: "semantic_action list"

definition test_install :: "'w callbacks \<Rightarrow> 'w test_backend \<Rightarrow> 'w test_backend" where
  "test_install cbs b = b\<lparr>tb_callbacks := cbs\<rparr>"

definition test_uninstall :: "'w test_backend \<Rightarrow> 'w test_backend" where
  "test_uninstall b = b\<lparr>tb_callbacks := callbacks_new\<rparr>"

definition test_execute_action :: "semantic_action \<Rightarrow> 'w test_backend \<Rightarrow> unit outcome \<times> 'w test_backend" where
  "test_execute_action action b = (Inr (), b\<lparr>tb_executed := tb_executed b @ [action]\<rparr>)"

definition emit_chat :: "string \<Rightarrow> string \<Rightarrow> u64 \<Rightarrow> int \<Rightarrow> 'w test_backend \<Rightarrow> 'w \<Rightarrow> bool \<times> 'w" where
  "emit_chat text player handle auth b w =
     (case cb_on_chat (tb_callbacks b) of None \<Rightarrow> (False, w) | Some f \<Rightarrow> f text player handle auth w)"

definition emit_tick :: "'w test_backend \<Rightarrow> 'w \<Rightarrow> 'w" where
  "emit_tick b w = optionally (cb_on_game_tick (tb_callbacks b)) w"

definition emit_player_join :: "string \<Rightarrow> string \<Rightarrow> u64 \<Rightarrow> 'w test_backend \<Rightarrow> 'w \<Rightarrow> 'w" where
  "emit_player_join sid name handle b w = optionally (map_option (\<lambda>f. f sid name handle) (cb_on_player_join (tb_callbacks b))) w"

definition emit_player_leave :: "string \<Rightarrow> 'w test_backend \<Rightarrow> 'w \<Rightarrow> 'w" where
  "emit_player_leave sid b w = optionally (map_option (\<lambda>f. f sid) (cb_on_player_leave (tb_callbacks b))) w"

text \<open>The adapter around Frida Gum (\<^verbatim>\<open>native/src/frida_gum_backend.cpp\<close>): one probe on the game's tick.
  Which handles are held is its state; the code that attaching returns is an argument.\<close>

record 'w gum_backend =
  gb_callbacks :: "'w callbacks"
  gb_interceptor :: bool
  gb_listener :: bool
  gb_initialized :: bool
  gb_attached :: bool

definition gum_uninstall :: "'w gum_backend \<Rightarrow> 'w gum_backend" where
  "gum_uninstall b =
     \<lparr>gb_callbacks = callbacks_new, gb_interceptor = False, gb_listener = False, gb_initialized = False,
      gb_attached = gb_attached b \<and> \<not> (gb_interceptor b \<and> gb_listener b)\<rparr>"

definition gum_install :: "(u64 \<Rightarrow> int) \<Rightarrow> build_profile \<Rightarrow> 'w callbacks \<Rightarrow> 'w gum_backend \<Rightarrow> unit outcome \<times> 'w gum_backend" where
  "gum_install attach p cbs b =
     (case smap_find (bp_hooks p) ''game_tick'' of
        None \<Rightarrow> (Inl ''validated profile lacks the game_tick anchor required by the passive Gum adapter'', b)
      | Some anchor \<Rightarrow>
          (let b1 = b\<lparr>gb_callbacks := cbs, gb_initialized := True, gb_interceptor := True, gb_listener := True\<rparr>;
               attached = attach (bp_image_base p + hp_rva anchor)
           in if attached \<noteq> 0
              then (Inl (''gum_interceptor_attach(game_tick) failed with code '' @ show_int attached), gum_uninstall b1)
              else (Inr (), b1\<lparr>gb_attached := True\<rparr>)))"

definition gum_execute_action :: "semantic_action \<Rightarrow> unit outcome" where
  "gum_execute_action action =
     Inl ''passive Frida Gum adapter cannot execute semantic actions; a validated Palworld ABI adapter is required''"

definition gum_on_tick :: "'w gum_backend \<Rightarrow> 'w \<Rightarrow> 'w" where
  "gum_on_tick b w = optionally (cb_on_game_tick (gb_callbacks b)) w"

text \<open>An adapter that was never installed holds nothing after a failed installation.\<close>

lemma gum_install_fails_clean:
  "\<not> gb_attached b \<Longrightarrow> \<not> gb_initialized b \<Longrightarrow> gum_install attach p cbs b = (Inl e, b') \<Longrightarrow>
     \<not> gb_attached b' \<and> \<not> gb_initialized b'"
  by (auto simp: gum_install_def gum_uninstall_def Let_def split: option.split_asm if_split_asm)

datatype backend_kind = ReflectionBackend | FridaGumBackend | FridaGumUnavailable | NoopBackend

definition make_default_hook_backend :: "bool \<Rightarrow> string option \<Rightarrow> backend_kind" where
  "make_default_hook_backend has_frida_gum requested =
     (if requested = Some ''reflection'' then ReflectionBackend
      else if requested = Some ''frida-gum-passive''
      then (if has_frida_gum then FridaGumBackend else FridaGumUnavailable)
      else NoopBackend)"


section \<open>Lemmas\<close>

text \<open>A backend that holds no slot.\<close>

definition unhooked :: "'w backend \<Rightarrow> bool" where
  "unhooked b \<longleftrightarrow> slot_idle (rb_tick_hook b) \<and> chat_idle (rb_chat_hook b)"

lemma backend_install_steps:
  assumes "backend_install iw p cbs b m = Done (res, b', m')" "unhooked b"
  obtains m1 h1 ch where "slot_uninstall (rb_tick_hook b') m1 = Done (h1, m)"
    "chat_uninstall (rb_chat_hook b') m' = Done (ch, m1)"
proof -
  let ?b0 = "backend_facts p cbs b"
  let ?b1 = "?b0\<lparr>rb_tick_slot := tick_slot_of iw p (rb_tick_slot ?b0) m\<rparr>"
  obtain tick_ok b2 m2 where t: "install_tick iw ?b1 m = Done (tick_ok, b2, m2)"
    using assms(1) by (auto simp: backend_install_def Let_def gbind_Done)
  obtain chat_ok b3 m3 where c: "install_chat iw p b2 m2 = Done (chat_ok, b3, m3)"
    using assms(1) t by (auto simp: backend_install_def Let_def gbind_Done)
  have b': "rb_tick_hook b' = rb_tick_hook b3" "rb_chat_hook b' = rb_chat_hook b3" "m' = m3"
    using assms(1) t c by (auto simp: backend_install_def Let_def split: if_split_asm)
  have fresh: "slot_idle (rb_tick_hook ?b1)" "chat_idle (rb_chat_hook ?b1)"
    using assms(2) by (simp_all add: backend_facts_def unhooked_def)
  have tick: "(\<exists>h1. slot_uninstall (rb_tick_hook b2) m2 = Done (h1, m)) \<and> rb_chat_hook b2 = rb_chat_hook ?b1"
  proof (cases "rb_tick_slot ?b1 = 0")
    case True
    with t fresh(1) slots.idle_uninstall show ?thesis by (auto simp: install_tick_def)
  next
    case False
    then obtain res h where "slot_install (iw_paging iw) (rb_tick_slot ?b1) (iw_tick_trampoline iw) (rb_tick_hook ?b1) m = Done (res, h, m2)"
      "b2 = ?b1\<lparr>rb_tick_hook := h\<rparr>"
      using t by (auto simp: install_tick_def gbind_Done)
    with slots.install_uninstall [of "(_, _, _)"] fresh(1) show ?thesis by fastforce
  qed
  have chat: "(\<exists>ch. chat_uninstall (rb_chat_hook b3) m3 = Done (ch, m2)) \<and> rb_tick_hook b3 = rb_tick_hook b2"
  proof (cases "has_chat_hook p \<and> (cb_on_event (rb_callbacks b2) \<noteq> None \<or> cb_on_chat (rb_callbacks b2) \<noteq> None)")
    case True
    then obtain h where "attempts (\<lambda>attempt. chat_install (iw_paging iw) (iw_chat_trampoline iw) attempt (chat_config_of p) (Some ()))
        (iw_attempts iw) (rb_chat_hook b2) m2 = Done (chat_ok, h, m3)"
      "b3 = b2\<lparr>rb_chat_hook := h\<rparr>"
      using c by (auto simp: install_chat_def gbind_Done)
    with chats.attempts_uninstall fresh(2) tick show ?thesis by fastforce
  next
    case False
    with c have "b3 = b2" "m3 = m2" by (auto simp: install_chat_def split: if_split_asm)
    with fresh(2) tick chats.idle_uninstall show ?thesis by auto
  qed
  from tick chat b' show ?thesis using that by auto
qed


section \<open>Properties\<close>



definition sample_world_iw :: install_world where
  "sample_world_iw = \<lparr>iw_paging = sample_paging, iw_polls = [], iw_attempts = [], iw_tick_trampoline = 0x7000,
     iw_chat_trampoline = 0x8000\<rparr>"

definition sample_chat_hook :: "unit chat_hook" where
  "sample_chat_hook = \<lparr>ch_hook = slot_new, ch_deliver = None, ch_config = chat_config_of profile_new, ch_current = False\<rparr>"

definition sample_backend :: "unit backend" where
  "sample_backend = \<lparr>rb_tick_slot = 0x10, rb_callbacks = callbacks_new, rb_tick_hook = slot_new,
     rb_chat_hook = sample_chat_hook, rb_resolver = None, rb_fname_pool = 0,
     rb_generic_hooks = replicate kCapacity entry_new, rb_object_layout = layout_default,
     rb_admin_layout = \<lparr>al_controller_class = [], al_player_state_offset = 0, al_player_uid_offset = 0, al_badmin_offset = 0\<rparr>,
     rb_process_event_slot = 0, rb_current = False\<rparr>"

lemma sample_backend_install:
  "\<exists>b1. backend_install sample_world_iw profile_new callbacks_new sample_backend sample_slots =
     Done (Inr (), b1, mem_write sample_slots 0x10 (le_bytes 8 (unat (0x7000 :: u64))))"
proof -
  have "load_word sample_slots 0x10 = Done sample_target"
    by (simp add: sample_slots_def load_written aligned8_0x10)
  then show ?thesis
    by (simp add: backend_install_def backend_facts_def sample_backend_def tick_slot_of_def profile_new_def
        install_tick_def slot_install_def slot_new_def make_slot_writable_def sample_world_iw_def sample_paging_def
        store_loaded install_chat_def has_chat_hook_def)
qed


lemma enqueue_event_queue [simp]: "in_queue (snd (enqueue_event e i)) = in_queue i"
  by (simp add: enqueue_event_def)

text \<open>Delivering an event leaves the command side of the runtime alone.\<close>

lemma on_event_find:
  "rt_commands (snd (on_event e rt)) = rt_commands rt"
  "rt_state (snd (on_event e rt)) = rt_state rt"
  "smap_find (rt_plugins (snd (on_event e rt))) k = Some i' \<Longrightarrow>
     \<exists>i. smap_find (rt_plugins rt) k = Some i \<and> in_queue i' = in_queue i"
  "smap_inv (rt_plugins rt) \<Longrightarrow> smap_inv (rt_plugins (snd (on_event e rt)))"
proof -
  have find: "smap_find (map (\<lambda>(k, i). (k, f i)) plugins) k = map_option f (smap_find plugins k)" for f :: "plugin_instance \<Rightarrow> plugin_instance" and plugins
    by (simp add: smap_find_def map_of_map comp_def)
  show "smap_find (rt_plugins (snd (on_event e rt))) k = Some i' \<Longrightarrow>
     \<exists>i. smap_find (rt_plugins rt) k = Some i \<and> in_queue i' = in_queue i"
    by (auto simp: on_event_def deliver_event_alt find split: if_split_asm)
qed (auto simp: on_event_def deliver_event_alt smap_inv_def comp_def case_prod_unfold)

lemma on_player_join_frame [simp]:
  "rt_commands (on_player_join sid name h rt) = rt_commands rt"
  "rt_plugins (on_player_join sid name h rt) = rt_plugins rt"
  "rt_state (on_player_join sid name h rt) = rt_state rt"
  by (auto simp: on_player_join_def split: sum.split)

text \<open>What a line of chat can put into the queue of a plug-in.\<close>

definition chat_invocation :: "runtime \<Rightarrow> string \<Rightarrow> auth_state \<Rightarrow> string \<Rightarrow> command_invocation \<Rightarrow> bool" where
  "chat_invocation rt player auth k invocation \<longleftrightarrow>
     (\<exists>key spec. smap_find (rt_commands rt) key = Some spec \<and> cs_plugin_id spec = k \<and> ci_plugin_id invocation = k \<and>
        ci_command invocation = cs_name spec \<and> ci_player invocation = player \<and> ci_principal invocation = InGamePlayer \<and> ci_auth invocation = auth \<and>
        (cs_permission spec = ServerAdmin \<longrightarrow> auth = Admin))"

lemma on_chat_queues:
  assumes "on_chat line player h auth rt = (suppress, rt')" "smap_inv (rt_plugins rt)" "smap_find (rt_plugins rt') k = Some i'"
  shows "\<exists>i. smap_find (rt_plugins rt) k = Some i \<and>
    (in_queue i' = in_queue i \<or> (\<exists>invocation. in_queue i' = in_queue i @ [invocation] \<and> chat_invocation rt player auth k invocation))"
proof (cases "rt_state rt = Running")
  case True
  obtain res plugins where r: "route (rt_commands rt) line player h auth dispatch (rt_plugins rt) = (res, plugins)"
    by fastforce
  have rt': "rt' = rt\<lparr>rt_plugins := plugins\<rparr>"
    using assms(1) True r by (simp add: on_chat_def)
  from r show ?thesis
  proof (cases rule: route_cases)
    case 1
    with assms(3) rt' show ?thesis by simp
  next
    case (2 parsed spec)
    note d = dispatch_cases [OF 2(4) assms(2)]
    show ?thesis
    proof (cases "rr_dispatched res")
      case False
      with d assms(3) rt' show ?thesis by simp
    next
      case ok: True
      show ?thesis
      proof (cases "k = cs_plugin_id spec")
        case True
        let ?invocation = "\<lparr>ci_plugin_id = cs_plugin_id spec, ci_command = cs_name spec, ci_args = pc_args parsed,
          ci_raw = line, ci_player = player, ci_player_handle = h, ci_auth = auth, ci_principal = InGamePlayer,
          ci_operator_uid = 0\<rparr>"
        have "chat_invocation rt player auth k ?invocation"
          unfolding chat_invocation_def using 2(2,3) True
          by (intro exI [of _ "canonical (pc_name parsed)"] exI [of _ spec]) simp
        moreover obtain i where "smap_find (rt_plugins rt) k = Some i" "in_queue i' = in_queue i @ [?invocation]"
          using True ok d assms(3) rt' by auto
        ultimately show ?thesis by blast
      next
        case False
        with ok d assms(3) rt' show ?thesis by auto
      qed
    qed
  qed
qed (use assms in \<open>simp add: on_chat_def\<close>)

lemma on_chat_suppress:
  assumes "on_chat line player h auth rt = (True, rt')"
  shows "rt_state rt = Running \<and> (\<exists>parsed spec. parse_slash_command line = Inr parsed \<and>
    smap_find (rt_commands rt) (canonical (pc_name parsed)) = Some spec \<and> cs_suppress spec)"
  using assms
  by (auto simp: on_chat_def route_def split: if_split_asm sum.split_asm option.split_asm prod.split_asm)


text \<open>A message is an event only, or a command that goes to the runtime after the sender joined.\<close>

lemma make_chat_deliver_cases:
  assumes "rb_callbacks b = runtime_callbacks drain_tick" "make_chat_deliver m b chat rt = Done (suppress, rt')"
  obtains "\<not> suppress" "rt' = snd (on_event (dc_event chat) rt)"
  | rest auth rt2 where "pe_text (dc_event chat) = CHR ''!'' # rest"
    "on_chat (CHR ''/'' # rest) (pe_source (dc_event chat)) 0 auth rt2 = (suppress, rt')"
    "rt_commands rt2 = rt_commands rt" "rt_plugins rt2 = rt_plugins (snd (on_event (dc_event chat) rt))"
    "auth = Admin \<Longrightarrow> dc_has_sender_uid chat \<and>
       (\<exists>cache. resolve_player_auth m (rb_object_layout b) (rb_fname_pool b) (rb_admin_layout b)
          (dc_sender_uid chat) (\<lambda>_. None) = Done (Admin, cache))"
proof (cases "length (pe_text (dc_event chat)) < 2 \<or> hd (pe_text (dc_event chat)) \<noteq> CHR ''!''")
  case True
  with assms that(1) show ?thesis
    by (auto simp: make_chat_deliver_def Let_def runtime_callbacks_def optionally_def)
next
  case False
  let ?rt1 = "snd (on_event (dc_event chat) rt)"
  obtain rest where line: "pe_text (dc_event chat) = CHR ''!'' # rest" "rest \<noteq> []"
    using False by (cases "pe_text (dc_event chat)") auto
  obtain auth where auth: "sender_auth m b chat = Done auth"
    using assms False by (auto simp: make_chat_deliver_def Let_def runtime_callbacks_def optionally_def gbind_Done)
  let ?rt2 = "if auth \<noteq> Unknown \<and> dc_has_sender_uid chat
    then on_player_join (bytes_to_hex (dc_sender_uid chat)) (pe_source (dc_event chat)) 0 ?rt1 else ?rt1"
  have "auth_of (auth_code auth) = auth" by (cases auth) (simp_all add: auth_of_def auth_code_def)
  then have chat: "on_chat (CHR ''/'' # rest) (pe_source (dc_event chat)) 0 auth ?rt2 = (suppress, rt')"
    using assms auth line
    by (auto simp: make_chat_deliver_def Let_def runtime_callbacks_def optionally_def split: if_split_asm)
  have same: "rt_commands ?rt2 = rt_commands rt" "rt_plugins ?rt2 = rt_plugins ?rt1"
    using on_event_find(1) [where e = "dc_event chat" and rt = rt] by auto
  show ?thesis
    by (rule that(2) [OF line(1) chat same])
      (use auth in \<open>auto simp: sender_auth_def gbind_Done split: if_split_asm\<close>)
qed



definition sample_chat :: decoded_chat where
  "sample_chat = \<lparr>dc_event = event_new\<lparr>pe_kind := ''chat'', pe_source := ''bob'', pe_text := ''!KICK x''\<rparr>,
     dc_sender_uid = replicate 16 0, dc_has_sender_uid = False, dc_category = 0\<rparr>"

definition sample_runtime :: runtime where
  "sample_runtime = runtime_new\<lparr>rt_state := Running, rt_commands := [(''kick'', sample_spec)]\<rparr>"

definition sample_runtime_backend :: "runtime backend" where
  "sample_runtime_backend = \<lparr>rb_tick_slot = 0, rb_callbacks = runtime_callbacks (\<lambda>rt. rt), rb_tick_hook = slot_new,
     rb_chat_hook = sample_chat_hook, rb_resolver = None, rb_fname_pool = 0,
     rb_generic_hooks = replicate kCapacity entry_new, rb_object_layout = layout_default,
     rb_admin_layout = \<lparr>al_controller_class = [], al_player_state_offset = 0, al_player_uid_offset = 0, al_badmin_offset = 0\<rparr>,
     rb_process_event_slot = 0, rb_current = True\<rparr>"

lemma sample_runtime_chat:
  "make_chat_deliver (\<lambda>_. None) sample_runtime_backend sample_chat sample_runtime = Done (True, sample_runtime)"
  by (simp add: make_chat_deliver_def sample_runtime_backend_def sample_chat_def runtime_callbacks_def optionally_def
      on_event_def sample_runtime_def runtime_new_def sender_auth_def auth_code_def auth_of_def on_chat_def route_def
      sample_parse sample_canonical sample_spec_def)



end
