(* ===== verification/Palmod_Control_Server.thy ===== *)
theory Palmod_Control_Server
  imports Palmod_Runtime
begin

text \<open>
  The control socket (\<^verbatim>\<open>native/src/control_server.cpp\<close>): one local socket on which a client of
  the same user sends one packet and gets one packet back.

  The answers of the kernel (\<^verbatim>\<open>lstat\<close>, \<^verbatim>\<open>bind\<close>, the peer's credentials, the packet) are arguments;
  what the server does to the file system and to its socket is recorded as a list of effects.
\<close>

section \<open>Start and stop\<close>

definition kMaxPacket :: nat where "kMaxPacket = 64 * 1024"

definition sun_path_size :: nat where "sun_path_size = 108"

definition error_packet :: "string \<Rightarrow> string" where
  "error_packet message =
     ''{'' @ in_quotes ''id'' @ '':null,'' @ in_quotes ''ok'' @ '':false,'' @ in_quotes ''error'' @ '':{'' @
     in_quotes ''code'' @ '':'' @ in_quotes ''protocol_error'' @ '','' @ in_quotes ''message'' @ '':'' @ in_quotes (escape message) @ ''}}''"

datatype lstat_result = NoEntry | LstatFailed string | Entry bool u32

datatype sys_effect = Unlink string | OpenSocket | Bind string | CloseSocket

record socket_world =
  sw_euid :: u32
  sw_lstat :: "string \<Rightarrow> lstat_result"
  sw_unlink :: "string \<Rightarrow> unit outcome"
  sw_socket :: "unit outcome"
  sw_bind :: "unit outcome"
  sw_chmod :: "unit outcome"
  sw_listen :: "unit outcome"

definition safe_remove_stale :: "socket_world \<Rightarrow> string \<Rightarrow> unit outcome \<times> sys_effect list" where
  "safe_remove_stale sw path =
     (case sw_lstat sw path of
        NoEntry \<Rightarrow> (Inr (), [])
      | LstatFailed e \<Rightarrow> (Inl (''cannot inspect control socket path: '' @ e), [])
      | Entry is_socket uid \<Rightarrow>
          if \<not> is_socket \<or> uid \<noteq> sw_euid sw
          then (Inl ''refusing to replace a non-socket or foreign-owned control path'', [])
          else (case sw_unlink sw path of
                  Inl e \<Rightarrow> (Inl (''cannot remove stale control socket: '' @ e), [])
                | Inr _ \<Rightarrow> (Inr (), [Unlink path])))"

record control_server =
  sv_running :: bool
  sv_stopping :: bool
  sv_path :: string
  sv_handler :: bool

definition server_new :: control_server where
  "server_new = \<lparr>sv_running = False, sv_stopping = False, sv_path = [], sv_handler = False\<rparr>"

text \<open>Opening the listening socket.\<close>

definition open_socket :: "socket_world \<Rightarrow> string \<Rightarrow> unit outcome \<times> sys_effect list" where
  "open_socket sw path =
     (case sw_socket sw of
        Inl e \<Rightarrow> (Inl (''socket(AF_UNIX) failed: '' @ e), [])
      | Inr _ \<Rightarrow>
          (case sw_bind sw of
             Inl e \<Rightarrow> (Inl (''bind(control socket) failed: '' @ e), [OpenSocket, CloseSocket])
           | Inr _ \<Rightarrow>
               (case sw_chmod sw of
                  Inl e \<Rightarrow> (Inl (''chmod(control socket) failed: '' @ e), [OpenSocket, Bind path, CloseSocket, Unlink path])
                | Inr _ \<Rightarrow>
                    (case sw_listen sw of
                       Inl e \<Rightarrow> (Inl (''listen(control socket) failed: '' @ e),
                                [OpenSocket, Bind path, CloseSocket, Unlink path])
                     | Inr _ \<Rightarrow> (Inr (), [OpenSocket, Bind path])))))"

definition server_start ::
  "socket_world \<Rightarrow> string \<Rightarrow> bool \<Rightarrow> control_server \<Rightarrow> unit outcome \<times> control_server \<times> sys_effect list" where
  "server_start sw path handler s =
     (if sv_running s then (Inl ''control server is already running'', s, [])
      else if \<not> is_absolute path then (Inl ''control socket path must be absolute'', s, [])
      else if sun_path_size \<le> length path then (Inl ''control socket path is too long for AF_UNIX'', s, [])
      else (case safe_remove_stale sw path of
              (Inl e, fx) \<Rightarrow> (Inl e, s, fx)
            | (Inr _, fx) \<Rightarrow>
                (case open_socket sw path of
                   (Inl e, fx') \<Rightarrow> (Inl e, s, fx @ fx')
                 | (Inr _, fx') \<Rightarrow>
                     (Inr (), \<lparr>sv_running = True, sv_stopping = False, sv_path = path, sv_handler = handler\<rparr>, fx @ fx'))))"

definition server_stop :: "control_server \<Rightarrow> control_server \<times> sys_effect list" where
  "server_stop s =
     (if \<not> sv_running s then (s, [])
      else (\<lparr>sv_running = False, sv_stopping = True, sv_path = [], sv_handler = False\<rparr>,
            [CloseSocket] @ (if sv_path s \<noteq> [] then [Unlink (sv_path s)] else [])))"


section \<open>Clients\<close>

record client =
  cl_peer :: "u32 option"
  cl_packet :: string

definition handle_client ::
  "u32 \<Rightarrow> (string \<Rightarrow> u32 \<Rightarrow> 'w \<Rightarrow> string \<times> 'w) option \<Rightarrow> client \<Rightarrow> 'w \<Rightarrow> string \<times> 'w" where
  "handle_client euid handler c w =
     (case cl_peer c of
        None \<Rightarrow> (error_packet ''peer credentials rejected'', w)
      | Some uid \<Rightarrow>
          if uid \<noteq> euid then (error_packet ''peer credentials rejected'', w)
          else
            (let (response, w') =
                   (if cl_packet c = [] then (error_packet ''expected one non-empty JSON packet'', w)
                    else if kMaxPacket < length (cl_packet c) then (error_packet ''request exceeds 64 KiB'', w)
                    else (case handler of
                            Some h \<Rightarrow> h (cl_packet c) uid w
                          | None \<Rightarrow> (error_packet ''control handler unavailable'', w)))
             in (if kMaxPacket < length response then error_packet ''response exceeds 64 KiB'' else response, w')))"

text \<open>The accept loop: \<open>None\<close> is a failed accept, which is logged or retried; the loop ends when the server
  is told to stop.\<close>

fun server_run ::
  "u32 \<Rightarrow> (string \<Rightarrow> u32 \<Rightarrow> 'w \<Rightarrow> string \<times> 'w) option \<Rightarrow> client option list \<Rightarrow> 'w \<Rightarrow> string list \<times> 'w" where
  "server_run euid handler [] w = ([], w)"
| "server_run euid handler (None # cs) w = server_run euid handler cs w"
| "server_run euid handler (Some c # cs) w =
     (let (response, w') = handle_client euid handler c w; (rs, w'') = server_run euid handler cs w'
      in (response # rs, w''))"


section \<open>Lemmas\<close>

lemma escape_length: "length (escape s) \<le> 6 * length s"
proof (induction s)
  case (Cons c s)
  have "length (escape_char c) \<le> 6" by (simp add: escape_char_def)
  with Cons show ?case by (simp add: escape_def)
qed (simp add: escape_def)

lemma error_packet_short: "length message \<le> 100 \<Longrightarrow> length (error_packet message) \<le> kMaxPacket"
  using escape_length [of message] by (simp add: error_packet_def in_quotes_def kMaxPacket_def)

lemma error_packets_fit:
  "length (error_packet ''peer credentials rejected'') \<le> kMaxPacket"
  "length (error_packet ''expected one non-empty JSON packet'') \<le> kMaxPacket"
  "length (error_packet ''request exceeds 64 KiB'') \<le> kMaxPacket"
  "length (error_packet ''control handler unavailable'') \<le> kMaxPacket"
  "length (error_packet ''response exceeds 64 KiB'') \<le> kMaxPacket"
  by (simp_all add: error_packet_short)


section \<open>Properties\<close>

text \<open>A client is contained.  Every reply fits in a packet; and the handler runs only for a peer of the
  server's own user and a packet of 1 to 65536 bytes, once, with that packet and that user id.  Every
  other client is answered with an error and changes nothing.\<close>

theorem handle_client_contained:
  "case handle_client euid handler c w of
     (response, w') \<Rightarrow>
       length response \<le> kMaxPacket \<and>
       (if cl_peer c = Some euid \<and> cl_packet c \<noteq> [] \<and> length (cl_packet c) \<le> kMaxPacket \<and> handler \<noteq> None
        then w' = snd (the handler (cl_packet c) euid w) \<and>
             (if length (fst (the handler (cl_packet c) euid w)) \<le> kMaxPacket
              then response = fst (the handler (cl_packet c) euid w)
              else response = error_packet ''response exceeds 64 KiB'')
        else w' = w \<and>
             response \<in> set (map error_packet [''peer credentials rejected'', ''expected one non-empty JSON packet'',
               ''request exceeds 64 KiB'', ''control handler unavailable'']))"
proof (cases "cl_peer c = Some euid")
  case False
  then show ?thesis by (cases "cl_peer c") (simp_all add: handle_client_def error_packets_fit)
next
  case True
  then show ?thesis
    by (cases handler) (simp_all add: handle_client_def case_prod_unfold not_less Let_def error_packets_fit
        error_packets_fit [THEN leD])
qed

text \<open>A failed start leaves no socket behind.\<close>

lemma server_start_failure:
  assumes "server_start sw path handler s = (Inl e, s', fx)"
  shows "s' = s" "OpenSocket \<in> set fx \<Longrightarrow> CloseSocket \<in> set fx" "Bind path \<in> set fx \<Longrightarrow> last fx = Unlink path"
  using assms
  by (auto simp: server_start_def safe_remove_stale_def open_socket_def
      split: if_split_asm sum.split_asm lstat_result.split_asm prod.split_asm)

end
