(* ===== verification/Palmod_Sample.thy ===== *)
theory Palmod_Sample
  imports Palmod_Runtime Palmod_Json_Correct
begin

text \<open>
  A concrete environment in which the runtime starts: the profile of the native tests, printed and
  sealed, an executable that matches it, its four anchor bytes in memory, an empty plug-in directory
  and a hook backend that installs.  The theorems about a start that succeeds are applied to it.
\<close>

section \<open>The environment\<close>

definition sample_digest :: string where "sample_digest = ''0123abcd0123abcd0123abcd0123abcd0123abcd0123abcd0123abcd0123abcd''"

definition sample_elf :: json where
  "sample_elf = JObject [(''bits'', JInt 64), (''build_id'', JString ''00ff''), (''elf_type'', JString ''ET_EXEC''),
     (''endian'', JString ''little''), (''file_size'', JInt 4096), (''image_base'', JInt 4194304),
     (''machine'', JString ''x86_64''), (''sha256'', JString sample_digest)]"

definition sample_document :: json where
  "sample_document = JObject
     [(''anchors'', JObject [(''test'', JObject [(''expected_bytes'', JString ''7f 45 4c 46''), (''rva'', JInt 0),
        (''validators'', JArray [JString ''fixture''])])]),
      (''elf'', sample_elf), (''profile_id'', JString ''test-profile''), (''schema'', JInt 1),
      (''status'', JString ''validated''), (''steam_build_id'', JString ''test'')]"

definition sample_profile :: build_profile where
  "sample_profile = profile_new\<lparr>bp_schema := 1, bp_status := ''validated'', bp_profile_id := ''test-profile'',
     bp_steam_build_id := ''test'', bp_sha256 := sample_digest, bp_elf_build_id := ''00ff'', bp_elf_type := ''ET_EXEC'',
     bp_image_base := 0x400000, bp_executable_size := 4096,
     bp_hooks := [(''test'', \<lparr>hp_name = ''test'', hp_rva = 0, hp_expected_bytes = ''7f 45 4c 46''\<rparr>)]\<rparr>"

definition sample_fingerprint :: build_fingerprint where
  "sample_fingerprint = \<lparr>fp_executable = ''/srv/palserver'', fp_sha256 = sample_digest, fp_elf_build_id = ''00ff'', fp_size = 4096\<rparr>"

definition sample_config :: runtime_config where
  "sample_config = config_new\<lparr>cfg_profile_fd := 3, cfg_sha256 := sha256_text (stringify sample_document),
     cfg_plugin_directory := ''/plugins'', cfg_enable_control := False\<rparr>"

definition sample_environment :: environment where
  "sample_environment =
     \<lparr>env_profile_path = False,
      env_fd = \<lparr>fd_flags = Inr 0, fd_seals = 15, fd_regular_size = Some (int (length (stringify sample_document))),
        fd_dup = Inr (), fd_preads = [ReadBytes (stringify sample_document)]\<rparr>,
      env_fingerprint = Inr sample_fingerprint,
      env_mem = [0x400000 \<mapsto> 0x7f, 0x400001 \<mapsto> 0x45, 0x400002 \<mapsto> 0x4c, 0x400003 \<mapsto> 0x46],
      env_fs = \<lparr>fs_size = (\<lambda>_. Inl []), fs_read = (\<lambda>_. None), fs_regular = (\<lambda>_. False),
        fs_directory = (\<lambda>p. p = ''/plugins''), fs_entries = (\<lambda>_. [])\<rparr>,
      env_scripts = (\<lambda>_. undefined), env_control = (\<lambda>_. Inl []), env_hooks = (\<lambda>_. Inr ()),
      env_generic_hook = (\<lambda>_. Inl []), env_backend = ''none''\<rparr>"


lemmas sample_defs = sample_document_def sample_elf_def sample_digest_def


section \<open>It starts\<close>

lemma sample_parses: "parse (stringify sample_document) = Inr sample_document"
  by (rule parse_printed) (simp_all add: sample_document_def sample_elf_def int64_range_def smap_inv_def)

lemma sample_json: "parse_json (stringify sample_document) = Inr sample_profile"
  by (simp add: parse_json_def sample_parses)
   (simp add: sample_document_def sample_elf_def profile_of_object_def is_int_def json_get_def get_object_def
    require3_def require_string_def profile_elf_def require_exact_string_def has_key_def get_unsigned_def
    profile_anchor_def profile_reflection_def sample_profile_def sample_digest_def lower_def cctype_defs smap_emplace_def)

lemma sample_length: "0 < length (stringify sample_document) \<and> length (stringify sample_document) < 1000"
  by (simp add: sample_document_def sample_elf_def sample_digest_def quoted_def escape_def escape_char_def show_int_def
      show_nat.simps)

lemma tolower_hex_digit: "n < 16 \<Longrightarrow> tolower (''0123456789abcdef'' ! n) = ''0123456789abcdef'' ! n"
  by (simp add: numeral_eq_Suc less_Suc_eq) (elim disjE; simp add: cctype_defs)

lemma nibble_bounds: "unat (drop_bit 4 (b :: u8)) < 16" "unat (b AND 15) < 16"
proof -
  have "unat b < 256" using unsigned_less [of b] by simp
  then show "unat (drop_bit 4 b) < 16"
    by (simp add: unat_drop_bit_eq less_mult_imp_div_less drop_bit_eq_div [of 4 "unat b"])
  have "b AND 15 = take_bit 4 b" by (simp add: take_bit_eq_mask mask_eq_exp_minus_1)
  then have "unat (b AND 15) = take_bit 4 (unat b)" by (simp add: unsigned_take_bit_eq)
  then show "unat (b AND 15) < 16" by (simp add: take_bit_eq_mod)
qed

lemma lower_hex: "lower (hex bs) = hex bs"
  by (induction bs) (simp_all add: hex_def lower_def hex_byte_def tolower_hex_digit nibble_bounds)

lemma length_sha256_text: "length (sha256_text text) = 64"
  by (simp add: sha256_text_def sha256_finish_def Let_def)

lemma sample_sealed:
  "read_sealed_profile (cfg_profile_fd sample_config) (env_fd sample_environment) = Some (Inr (stringify sample_document))"
  using sample_length
  by (simp add: read_sealed_profile_def sample_config_def sample_environment_def fully_sealed_def kMaxProfileBytes_def
      pread_loop.simps)

lemma sample_anchors: "verify_anchors (env_mem sample_environment) sample_profile = Inr ()"
  by (simp add: verify_anchors_def sample_profile_def sample_environment_def parse_expected_bytes_def pattern_loop.simps
      pattern_element_def hex_digit_def hex_value_def byte_matches_def cctype_defs word_less_nat_alt)

lemma sample_gate: "gate sample_environment sample_config (stringify sample_document) = Inr (sample_profile, sample_fingerprint)"
  using sample_anchors sample_json
  by (simp add: gate_Inr lower_hex sha256_text_def sample_config_def exactly_matches_iff)
    (simp add: sample_profile_def sample_fingerprint_def sample_environment_def sample_digest_def lower_def cctype_defs)

lemma sample_starts: "starts sample_environment sample_config runtime_new sample_profile sample_fingerprint (stringify sample_document)"
  using sample_sealed sample_gate
  apply (simp add: starts_def)
  apply (simp add: sample_environment_def sample_config_def runtime_new_def is_absolute_def config_new_def length_sha256_text
      load_directory_report_def manifest_paths_def report_ok_def)
  done

end
