(* ===== verification/Palmod_Start_Stop.thy ===== *)
theory Palmod_Start_Stop
  imports Palmod_Sample
begin

text \<open>
  \<^verbatim>\<open>Runtime::start\<close> and \<^verbatim>\<open>Runtime::stop\<close> at the grain at which they interleave
  (\<^verbatim>\<open>native/src/runtime.cpp\<close>).  Start runs on the bootstrap thread, stop may be called by another
  thread (the destructor of the process-wide runtime, for one), and a third thread watches the plug-in
  directory.  Nothing but the atomic \<^verbatim>\<open>state_\<close> orders them.

  Each thread is a program counter and a function that makes its next step; a step is one call of the
  source that takes a lock or changes the shared state.  Run alone, the steps compose to the
  functions \<open>start\<close> and \<open>stop\<close> of the sequential model.
\<close>

section \<open>Threads\<close>

text \<open>The watching thread with the newest time it has seen.\<close>

datatype watch_thread = NoThread | Spawned | AtWait int | Scanning int | Exited

record shared =
  sh_rt :: runtime
  sh_watch_stop :: bool
  sh_watch :: watch_thread

definition shared_new :: shared where
  "shared_new = \<lparr>sh_rt = runtime_new, sh_watch_stop = False, sh_watch = NoThread\<rparr>"

definition on_rt :: "(runtime \<Rightarrow> runtime) \<Rightarrow> shared \<Rightarrow> shared" where
  "on_rt f s = s\<lparr>sh_rt := f (sh_rt s)\<rparr>"

lemma on_rt_simps [simp]:
  "sh_rt (on_rt f s) = f (sh_rt s)" "sh_watch_stop (on_rt f s) = sh_watch_stop s" "sh_watch (on_rt f s) = sh_watch s"
  by (simp_all add: on_rt_def)

datatype start_pc =
    StartEntry | StartChecks | StartControl build_profile | StartPlugins build_profile | StartHooks build_profile
  | StartGeneric | StartPublish | StartWatch
  | StartUndo string | StartError runtime_state string | StartStore runtime_state string | StartEnd bool string

text \<open>Everything a start reads before it shares anything: \<open>None\<close> when the profile never ends.\<close>

definition start_checks ::
  "environment \<Rightarrow> runtime_config \<Rightarrow> ((runtime_state \<times> string) + (build_profile \<times> build_fingerprint)) option" where
  "start_checks env config =
     (if env_profile_path env
      then Some (Inl (Failed, ''PALMOD_PROFILE path bypass is forbidden; use a sealed PALMOD_PROFILE_FD''))
      else if \<not> is_absolute (cfg_plugin_directory config) \<or>
              (cfg_enable_control config \<and> \<not> is_absolute (cfg_control_socket config))
      then Some (Inl (Failed, ''plugin directory and control socket must be absolute paths''))
      else if length (cfg_sha256 config) \<noteq> 64
      then Some (Inl (Failed, ''PALMOD_PROFILE_SHA256 must be a 64-character digest''))
      else (case read_sealed_profile (cfg_profile_fd config) (env_fd env) of
              None \<Rightarrow> None
            | Some (Inl e) \<Rightarrow> Some (Inl (Failed, e))
            | Some (Inr text) \<Rightarrow> Some (gate env config text)))"

fun start_step :: "environment \<Rightarrow> runtime_config \<Rightarrow> start_pc \<Rightarrow> shared \<Rightarrow> (start_pc \<times> shared) option" where
  "start_step env config StartEntry s =
     (if rt_state (sh_rt s) \<noteq> Cold then Some (StartEnd False ''runtime can only be started once'', s)
      else Some (StartChecks, on_rt (rt_state_update (\<lambda>_. Starting)) s))"
| "start_step env config StartChecks s =
     (case start_checks env config of
        None \<Rightarrow> None
      | Some (Inl (st, e)) \<Rightarrow> Some (StartError st e, s)
      | Some (Inr (profile, fingerprint)) \<Rightarrow>
          Some (StartControl profile,
            on_rt (\<lambda>rt. rt\<lparr>rt_fingerprint := Some fingerprint, rt_profile := Some profile\<rparr>) s))"
| "start_step env config (StartControl profile) s =
     (case (if cfg_enable_control config then env_control env (cfg_control_socket config) else Inr ()) of
        Inl e \<Rightarrow> Some (StartError Failed e, s)
      | Inr _ \<Rightarrow> Some (StartPlugins profile, on_rt (rt_control_update (\<lambda>_. cfg_enable_control config)) s))"
| "start_step env config (StartPlugins profile) s =
     (case reload_plugins env ((sh_rt s)\<lparr>rt_plugin_directory := cfg_plugin_directory config\<rparr>) of
        (Inl e, rt) \<Rightarrow> Some (StartError Failed (''plugin transaction failed: '' @ e), s\<lparr>sh_rt := rt\<rparr>)
      | (Inr _, rt) \<Rightarrow> Some (StartHooks profile, s\<lparr>sh_rt := rt\<rparr>))"
| "start_step env config (StartHooks profile) s =
     (case env_hooks env profile of
        Inl e \<Rightarrow> Some (StartUndo (''hook backend '' @ tick (env_backend env) @ '' failed: '' @ e), s)
      | Inr _ \<Rightarrow> Some (StartGeneric, on_rt (rt_hooked_update (\<lambda>_. True)) s))"
| "start_step env config StartGeneric s = Some (StartPublish, on_rt (install_generic_hooks env) s)"
| "start_step env config StartPublish s = Some (StartWatch, on_rt (rt_state_update (\<lambda>_. Running)) s)"
| "start_step env config StartWatch s =
     Some (StartEnd True [], (on_rt (rt_watching_update (\<lambda>_. True)) s)\<lparr>sh_watch := Spawned\<rparr>)"
| "start_step env config (StartUndo e) s =
     Some (StartError Failed e, on_rt (\<lambda>rt. rt\<lparr>rt_plugins := snd (plugins_stop (rt_plugins rt))\<rparr>) s)"
| "start_step env config (StartError st e) s = Some (StartStore st e, on_rt (rt_error_update (\<lambda>_. e)) s)"
| "start_step env config (StartStore st e) s = Some (StartEnd False e, on_rt (rt_state_update (\<lambda>_. st)) s)"
| "start_step env config (StartEnd ok e) s = None"

datatype stop_pc = StopEntry | StopFlag | StopJoin | StopHooks | StopPlugins | StopControl | StopEnd

text \<open>Joining waits until the watching thread has ended; there is nothing to wait for without a thread.\<close>

fun stop_step :: "stop_pc \<Rightarrow> shared \<Rightarrow> (stop_pc \<times> shared) option" where
  "stop_step StopEntry s =
     Some (if rt_state (sh_rt s) = Cold \<or> rt_state (sh_rt s) = Stopped then StopEnd else StopFlag,
       on_rt (rt_state_update (\<lambda>_. Stopped)) s)"
| "stop_step StopFlag s = Some (StopJoin, s\<lparr>sh_watch_stop := True\<rparr>)"
| "stop_step StopJoin s =
     (case sh_watch s of
        NoThread \<Rightarrow> Some (StopHooks, s)
      | Exited \<Rightarrow> Some (StopHooks, (on_rt (rt_watching_update (\<lambda>_. False)) s)\<lparr>sh_watch := NoThread\<rparr>)
      | _ \<Rightarrow> None)"
| "stop_step StopHooks s = Some (StopPlugins, on_rt (\<lambda>rt. rt\<lparr>rt_hooked := False, rt_generic_hooks := {}\<rparr>) s)"
| "stop_step StopPlugins s =
     Some (StopControl, on_rt (\<lambda>rt. rt\<lparr>rt_plugins := snd (plugins_stop (rt_plugins rt))\<rparr>) s)"
| "stop_step StopControl s = Some (StopEnd, on_rt (rt_control_update (\<lambda>_. False)) s)"
| "stop_step StopEnd s = None"

text \<open>The watching thread: it scans once, then waits, tests the flag and scans again.\<close>

definition watch_step :: "environment \<Rightarrow> (bool \<times> int option) list \<Rightarrow> shared \<Rightarrow> shared option" where
  "watch_step env entries s =
     (case sh_watch s of
        NoThread \<Rightarrow> None
      | Spawned \<Rightarrow> Some (s\<lparr>sh_watch := AtWait (newest_mtime entries)\<rparr>)
      | AtWait seen \<Rightarrow> Some (s\<lparr>sh_watch := if sh_watch_stop s then Exited else Scanning seen\<rparr>)
      | Scanning seen \<Rightarrow>
          (case watch_round env entries (seen, sh_rt s) of
             (now, rt) \<Rightarrow> Some (s\<lparr>sh_rt := rt, sh_watch := AtWait now\<rparr>))
      | Exited \<Rightarrow> None)"

text \<open>The destructor of \<^verbatim>\<open>std::thread\<close> ends the process when the thread was never joined.  The
  destructor of the runtime stops it first; \<open>destroy_safe\<close> is whether the member is then joined.\<close>

definition destroy_safe :: "shared \<Rightarrow> bool" where
  "destroy_safe s \<longleftrightarrow> sh_watch s = NoThread \<or> \<not> (rt_state (sh_rt s) = Cold \<or> rt_state (sh_rt s) = Stopped)"


section \<open>One thread alone\<close>

text \<open>At most \<open>n\<close> steps of a start.\<close>

fun start_alone :: "nat \<Rightarrow> environment \<Rightarrow> runtime_config \<Rightarrow> start_pc \<times> shared \<Rightarrow> (start_pc \<times> shared) option" where
  "start_alone 0 env config (pc, s) = Some (pc, s)"
| "start_alone (Suc n) env config (pc, s) =
     (case pc of
        StartEnd ok e \<Rightarrow> Some (pc, s)
      | _ \<Rightarrow> (case start_step env config pc s of None \<Rightarrow> None | Some c \<Rightarrow> start_alone n env config c))"

text \<open>A stop, with the watching thread scheduled while the stop waits for it.\<close>

fun stop_alone :: "nat \<Rightarrow> environment \<Rightarrow> stop_pc \<times> shared \<Rightarrow> stop_pc \<times> shared" where
  "stop_alone 0 env (pc, s) = (pc, s)"
| "stop_alone (Suc n) env (pc, s) =
     (case stop_step pc s of
        Some c \<Rightarrow> stop_alone n env c
      | None \<Rightarrow>
          (case (if pc = StopEnd then None else watch_step env [] s) of
             None \<Rightarrow> (pc, s)
           | Some s' \<Rightarrow> stop_alone n env (pc, s')))"

lemma start_checks_start:
  "start env config rt =
     (if rt_state rt \<noteq> Cold then Some (False, ''runtime can only be started once'', rt)
      else (case start_checks env config of
              None \<Rightarrow> None
            | Some (Inl (st, e)) \<Rightarrow> fail st e (rt\<lparr>rt_state := Starting\<rparr>)
            | Some (Inr (p, fp)) \<Rightarrow>
                bring_up env config p (rt\<lparr>rt_state := Starting, rt_fingerprint := Some fp, rt_profile := Some p\<rparr>)))"
  by (simp add: start_def start_checks_def Let_def split: option.split sum.split prod.split)

lemma start_alone_end [simp]: "start_alone n env config (StartEnd ok e, s) = Some (StartEnd ok e, s)"
  by (cases n) simp_all


lemma start_alone_ends:
  "start_alone n env config (StartError st e, s) =
     (if n = 0 then Some (StartError st e, s)
      else if n = 1 then Some (StartStore st e, on_rt (rt_error_update (\<lambda>_. e)) s)
      else Some (StartEnd False e, on_rt (\<lambda>rt. rt\<lparr>rt_error := e, rt_state := st\<rparr>) s))"
  by (cases n; cases "n - 1"; auto simp: on_rt_def)

text \<open>The steps of a start, taken without interruption, are the function of the sequential model.\<close>

lemma start_alone_start:
  "start_alone 12 env config (StartEntry, s) =
     (case start env config (sh_rt s) of
        None \<Rightarrow> None
      | Some (ok, e, rt) \<Rightarrow>
          Some (StartEnd ok e, s\<lparr>sh_rt := rt, sh_watch := if ok then Spawned else sh_watch s\<rparr>))"
proof (cases "rt_state (sh_rt s) = Cold")
  case cold: True
  show ?thesis
  proof (cases "start_checks env config")
    case None
    with cold show ?thesis by (simp add: eval_nat_numeral start_checks_start)
  next
    case (Some r)
    show ?thesis
    proof (cases r)
      case (Inl failure)
      with cold Some show ?thesis
        by (cases failure) (simp add: eval_nat_numeral start_checks_start fail_def on_rt_def)
    next
      case (Inr facts)
      obtain p fp where "facts = (p, fp)" by (cases facts)
      with cold Some Inr show ?thesis
        by (simp add: eval_nat_numeral start_checks_start bring_up_def fail_def on_rt_def Let_def start_alone_ends
            split: sum.split prod.split)
    qed
  qed
qed (simp add: eval_nat_numeral start_checks_start)

lemma stop_alone_stop:
  assumes "rt_watching (sh_rt s) \<longleftrightarrow> sh_watch s \<noteq> NoThread" "\<nexists>seen. sh_watch s = Scanning seen"
  shows "\<exists>s'. stop_alone 12 env (StopEntry, s) = (StopEnd, s') \<and> sh_rt s' = stop (sh_rt s) \<and>
    (if rt_state (sh_rt s) = Cold \<or> rt_state (sh_rt s) = Stopped then sh_watch s' = sh_watch s else sh_watch s' = NoThread)"
  using assms
  by (cases "sh_watch s") (auto simp: eval_nat_numeral watch_step_def on_rt_def stop_def)


section \<open>The threads together\<close>

text \<open>
  The state of all threads.  \<open>lf_apart\<close> is history: the stop took the state while no start was under
  way.  The entry points of the other threads (hooks, control socket) are steps too.
\<close>

record life =
  lf_start :: start_pc
  lf_stop :: stop_pc
  lf_shared :: shared
  lf_apart :: bool

definition life_new :: life where
  "life_new = \<lparr>lf_start = StartEntry, lf_stop = StopEntry, lf_shared = shared_new, lf_apart = False\<rparr>"

fun between_starts :: "start_pc \<Rightarrow> bool" where
  "between_starts StartEntry = True"
| "between_starts (StartEnd ok e) = True"
| "between_starts _ = False"

datatype life_label = Starter | Stopper | Watcher | Caller

inductive life_step :: "life \<Rightarrow> life_label \<Rightarrow> life \<Rightarrow> bool" where
  starter: "start_step env config (lf_start l) (lf_shared l) = Some (pc, s) \<Longrightarrow>
    life_step l Starter (l\<lparr>lf_start := pc, lf_shared := s\<rparr>)"
| stopper: "stop_step (lf_stop l) (lf_shared l) = Some (pc, s) \<Longrightarrow>
    life_step l Stopper (l\<lparr>lf_stop := pc, lf_shared := s,
      lf_apart := if lf_stop l = StopEntry then between_starts (lf_start l) else lf_apart l\<rparr>)"
| watcher: "watch_step env entries (lf_shared l) = Some s \<Longrightarrow> life_step l Watcher (l\<lparr>lf_shared := s\<rparr>)"
| line: "on_chat contents player h auth (sh_rt (lf_shared l)) = (suppress, rt) \<Longrightarrow>
    life_step l Caller (l\<lparr>lf_shared := (lf_shared l)\<lparr>sh_rt := rt\<rparr>\<rparr>)"
| event: "on_event ev (sh_rt (lf_shared l)) = (n, rt) \<Longrightarrow>
    life_step l Caller (l\<lparr>lf_shared := (lf_shared l)\<lparr>sh_rt := rt\<rparr>\<rparr>)"
| request: "control_request env packet uid (sh_rt (lf_shared l)) = (reply, rt) \<Longrightarrow>
    life_step l Caller (l\<lparr>lf_shared := (lf_shared l)\<lparr>sh_rt := rt\<rparr>\<rparr>)"

inductive life_steps :: "life \<Rightarrow> life_label list \<Rightarrow> life \<Rightarrow> bool" where
  ls_refl: "life_steps l [] l"
| ls_snoc: "life_steps l ls l' \<Longrightarrow> life_step l' a l'' \<Longrightarrow> life_steps l (ls @ [a]) l''"

text \<open>The start is past its gate.\<close>

fun gated :: "start_pc \<Rightarrow> bool" where
  "gated (StartControl p) = True"
| "gated (StartPlugins p) = True"
| "gated (StartHooks p) = True"
| "gated StartGeneric = True"
| "gated StartPublish = True"
| "gated StartWatch = True"
| "gated (StartUndo e) = True"
| "gated (StartEnd ok e) = ok"
| "gated _ = False"

fun hooked_pc :: "start_pc \<Rightarrow> bool" where
  "hooked_pc StartGeneric = True"
| "hooked_pc StartPublish = True"
| "hooked_pc StartWatch = True"
| "hooked_pc (StartEnd ok e) = ok"
| "hooked_pc _ = False"

definition profile_known :: "runtime \<Rightarrow> bool" where
  "profile_known rt \<longleftrightarrow> (\<exists>p fp. rt_profile rt = Some p \<and> rt_fingerprint rt = Some fp \<and> profile_wf p \<and>
     exactly_matches p fp = Inr ())"

text \<open>A failure leaves one of the two failure states.\<close>

fun failure_ok :: "start_pc \<Rightarrow> bool" where
  "failure_ok (StartError st e) \<longleftrightarrow> st = Failed \<or> st = UnsupportedBuild"
| "failure_ok (StartStore st e) \<longleftrightarrow> st = Failed \<or> st = UnsupportedBuild"
| "failure_ok _ \<longleftrightarrow> True"

definition threads_ok :: "life \<Rightarrow> bool" where
  "threads_ok l \<longleftrightarrow>
     (let rt = sh_rt (lf_shared l) in
      (gated (lf_start l) \<longrightarrow> profile_known rt) \<and>
      (rt_hooked rt \<or> rt_generic_hooks rt \<noteq> {} \<longrightarrow> hooked_pc (lf_start l)) \<and>
      (sh_watch (lf_shared l) \<noteq> NoThread \<longrightarrow> (\<exists>e. lf_start l = StartEnd True e)) \<and>
      (rt_watching rt \<longleftrightarrow> sh_watch (lf_shared l) \<noteq> NoThread) \<and>
      (sh_watch (lf_shared l) = Exited \<longrightarrow> sh_watch_stop (lf_shared l)) \<and>
      (rt_state rt = Starting \<longrightarrow> \<not> between_starts (lf_start l) \<and> lf_start l \<noteq> StartWatch) \<and>
      (rt_state rt = Running \<longrightarrow> lf_start l = StartWatch \<or> (\<exists>e. lf_start l = StartEnd True e)) \<and>
      (lf_start l = StartEntry \<longrightarrow> rt_state rt = Cold \<or> rt_state rt = Stopped) \<and>
      (rt_state rt = Cold \<longrightarrow> lf_start l = StartEntry) \<and> (rt_state rt = Stopped \<longrightarrow> lf_stop l \<noteq> StopEntry) \<and>
      (lf_start l = StartEntry \<longrightarrow> rt_plugins rt = [] \<and> \<not> rt_control rt) \<and>
      failure_ok (lf_start l) \<and> runtime_sets_ok rt)"

text \<open>What a stop that runs apart from the start has achieved so far.\<close>

fun stop_reached :: "stop_pc \<Rightarrow> nat" where
  "stop_reached StopEntry = 0"
| "stop_reached StopFlag = 1"
| "stop_reached StopJoin = 2"
| "stop_reached StopHooks = 3"
| "stop_reached StopPlugins = 4"
| "stop_reached StopControl = 5"
| "stop_reached StopEnd = 6"

definition stop_ok :: "life \<Rightarrow> bool" where
  "stop_ok l \<longleftrightarrow>
     (let rt = sh_rt (lf_shared l); n = stop_reached (lf_stop l) in
      (2 \<le> n \<and> n < 6 \<longrightarrow> sh_watch_stop (lf_shared l)) \<and>
      (lf_apart l \<longrightarrow>
        0 < n \<and> rt_state rt = Stopped \<and> between_starts (lf_start l) \<and>
        (3 \<le> n \<longrightarrow> sh_watch (lf_shared l) = NoThread) \<and>
        (4 \<le> n \<longrightarrow> \<not> rt_hooked rt \<and> rt_generic_hooks rt = {}) \<and>
        (5 \<le> n \<longrightarrow> rt_plugins rt = []) \<and>
        (6 \<le> n \<longrightarrow> \<not> rt_control rt)))"


lemma start_checks_Inl: "start_checks env config = Some (Inl (st, e)) \<Longrightarrow> st = Failed \<or> st = UnsupportedBuild"
  by (auto simp: start_checks_def split: if_split_asm option.split_asm sum.split_asm dest: gate_Inl_state)

lemma start_checks_Inr: "start_checks env config = Some (Inr (p, fp)) \<Longrightarrow> profile_wf p \<and> exactly_matches p fp = Inr ()"
  by (auto simp: start_checks_def gate_Inr split: if_split_asm option.split_asm sum.split_asm intro: parse_json_wf)

lemma not_running_callers:
  assumes "rt_state rt \<noteq> Running"
  shows "on_chat contents player h auth rt = (suppress, rt') \<Longrightarrow> rt' = rt"
    "on_event ev rt = (n, rt') \<Longrightarrow> rt' = rt"
    "control_request env packet uid rt = (reply, rt') \<Longrightarrow> rt' = rt"
  using assms by (auto simp: on_chat_def on_event_def elim: control_request_cases)

definition caller_effect :: "runtime \<Rightarrow> runtime \<Rightarrow> bool" where
  "caller_effect rt rt' \<longleftrightarrow>
     rt' = rt \<or> (rt_state rt = Running \<and> same_core rt rt' \<and> (runtime_sets_ok rt \<longrightarrow> runtime_sets_ok rt'))"

lemma on_chat_effect: "on_chat contents player h auth rt = (suppress, rt') \<Longrightarrow> caller_effect rt rt'"
  by (auto simp: on_chat_def caller_effect_def same_core_def runtime_sets_ok_def split: if_split_asm prod.split_asm
      dest: players.route_keeps)

lemma on_event_effect: "on_event ev rt = (n, rt') \<Longrightarrow> caller_effect rt rt'"
  by (auto simp: on_event_def caller_effect_def same_core_def runtime_sets_ok_def deliver_event_alt smap_inv_def comp_def
      case_prod_unfold split: if_split_asm)

lemma control_request_effect:
  assumes "control_request env packet uid rt = (reply, rt')"
  shows "caller_effect rt rt'"
  using assms
proof (cases rule: control_request_cases)
  case (2 res)
  then show ?thesis by (auto simp: caller_effect_def intro: reload_core reload_sets)
next
  case (3 routed_line routed plugins)
  then show ?thesis
    by (auto simp: caller_effect_def same_core_def runtime_sets_ok_def intro: operator.route_keeps [OF 3(2)])
qed (simp add: caller_effect_def)

lemma watch_round_effect:
  assumes "watch_round env entries (seen, rt) = (now, rt')"
  shows "same_core rt rt' \<and> rt_control rt' = rt_control rt \<and> (runtime_sets_ok rt \<longrightarrow> runtime_sets_ok rt')"
proof (cases "newest_mtime entries \<le> seen")
  case False
  obtain res rt2 where reload: "reload_plugins env rt = (res, rt2)" by fastforce
  with False assms have "rt' = rt2" by (simp add: watch_round_def Let_def)
  moreover have "rt_control rt2 = rt_control rt" using reload by (auto elim: reload_cases)
  ultimately show ?thesis using reload reload_core reload_sets by blast
qed (use assms in \<open>auto simp: watch_round_def Let_def same_core_def\<close>)

lemma threads_ok_new: "threads_ok life_new \<and> stop_ok life_new"
  by (simp add: threads_ok_def stop_ok_def life_new_def shared_new_def runtime_new_def runtime_sets_ok_def Let_def
      router_inv_def)

lemmas keep_defs = threads_ok_def stop_ok_def Let_def

lemma caller_keeps:
  assumes "caller_effect (sh_rt (lf_shared l)) rt" "threads_ok l" "stop_ok l"
    "l' = l\<lparr>lf_shared := (lf_shared l)\<lparr>sh_rt := rt\<rparr>\<rparr>"
  shows "threads_ok l' \<and> stop_ok l'"
proof (cases "rt = sh_rt (lf_shared l)")
  case False
  with assms(1) have "rt_state (sh_rt (lf_shared l)) = Running" "same_core (sh_rt (lf_shared l)) rt"
    "runtime_sets_ok (sh_rt (lf_shared l)) \<longrightarrow> runtime_sets_ok rt"
    by (simp_all add: caller_effect_def)
  with assms(2-4) show ?thesis
    by (clarsimp simp: keep_defs profile_known_def same_core_def)
qed (use assms in simp)

lemma watcher_keeps:
  assumes "watch_step env entries (lf_shared l) = Some s" "threads_ok l" "stop_ok l"
  shows "threads_ok (l\<lparr>lf_shared := s\<rparr>) \<and> stop_ok (l\<lparr>lf_shared := s\<rparr>)"
proof (cases "sh_watch (lf_shared l)")
  case (Scanning seen)
  obtain now rt where round: "watch_round env entries (seen, sh_rt (lf_shared l)) = (now, rt)" by fastforce
  with Scanning assms watch_round_effect [OF round] show ?thesis
    by (clarsimp simp: watch_step_def keep_defs profile_known_def same_core_def)
qed (use assms in \<open>clarsimp simp: watch_step_def keep_defs\<close>)+


lemma stopper_keeps:
  assumes "stop_step (lf_stop l) (lf_shared l) = Some (pc, s)" "threads_ok l" "stop_ok l"
    "l' = l\<lparr>lf_stop := pc, lf_shared := s,
       lf_apart := if lf_stop l = StopEntry then between_starts (lf_start l) else lf_apart l\<rparr>"
  shows "threads_ok l' \<and> stop_ok l'"
proof (cases "lf_stop l")
  case StopEntry
  show ?thesis
  proof (cases "rt_state (sh_rt (lf_shared l)) = Cold \<or> rt_state (sh_rt (lf_shared l)) = Stopped")
    case True
    with StopEntry assms show ?thesis
      by (clarsimp simp: keep_defs profile_known_def runtime_sets_ok_def)
  next
    case False
    with StopEntry assms show ?thesis
      by (clarsimp simp: keep_defs profile_known_def runtime_sets_ok_def)
  qed
next
  case StopJoin
  with assms show ?thesis
    by (cases "sh_watch (lf_shared l)") (clarsimp simp: keep_defs profile_known_def runtime_sets_ok_def)+
qed (use assms in \<open>clarsimp simp: keep_defs profile_known_def runtime_sets_ok_def plugins_stop_def\<close>)+

lemma starter_keeps:
  assumes "start_step env config (lf_start l) (lf_shared l) = Some (pc, s)" "threads_ok l" "stop_ok l"
  shows "threads_ok (l\<lparr>lf_start := pc, lf_shared := s\<rparr>) \<and> stop_ok (l\<lparr>lf_start := pc, lf_shared := s\<rparr>)"
proof (cases "lf_start l")
  case StartEntry
  with assms show ?thesis
    by (cases "rt_state (sh_rt (lf_shared l)) = Cold") (clarsimp simp: keep_defs runtime_sets_ok_def)+
next
  case StartChecks
  then obtain r where checks: "start_checks env config = Some r"
    using assms(1) by (cases "start_checks env config") simp_all
  show ?thesis
  proof (cases r)
    case (Inl failure)
    with StartChecks assms checks show ?thesis
      by (cases failure) (clarsimp simp: keep_defs runtime_sets_ok_def dest!: start_checks_Inl)
  next
    case (Inr facts)
    with StartChecks assms checks show ?thesis
      by (cases facts) (clarsimp simp: keep_defs runtime_sets_ok_def profile_known_def dest!: start_checks_Inr)
  qed
next
  case (StartControl p)
  with assms show ?thesis
    by (cases "if cfg_enable_control config then env_control env (cfg_control_socket config) else Inr ()")
      (clarsimp simp: keep_defs runtime_sets_ok_def profile_known_def)+
next
  case (StartPlugins p)
  obtain res rt where reload: "reload_plugins env ((sh_rt (lf_shared l))\<lparr>rt_plugin_directory := cfg_plugin_directory config\<rparr>) = (res, rt)"
    by fastforce
  have "same_core (sh_rt (lf_shared l)) rt" "runtime_sets_ok (sh_rt (lf_shared l)) \<longrightarrow> runtime_sets_ok rt"
    using reload_core [OF reload] reload_sets [OF reload] by (simp_all add: same_core_def runtime_sets_ok_def)
  moreover have "rt_watching rt = rt_watching (sh_rt (lf_shared l))"
    using reload_core [OF reload] by (simp add: same_core_def)
  ultimately show ?thesis using StartPlugins assms reload
    by (cases res) (clarsimp simp: keep_defs profile_known_def same_core_def)+
next
  case (StartHooks p)
  with assms show ?thesis
    by (cases "env_hooks env p") (clarsimp simp: keep_defs runtime_sets_ok_def profile_known_def)+
next
  case (StartStore st e)
  with assms show ?thesis by (cases st) (clarsimp simp: keep_defs runtime_sets_ok_def)+
next
  case StartGeneric
  with assms show ?thesis
    by (clarsimp simp: keep_defs runtime_sets_ok_def profile_known_def install_generic_hooks_def)
next
  case StartPublish
  with assms show ?thesis by (clarsimp simp: keep_defs runtime_sets_ok_def profile_known_def)
next
  case StartWatch
  with assms show ?thesis by (clarsimp simp: keep_defs runtime_sets_ok_def profile_known_def)
next
  case (StartUndo e)
  with assms show ?thesis by (clarsimp simp: keep_defs runtime_sets_ok_def plugins_stop_def)
next
  case (StartError st e)
  with assms show ?thesis by (clarsimp simp: keep_defs runtime_sets_ok_def)
qed (use assms in simp)


lemma life_step_keeps:
  "life_step l a l' \<Longrightarrow> threads_ok l \<Longrightarrow> stop_ok l \<Longrightarrow> threads_ok l' \<and> stop_ok l'"
proof (induction rule: life_step.induct)
  case (starter env config l pc s)
  then show ?case by (rule starter_keeps)
next
  case (stopper l pc s)
  from stopper_keeps [OF stopper refl] show ?case .
next
  case (watcher env entries l s)
  then show ?case by (rule watcher_keeps)
next
  case (line contents player h auth l suppress rt)
  from caller_keeps [OF on_chat_effect [OF line(1)] line(2,3) refl] show ?case .
next
  case (event ev l n rt)
  from caller_keeps [OF on_event_effect [OF event(1)] event(2,3) refl] show ?case .
next
  case (request env packet uid l reply rt)
  from caller_keeps [OF control_request_effect [OF request(1)] request(2,3) refl] show ?case .
qed

lemma life_steps_keep: "life_steps l ls l' \<Longrightarrow> threads_ok l \<Longrightarrow> stop_ok l \<Longrightarrow> threads_ok l' \<and> stop_ok l'"
proof (induction rule: life_steps.induct)
  case (ls_snoc l ls l' a l'')
  then show ?case using life_step_keeps [OF ls_snoc(2)] by simp
qed simp

text \<open>What is left to do: no step of another thread adds to it, and each step of the start, the stop or a
  watching thread that was told to stop takes from it.\<close>

fun start_left :: "start_pc \<Rightarrow> nat" where
  "start_left StartEntry = 11"
| "start_left StartChecks = 10"
| "start_left (StartControl p) = 9"
| "start_left (StartPlugins p) = 8"
| "start_left (StartHooks p) = 7"
| "start_left StartGeneric = 6"
| "start_left StartPublish = 5"
| "start_left StartWatch = 4"
| "start_left (StartUndo e) = 3"
| "start_left (StartError st e) = 2"
| "start_left (StartStore st e) = 1"
| "start_left (StartEnd ok e) = 0"

fun watch_left :: "watch_thread \<Rightarrow> nat" where
  "watch_left NoThread = 0"
| "watch_left Spawned = 2"
| "watch_left (AtWait seen) = 1"
| "watch_left (Scanning seen) = 2"
| "watch_left Exited = 0"

definition stop_left :: "stop_pc \<Rightarrow> nat" where
  "stop_left pc = 6 - stop_reached pc"

definition life_left :: "life \<Rightarrow> nat" where
  "life_left l = start_left (lf_start l) + stop_left (lf_stop l) + watch_left (sh_watch (lf_shared l))"

definition told_to_stop :: "life \<Rightarrow> bool" where
  "told_to_stop l \<longleftrightarrow> sh_watch_stop (lf_shared l)"

lemma start_step_flag:
  "start_step env config pc s = Some (pc', s') \<Longrightarrow> sh_watch_stop s' = sh_watch_stop s \<and>
     start_left pc' + watch_left (sh_watch s') < start_left pc + watch_left (sh_watch s)"
  by (cases pc) (auto split: if_split_asm option.split_asm sum.split_asm prod.split_asm)

lemma stop_step_flag:
  "stop_step pc s = Some (pc', s') \<Longrightarrow> (sh_watch_stop s \<longrightarrow> sh_watch_stop s') \<and> stop_left pc' < stop_left pc \<and>
     watch_left (sh_watch s') = watch_left (sh_watch s)"
  by (cases pc) (auto simp: stop_left_def split: if_split_asm watch_thread.split_asm)

lemma watch_step_flag:
  "watch_step env entries s = Some s' \<Longrightarrow> sh_watch_stop s' = sh_watch_stop s \<and>
     (sh_watch_stop s \<longrightarrow> watch_left (sh_watch s') < watch_left (sh_watch s))"
  by (cases "sh_watch s") (auto simp: watch_step_def split: prod.split_asm)

lemma told_step:
  "life_step l a l' \<Longrightarrow> told_to_stop l \<Longrightarrow>
     told_to_stop l' \<and> (if a = Caller then 0 else 1) + life_left l' \<le> life_left l"
proof (induction rule: life_step.induct)
  case (starter env config l pc s)
  then show ?case using start_step_flag [OF starter(1)] by (simp add: told_to_stop_def life_left_def)
next
  case (stopper l pc s)
  then show ?case using stop_step_flag [OF stopper(1)] by (simp add: told_to_stop_def life_left_def)
next
  case (watcher env entries l s)
  then show ?case using watch_step_flag [OF watcher(1)] by (simp add: told_to_stop_def life_left_def)
qed (simp_all add: told_to_stop_def life_left_def)

lemma told_steps:
  "life_steps l ls l' \<Longrightarrow> told_to_stop l \<Longrightarrow>
     told_to_stop l' \<and> length (filter (\<lambda>a. a \<noteq> Caller) ls) + life_left l' \<le> life_left l"
proof (induction rule: life_steps.induct)
  case (ls_snoc l ls l' a l'')
  then show ?case using told_step [OF ls_snoc(2)] by (auto split: if_split_asm)
qed simp

text \<open>The stop is never stuck: it has a step, or the watching thread it waits for has one.\<close>

lemma stop_enabled:
  assumes "lf_stop l \<noteq> StopEnd"
  shows "\<exists>a l'. a \<in> {Stopper, Watcher} \<and> life_step l a l'"
proof (cases "stop_step (lf_stop l) (lf_shared l)")
  case (Some c)
  then show ?thesis by (cases c) (blast intro: life_step.stopper)
next
  case None
  with assms have "\<exists>s. watch_step env [] (lf_shared l) = Some s" for env
    by (cases "lf_stop l") (auto simp: watch_step_def split: watch_thread.split_asm watch_thread.split prod.split)
  then show ?thesis by (blast intro: life_step.watcher)
qed


section \<open>Schedules\<close>

text \<open>The step of a given thread in a given environment, and a run along a list of threads.\<close>

definition next_life :: "environment \<Rightarrow> runtime_config \<Rightarrow> life_label \<Rightarrow> life \<Rightarrow> life option" where
  "next_life env config a l =
     (case a of
        Starter \<Rightarrow> map_option (\<lambda>(pc, s). l\<lparr>lf_start := pc, lf_shared := s\<rparr>) (start_step env config (lf_start l) (lf_shared l))
      | Stopper \<Rightarrow>
          map_option (\<lambda>(pc, s). l\<lparr>lf_stop := pc, lf_shared := s,
            lf_apart := if lf_stop l = StopEntry then between_starts (lf_start l) else lf_apart l\<rparr>)
            (stop_step (lf_stop l) (lf_shared l))
      | Watcher \<Rightarrow> map_option (\<lambda>s. l\<lparr>lf_shared := s\<rparr>) (watch_step env [] (lf_shared l))
      | Caller \<Rightarrow> None)"

fun play :: "environment \<Rightarrow> runtime_config \<Rightarrow> life_label list \<Rightarrow> life \<Rightarrow> life option" where
  "play env config [] l = Some l"
| "play env config (a # as) l = (case next_life env config a l of None \<Rightarrow> None | Some l' \<Rightarrow> play env config as l')"

lemma next_life_step: "next_life env config a l = Some l' \<Longrightarrow> life_step l a l'"
  by (cases a) (auto simp: next_life_def intro: life_step.starter life_step.stopper life_step.watcher)

lemma life_steps_trans: "life_steps l' ls' l2 \<Longrightarrow> life_steps l ls l' \<Longrightarrow> life_steps l (ls @ ls') l2"
proof (induction rule: life_steps.induct)
  case (ls_snoc l' ls' l1 a l2)
  then show ?case using life_steps.ls_snoc [of l "ls @ ls'" l1 a l2] by simp
qed simp

lemma play_steps: "play env config as l = Some l' \<Longrightarrow> life_steps l as l'"
proof (induction as arbitrary: l)
  case (Cons a as)
  then obtain l1 where l1: "next_life env config a l = Some l1" "play env config as l1 = Some l'"
    by (auto split: option.split_asm)
  have "life_steps l [a] l1"
    using life_steps.ls_snoc [OF ls_refl next_life_step [OF l1(1)]] by simp
  with Cons.IH [OF l1(2)] show ?case
    using life_steps_trans [of l1 as l' l "[a]"] by simp
qed (simp add: ls_refl)

lemma starts_steps:
  assumes "starts env config rt p fp contents"
  shows "start_checks env config = Some (Inr (p, fp))"
    "(if cfg_enable_control config then env_control env (cfg_control_socket config) else Inr ()) = Inr ()"
    "env_hooks env p = Inr ()"
    "report_ok (fst (load_directory_report (env_fs env) (env_scripts env) (cfg_plugin_directory config) [] []))"
  using assms by (auto simp: starts_def start_checks_def split: if_split_asm)

text \<open>A stop that falls between the installation of the hooks and the store of \<^verbatim>\<open>Running\<close>: both calls
  return, the runtime reports that it runs, and there are neither hooks nor plug-ins.\<close>

definition hooks_up :: "life_label list" where
  "hooks_up = [Starter, Starter, Starter, Starter, Starter, Starter]"

definition stopping_down :: "life_label list" where
  "stopping_down = [Stopper, Stopper, Stopper, Stopper, Stopper, Stopper]"

definition overtaken :: "life_label list" where
  "overtaken = hooks_up @ stopping_down @ [Starter, Starter]"

text \<open>A stop that falls after that store: the watching thread is created when nobody joins it any more.\<close>

definition unjoined :: "life_label list" where
  "unjoined = hooks_up @ [Starter] @ stopping_down @ [Starter]"

lemma play_append: "play env config (as @ bs) l = (case play env config as l of None \<Rightarrow> None | Some l' \<Rightarrow> play env config bs l')"
  by (induction as arbitrary: l) (auto split: option.split)

text \<open>A start that will succeed, up to the store of its state.\<close>

lemma play_start:
  assumes "starts env config runtime_new p fp contents"
  shows "\<exists>rt. play env config hooks_up life_new =
      Some (life_new\<lparr>lf_start := StartPublish, lf_shared := shared_new\<lparr>sh_rt := rt\<rparr>\<rparr>) \<and>
    rt_state rt = Starting \<and> \<not> rt_watching rt"
proof -
  obtain report plugins commands where
    load: "load_directory_report (env_fs env) (env_scripts env) (cfg_plugin_directory config) [] [] = (report, plugins, commands)"
    using prod_cases3 by blast
  with starts_steps [OF assms] show ?thesis
    by (simp add: hooks_up_def next_life_def life_new_def shared_new_def runtime_new_def on_rt_def reload_plugins_def
        install_generic_hooks_def)
qed

lemmas play_defs = stopping_down_def next_life_def life_new_def shared_new_def on_rt_def plugins_stop_def
  overtaken_def unjoined_def play_append

lemma stop_overtaken:
  assumes "starts env config runtime_new p fp contents"
  shows "\<exists>l. life_steps life_new overtaken l \<and> lf_start l = StartEnd True [] \<and> lf_stop l = StopEnd \<and>
    rt_state (sh_rt (lf_shared l)) = Running \<and> \<not> rt_hooked (sh_rt (lf_shared l)) \<and>
    rt_plugins (sh_rt (lf_shared l)) = [] \<and> \<not> rt_control (sh_rt (lf_shared l))"
proof -
  obtain rt where "play env config hooks_up life_new =
      Some (life_new\<lparr>lf_start := StartPublish, lf_shared := shared_new\<lparr>sh_rt := rt\<rparr>\<rparr>)" "rt_state rt = Starting"
    using play_start [OF assms] by blast
  then have "\<exists>l. play env config overtaken life_new = Some l \<and> lf_start l = StartEnd True [] \<and> lf_stop l = StopEnd \<and>
    rt_state (sh_rt (lf_shared l)) = Running \<and> \<not> rt_hooked (sh_rt (lf_shared l)) \<and>
    rt_plugins (sh_rt (lf_shared l)) = [] \<and> \<not> rt_control (sh_rt (lf_shared l))"
    by (simp add: play_defs)
  then show ?thesis using play_steps by blast
qed

lemma stop_leaves_thread:
  assumes "starts env config runtime_new p fp contents"
  shows "\<exists>l. life_steps life_new unjoined l \<and> lf_start l = StartEnd True [] \<and> lf_stop l = StopEnd \<and>
    \<not> destroy_safe (lf_shared l)"
proof -
  obtain rt where "play env config hooks_up life_new =
      Some (life_new\<lparr>lf_start := StartPublish, lf_shared := shared_new\<lparr>sh_rt := rt\<rparr>\<rparr>)" "rt_state rt = Starting"
    using play_start [OF assms] by blast
  then have "\<exists>l. play env config unjoined life_new = Some l \<and> lf_start l = StartEnd True [] \<and> lf_stop l = StopEnd \<and>
    \<not> destroy_safe (lf_shared l)"
    by (simp add: play_defs destroy_safe_def)
  then show ?thesis using play_steps by blast
qed

lemmas sample_stop_overtaken = stop_overtaken [OF sample_starts]
lemmas sample_stop_leaves_thread = stop_leaves_thread [OF sample_starts]


section \<open>Properties\<close>





end
