(* ===== verification/Palmod_Lua_State.thy ===== *)
theory Palmod_Lua_State
  imports Palmod_Plugin_Runtime
begin

text \<open>
  What a plug-in's script finds when it starts, and how the worker runs its callbacks
  (\<^verbatim>\<open>native/src/plugin_runtime.cpp\<close>): the libraries that are opened and the functions that are taken
  away again, the table \<open>palmod\<close>, the order of the initialization, one callback from the look-up of
  its handler to the log record of its failure, and the waits for idle plug-ins.

  The Lua libraries are a parameter: what opening one registers as globals and the module it gives.  A
  script is a parameter too: a function on the instance that says with what it failed, if it did.
\<close>

section \<open>Globals\<close>

text \<open>The native functions of the table \<open>palmod\<close>.\<close>

datatype native =
    NativeOnCommand | NativeOnEvent | NativeCall | NativeFindObject | NativeFindAllOf | NativeGet | NativeClassOf
  | NativeDatatableRows | NativeLog

datatype 'l global = LibraryValue 'l | NativeTable "(string \<times> native) list"

type_synonym 'l globals = "string \<Rightarrow> 'l global option"

record 'l library =
  lib_registers :: "(string \<times> 'l) list"
  lib_module :: 'l

text \<open>\<^verbatim>\<open>luaL_requiref\<close> with a global: the opener runs, then the module becomes a global of its name.\<close>

definition requiref :: "string \<Rightarrow> 'l library \<Rightarrow> 'l globals \<Rightarrow> 'l globals" where
  "requiref name lib g =
     (fold (\<lambda>(k, v) g. g(k \<mapsto> LibraryValue v)) (lib_registers lib) g)(name \<mapsto> LibraryValue (lib_module lib))"

definition safe_libraries :: "string list" where
  "safe_libraries = [''_G'', ''table'', ''string'', ''math'', ''utf8'']"

definition removed_globals :: "string list" where
  "removed_globals = [''dofile'', ''loadfile'', ''load'', ''collectgarbage'']"

definition open_safe_libraries :: "(string \<Rightarrow> 'l library) \<Rightarrow> 'l globals \<Rightarrow> 'l globals" where
  "open_safe_libraries libs g =
     fold (\<lambda>name g. g(name := None)) removed_globals (fold (\<lambda>name. requiref name (libs name)) safe_libraries g)"

definition palmod_table :: "(string \<times> native) list" where
  "palmod_table =
     [(''on_command'', NativeOnCommand), (''on_event'', NativeOnEvent), (''hook'', NativeOnEvent), (''call'', NativeCall),
      (''find_object'', NativeFindObject), (''find_all_of'', NativeFindAllOf), (''get'', NativeGet),
      (''class_of'', NativeClassOf), (''datatable_rows'', NativeDatatableRows), (''log'', NativeLog)]"

definition expose_api :: "'l globals \<Rightarrow> 'l globals" where
  "expose_api g = g(''palmod'' \<mapsto> NativeTable palmod_table)"


section \<open>Initialization\<close>

text \<open>\<open>failure\<close> is what \<^verbatim>\<open>lua_tostring\<close> gives for the error value of a chunk that failed.\<close>

type_synonym chunk_result = "string option option"

definition failure_text :: "string \<Rightarrow> string option \<Rightarrow> string" where
  "failure_text fallback failure = (case failure of None \<Rightarrow> fallback | Some e \<Rightarrow> e)"

definition load_stdlib :: "chunk_result \<Rightarrow> unit outcome" where
  "load_stdlib result =
     (case result of
        None \<Rightarrow> Inr ()
      | Some failure \<Rightarrow> Inl (''palmod stdlib failed to load: '' @ failure_text ''unknown error'' failure))"

text \<open>
  The state a script runs in.  \<open>lm_armed\<close> is whether the instruction hook is set; the chunks are
  parameters: the standard library changes the globals, the plug-in's body the instance as well.
\<close>

record 'l lua_machine =
  lm_globals :: "'l globals"
  lm_armed :: bool
  lm_memory :: allocator
  lm_inst :: plugin_instance

type_synonym 'l chunk = "'l lua_machine \<Rightarrow> chunk_result \<times> 'l lua_machine"

definition prepare_machine :: "(string \<Rightarrow> 'l library) \<Rightarrow> plugin_instance \<Rightarrow> 'l lua_machine" where
  "prepare_machine libs i =
     \<lparr>lm_globals = expose_api (open_safe_libraries libs (\<lambda>_. None)), lm_armed = False,
      lm_memory = \<lparr>al_used = 0, al_limit = of_nat (pm_memory_limit (in_manifest i))\<rparr>, lm_inst = i\<rparr>"

definition arm :: "'l lua_machine \<Rightarrow> 'l lua_machine" where
  "arm m = m\<lparr>lm_armed := True,
     lm_inst := (lm_inst m)\<lparr>in_instructions := pm_instruction_limit (in_manifest (lm_inst m))\<rparr>\<rparr>"

definition run_initialization ::
  "bool \<Rightarrow> (string \<Rightarrow> 'l library) \<Rightarrow> 'l chunk \<Rightarrow> 'l chunk \<Rightarrow> plugin_instance \<Rightarrow> unit outcome \<times> 'l lua_machine option" where
  "run_initialization created libs stdlib body i =
     (if \<not> created then (Inl ''cannot create Lua state within memory limit'', None)
      else (case stdlib (prepare_machine libs i) of
              (result, m) \<Rightarrow>
                (case load_stdlib result of
                   Inl e \<Rightarrow> (Inl e, Some m)
                 | Inr _ \<Rightarrow>
                     (case body (arm m) of
                        (Some failure, m') \<Rightarrow> (Inl (failure_text ''Lua plugin initialization failed'' failure), Some m')
                      | (None, m') \<Rightarrow>
                          (case missing_handler (lm_inst m') of
                             Some c \<Rightarrow> (Inl (''plugin did not register declared command: '' @ cs_name c), Some m')
                           | None \<Rightarrow> (Inr (), Some m'))))))"


section \<open>Callbacks\<close>

type_synonym log_record = "log_level \<times> string \<times> string \<times> (string \<times> string) list"

text \<open>A handler is called with a value and a reference; it gives its failure, if any.\<close>

type_synonym handler = "int \<Rightarrow> lua_value \<Rightarrow> plugin_instance \<Rightarrow> chunk_result \<times> plugin_instance"

definition callback_failed :: "string \<Rightarrow> string \<times> string \<Rightarrow> plugin_instance \<Rightarrow> chunk_result \<Rightarrow> log_record option" where
  "callback_failed event subject i result =
     (case result of
        None \<Rightarrow> None
      | Some failure \<Rightarrow>
          Some (Error, event, failure_text ''unknown Lua error'' failure, [(''plugin'', pm_id (in_manifest i)), subject]))"

definition invoke :: "handler \<Rightarrow> command_invocation \<Rightarrow> plugin_instance \<Rightarrow> log_record option \<times> plugin_instance" where
  "invoke call invocation i =
     (case smap_find (in_handlers i) (canonical (ci_command invocation)) of
        None \<Rightarrow> (None, i)
      | Some reference \<Rightarrow>
          (case call reference (invocation_table invocation) (invoke_begin invocation i) of
             (result, i') \<Rightarrow>
               (callback_failed ''plugin.callback_failed'' (''command'', ci_command invocation) i' result,
                i'\<lparr>in_current := None\<rparr>)))"

definition invoke_event :: "handler \<Rightarrow> plugin_event \<Rightarrow> plugin_instance \<Rightarrow> log_record option \<times> plugin_instance" where
  "invoke_event call event i =
     (case smap_find (in_event_handlers i) (canonical (pe_kind event)) of
        None \<Rightarrow> (None, i)
      | Some reference \<Rightarrow>
          (case call reference (event_table event) (invoke_event_begin event i) of
             (result, i') \<Rightarrow>
               (callback_failed ''plugin.event_failed'' (''event'', pe_kind event) i' result,
                i'\<lparr>in_current_event := None\<rparr>)))"

text \<open>One turn of the worker's loop: \<open>None\<close> when it leaves the loop, and nothing happens while it waits.\<close>

definition finish_turn :: "plugin_instance \<Rightarrow> plugin_instance" where
  "finish_turn i = i\<lparr>in_busy := False, in_phase := Waiting\<rparr>"

definition run_turn :: "handler \<Rightarrow> plugin_instance \<Rightarrow> (log_record option \<times> plugin_instance) option" where
  "run_turn call i =
     (case take_work i of
        (Blocked, i') \<Rightarrow> Some (None, i')
      | (Leave, i') \<Rightarrow> None
      | (Command c, i') \<Rightarrow> (case invoke call c i' of (log, i2) \<Rightarrow> Some (log, finish_turn i2))
      | (Event e, i') \<Rightarrow> (case invoke_event call e i' of (log, i2) \<Rightarrow> Some (log, finish_turn i2)))"


section \<open>Waiting for idle plug-ins\<close>

text \<open>What each look at the condition saw, the last one at the end of the wait.\<close>

definition instance_wait_idle :: "plugin_instance list \<Rightarrow> bool" where
  "instance_wait_idle seen = list_ex instance_idle seen"

text \<open>For each plug-in the time at which its wait begins, in milliseconds, and what that wait sees.\<close>

fun plugins_wait_idle :: "int \<Rightarrow> (int \<times> plugin_instance list) list \<Rightarrow> bool" where
  "plugins_wait_idle deadline [] = True"
| "plugins_wait_idle deadline ((now, seen) # rest) =
     (if deadline \<le> now \<or> \<not> instance_wait_idle seen then False else plugins_wait_idle deadline rest)"

lemma plugins_wait_idle_iff:
  "plugins_wait_idle deadline waits \<longleftrightarrow> list_all (\<lambda>(now, seen). now < deadline \<and> list_ex instance_idle seen) waits"
  by (induction deadline waits rule: plugins_wait_idle.induct) (auto simp: instance_wait_idle_def)


section \<open>The instruction budget under \<open>pcall\<close>\<close>

text \<open>The quanta of a callback; each says whether the script catches the error the hook raises in it.  The
  callback goes on with what is left of the budget, or it ends with the error.\<close>

fun callback_rounds :: "bool list \<Rightarrow> nat \<Rightarrow> nat option" where
  "callback_rounds [] remaining = Some remaining"
| "callback_rounds (caught # rounds) remaining =
     (case instruction_hook remaining of (go, r) \<Rightarrow> if go \<or> caught then callback_rounds rounds r else None)"

lemma uncaught_rounds: "callback_rounds (replicate n False) remaining = hook_rounds n remaining"
  by (induction n arbitrary: remaining) (simp_all split: prod.split)

text \<open>A script that catches the error is never ended by its budget.\<close>

lemma caught_rounds_never_end: "callback_rounds (replicate n True) remaining \<noteq> None"
  by (induction n arbitrary: remaining) (simp_all split: prod.split)


section \<open>Lemmas\<close>

lemma fold_register:
  "fold (\<lambda>(k, v) g. g(k \<mapsto> LibraryValue v)) kvs g name \<noteq> None \<longleftrightarrow> name \<in> fst ` set kvs \<or> g name \<noteq> None"
  by (induction kvs arbitrary: g) (auto split: prod.split)

lemma requiref_some:
  "requiref lib_name lib g name \<noteq> None \<longleftrightarrow> name = lib_name \<or> name \<in> fst ` set (lib_registers lib) \<or> g name \<noteq> None"
  using fold_register [of "lib_registers lib" g name] by (simp add: requiref_def)

lemma fold_requiref:
  "fold (\<lambda>name. requiref name (libs name)) names g name \<noteq> None \<longleftrightarrow>
     name \<in> set names \<or> (\<exists>l \<in> set names. name \<in> fst ` set (lib_registers (libs l))) \<or> g name \<noteq> None"
  by (induction names arbitrary: g) (auto simp del: not_None_eq simp: requiref_some)

lemma fold_remove: "fold (\<lambda>name g. g(name := None)) names g name = (if name \<in> set names then None else g name)"
  by (induction names arbitrary: g) auto

lemma open_safe_some:
  "open_safe_libraries libs (\<lambda>_. None) name \<noteq> None \<longleftrightarrow>
     name \<notin> set removed_globals \<and>
     (name \<in> set safe_libraries \<or> (\<exists>l \<in> set safe_libraries. name \<in> fst ` set (lib_registers (libs l))))"
  using fold_requiref [of libs safe_libraries "\<lambda>_. None" name] by (simp only: open_safe_libraries_def fold_remove) simp

lemma prepared_globals:
  "lm_globals (prepare_machine libs i) name \<noteq> None \<longleftrightarrow>
     name = ''palmod'' \<or>
     (name \<notin> set removed_globals \<and>
      (name \<in> set safe_libraries \<or> (\<exists>l \<in> set safe_libraries. name \<in> fst ` set (lib_registers (libs l)))))"
  using open_safe_some [of libs name] by (auto simp: prepare_machine_def expose_api_def)

lemma missing_handler_None:
  "missing_handler i = None \<longleftrightarrow>
     list_all (\<lambda>c. smap_find (in_handlers i) (canonical (cs_name c)) \<noteq> None) (pm_commands (in_manifest i))"
  by (auto simp: missing_handler_def find_None_iff list_all_iff)

text \<open>The initialization as the step relation of a plug-in sees it.\<close>

lemma run_initialization_initialize:
  "fst (run_initialization created libs stdlib body i) =
     (case stdlib (prepare_machine libs i) of
        (r1, m) \<Rightarrow>
          (case body (arm m) of
             (r2, m') \<Rightarrow> initialize_lua created (map_option (failure_text ''unknown error'') r1)
               (map_option (failure_text ''Lua plugin initialization failed'') r2) (lm_inst m')))"
  by (auto simp: run_initialization_def initialize_lua_def load_stdlib_def split: prod.split option.split)

text \<open>The worker's turn in the functions of the step relation: between them the script acts.\<close>

lemma run_turn_command:
  assumes "take_work i = (Command c, i1)" "smap_find (in_handlers i1) (canonical (ci_command c)) = Some reference"
    "call reference (invocation_table c) (invoke_begin c i1) = (result, i2)" "in_current_event i2 = None"
  shows "run_turn call i =
    Some (callback_failed ''plugin.callback_failed'' (''command'', ci_command c) i2 result, callback_end i2)"
  using assms by (simp add: run_turn_def invoke_def finish_turn_def callback_end_def)

lemma run_turn_event:
  assumes "take_work i = (Event e, i1)" "smap_find (in_event_handlers i1) (canonical (pe_kind e)) = Some reference"
    "call reference (event_table e) (invoke_event_begin e i1) = (result, i2)" "in_current i2 = None"
  shows "run_turn call i =
    Some (callback_failed ''plugin.event_failed'' (''event'', pe_kind e) i2 result, callback_end i2)"
  using assms by (simp add: run_turn_def invoke_event_def finish_turn_def callback_end_def)


section \<open>Properties\<close>


end
