(* ===== verification/Palmod_Bootstrap.thy ===== *)
theory Palmod_Bootstrap
  imports Palmod_Runtime
begin

text \<open>
  How the runtime is started in a process that loads the library: the library constructor
  (\<^verbatim>\<open>native/src/bootstrap.cpp\<close>), the thread it creates and the process-wide runtime
  (\<^verbatim>\<open>native/src/runtime.cpp\<close>).  The environment variables and the answer of \<^verbatim>\<open>pthread_create\<close> are
  parameters.
\<close>

section \<open>The constructor\<close>

text \<open>The flag of \<^verbatim>\<open>start_process_runtime_async\<close>; the result is whether a thread was created.\<close>

definition start_process_runtime_async :: "bool \<Rightarrow> bool \<Rightarrow> bool \<times> bool" where
  "start_process_runtime_async create_ok started = (if started then (False, started) else (create_ok, True))"

definition palmod_bootstrap :: "(string \<Rightarrow> string option) \<Rightarrow> bool \<Rightarrow> bool \<Rightarrow> bool \<times> bool" where
  "palmod_bootstrap getenv create_ok started =
     (case getenv ''PALMOD_DISABLE_AUTOLOAD'' of
        None \<Rightarrow> start_process_runtime_async create_ok started
      | Some disabled \<Rightarrow>
          if disabled = ''1'' then (False, started) else start_process_runtime_async create_ok started)"


section \<open>The thread\<close>

text \<open>The record it logs, if any, and the process-wide runtime; \<open>None\<close> when the start does not return.\<close>

definition bootstrap_thread ::
  "(string \<Rightarrow> string option) \<Rightarrow> environment \<Rightarrow> runtime \<Rightarrow> ((log_level \<times> string \<times> string) option \<times> runtime) option" where
  "bootstrap_thread getenv env rt =
     (case start env (config_from_environment getenv) rt of
        None \<Rightarrow> None
      | Some (ok, e, rt') \<Rightarrow> Some (if e \<noteq> [] then Some (Error, ''bootstrap.failed'', e) else None, rt'))"


section \<open>Lemmas\<close>

text \<open>However often the library is initialized, at most one thread is created, and none where it is
  disabled.\<close>

fun bootstraps :: "((string \<Rightarrow> string option) \<times> bool) list \<Rightarrow> bool \<Rightarrow> nat \<times> bool" where
  "bootstraps [] started = (0, started)"
| "bootstraps ((getenv, create_ok) # calls) started =
     (case palmod_bootstrap getenv create_ok started of
        (created, started') \<Rightarrow>
          (case bootstraps calls started' of (n, s) \<Rightarrow> ((if created then 1 else 0) + n, s)))"

lemma bootstraps_started: "bootstraps calls True = (0, True)"
  by (induction calls) (auto simp: palmod_bootstrap_def start_process_runtime_async_def split: option.split)

lemma bootstraps_once: "fst (bootstraps calls started) \<le> 1"
  by (induction calls arbitrary: started)
    (auto simp: palmod_bootstrap_def start_process_runtime_async_def bootstraps_started split: option.split prod.split)

lemma bootstraps_disabled:
  "list_all (\<lambda>(getenv, create_ok). getenv ''PALMOD_DISABLE_AUTOLOAD'' = Some ''1'') calls \<Longrightarrow>
     bootstraps calls started = (0, started)"
  by (induction calls) (auto simp: palmod_bootstrap_def)

text \<open>Where a start succeeds, the thread logs nothing and the runtime runs.\<close>

lemma bootstrap_runs:
  "starts env (config_from_environment getenv) rt p fp contents \<Longrightarrow>
     \<exists>rt'. bootstrap_thread getenv env rt = Some (None, rt') \<and> rt_state rt' = Running"
  by (auto simp: bootstrap_thread_def starts_def start_def Let_def bring_up_def reload_plugins_def
      split: prod.split if_split_asm)

end
