(* ===== verification/Palmod_Parms_Bytes.thy ===== *)
theory Palmod_Parms_Bytes
  imports Palmod_Parms_Encode
begin

text \<open>
  The bytes \<^verbatim>\<open>parms_encode.cpp\<close> leaves for one value and what \<^verbatim>\<open>parms_decode.cpp\<close> makes of them:
  what a memory that holds a buffer is (\<open>held_at\<close>), which bytes a write leaves (\<open>part\<close>), and what
  each number, name and string is read back as (\<open>back_scalar\<close>).
\<close>

section \<open>Memory that holds a buffer\<close>

definition held_at :: "mem \<Rightarrow> u64 \<Rightarrow> u8 list \<Rightarrow> bool" where
  "held_at m a bs \<longleftrightarrow> a \<noteq> 0 \<and> unat a + length bs \<le> 2 ^ 48 \<and> (\<forall>i < length bs. m (a + of_nat i) = Some (bs ! i))"

lemma unat_offset: "unat (a :: u64) + i < 2 ^ 64 \<Longrightarrow> unat (a + of_nat i) = unat a + i"
  by (simp add: unat_word_ariths(1) unat_of_nat)

lemma held_at_part:
  assumes "held_at m a bs" "i + n \<le> length bs"
  shows "held_at m (a + of_nat i) (take n (drop i bs))"
proof -
  have u: "unat (a + of_nat i) = unat a + i"
    using assms by (intro unat_offset) (simp add: held_at_def)
  moreover have "a + of_nat i \<noteq> 0"
    using assms u by (auto simp: held_at_def word_unat_eq_iff)
  ultimately show ?thesis
    using assms by (auto simp: held_at_def add.assoc simp flip: of_nat_add)
qed

lemma mem_bytes_holds: "(\<forall>i < length bs. m (a + of_nat i) = Some (bs ! i)) \<Longrightarrow> mem_bytes m a (length bs) = Some bs"
proof (induction bs arbitrary: a)
  case (Cons b bs)
  have "m (a + 1 + of_nat i) = Some (bs ! i)" if "i < length bs" for i
    using Cons.prems [rule_format, of "Suc i"] that by (simp add: add.assoc add.commute [of 1])
  moreover have "m a = Some b" using Cons.prems [rule_format, of 0] by simp
  ultimately show ?case using Cons.IH [of "a + 1"] by simp
qed simp

lemma held_at_below: "held_at m a bs \<Longrightarrow> bs \<noteq> [] \<Longrightarrow> a < kCanonicalLimit"
  by (cases bs) (auto simp: held_at_def kCanonicalLimit_def word_less_nat_alt)

lemma held_at_try: "held_at m a bs \<Longrightarrow> bs \<noteq> [] \<Longrightarrow> n = length bs \<Longrightarrow> try_read_bytes m a n = Some bs"
  using held_at_below [of m a bs] mem_bytes_holds [of bs m a] by (auto simp: try_read_bytes_def held_at_def not_le [symmetric])

lemma held_at_raw: "held_at m a bs \<Longrightarrow> 0 < n \<Longrightarrow> n \<le> length bs \<Longrightarrow> read_raw m a n = take n bs"
  using held_at_part [of m a bs 0 n] held_at_try [of m a "take n bs" n] by (cases bs) (auto simp: read_raw_def)

lemma held_at_raw_at:
  "held_at m a bs \<Longrightarrow> 0 < n \<Longrightarrow> i + n \<le> length bs \<Longrightarrow> read_raw m (a + of_nat i) n = take n (drop i bs)"
  using held_at_raw [OF held_at_part [of m a bs i n], of n] by simp


section \<open>Bytes written\<close>

definition part :: "encoded_parms \<Rightarrow> buffer \<Rightarrow> nat \<Rightarrow> nat \<Rightarrow> u8 list" where
  "part out buf off n = take n (drop off (buffer_bytes out buf))"

lemma part_write:
  assumes "write_at buf off bs out = Done out'" "present out buf"
  shows "part out' buf off (length bs) = bs"
  using assms by (auto simp: write_at_def part_def Let_def buffer_bytes_set_buffer splice_def split: if_split_asm)

lemma part_only:
  assumes "only buf lo hi out out'" "present out b" "b \<noteq> buf \<or> off + n \<le> lo \<or> hi \<le> off"
  shows "part out' b off n = part out b off n"
proof (rule nth_equalityI)
  have len: "length (buffer_bytes out' b) = length (buffer_bytes out b)"
    using assms(1,2) by (rule only_length)
  then show "length (part out' b off n) = length (part out b off n)" by (simp add: part_def)
  fix i assume "i < length (part out' b off n)"
  then show "part out' b off n ! i = part out b off n ! i"
    using assms len by (auto simp: part_def only_def)
qed

lemma part_part: "i + k \<le> n \<Longrightarrow> take k (drop i (part out buf off n)) = part out buf (off + i) k"
  by (simp add: part_def drop_take min_def add.commute)

lemma length_part: "off + n \<le> length (buffer_bytes out buf) \<Longrightarrow> length (part out buf off n) = n"
  by (simp add: part_def)


section \<open>Scalars\<close>

text \<open>What the decoder makes of a number written as a type.\<close>

definition number_back :: "string \<Rightarrow> double \<Rightarrow> double" where
  "number_back type n =
     (let i = double_trunc n
      in if type \<in> {''IntProperty'', ''Int32Property'', ''Int64Property'', ''Int16Property'', ''EnumProperty''} then double_of_int i
         else if type = ''UInt32Property'' then double_of_int (i mod 2 ^ 32)
         else if type = ''UInt16Property'' then double_of_int (i mod 2 ^ 16)
         else if type = ''UInt64Property'' then double_of_int (i mod 2 ^ 64)
         else if type = ''ByteProperty'' \<or> type = ''Int8Property'' then double_of_int (if i < 128 then i else i - 256)
         else if type = ''BoolProperty'' then double_of_int (if is_zero n then 0 else 1)
         else if type = ''FloatProperty'' then double_of_float (float_of_double n)
         else n)"

lemma cast_int_Done: "cast_int lo hi n = Done i \<longleftrightarrow> i = double_trunc n \<and> lo \<le> i \<and> i \<le> hi \<and> isfinite n"
  by (auto simp: cast_int_def cast_ok_def)

lemma of_le_bytes:
  "u8_of (le_bytes 1 v) = of_nat v" "u16_of (le_bytes 2 v) = of_nat v" "u64_of (le_bytes 8 v) = of_nat v"
  by (simp_all add: u8_of_def u16_of_def u64_of_def le_value_le_bytes word_of_nat_eq_iff take_bit_eq_mod del: le_value.simps le_bytes.simps)

lemma of_int_mod: "of_int (i mod 2 ^ LENGTH('a)) = (of_int i :: 'a::len word)"
  by (simp add: word_of_int_eq_iff take_bit_eq_mod [symmetric])

lemma sint_of_int: "- (2 ^ (LENGTH('a) - 1)) \<le> i \<Longrightarrow> i < 2 ^ (LENGTH('a) - 1) \<Longrightarrow> sint (of_int i :: 'a::len word) = i"
  by (simp add: sint_sbintrunc' signed_take_bit_int_eq_self)

lemma sint_byte: "0 \<le> i \<Longrightarrow> i < 256 \<Longrightarrow> sint (of_int i :: u8) = (if i < 128 then i else i - 256)"
proof (cases "i < 128")
  case False
  assume "0 \<le> i" "i < 256"
  moreover have "(of_int i :: u8) = of_int (i - 256)" by simp
  ultimately show ?thesis using False sint_of_int [where 'a = 8, of "i - 256"] by (simp only: if_False) simp
qed (use sint_of_int [where 'a = 8, of i] in simp)

text \<open>What a scalar is read back as, from the bytes its encoding left.\<close>

definition encodable :: "string \<Rightarrow> bool" where
  "encodable type \<longleftrightarrow> width type \<noteq> 0"

definition number_types :: "string set" where
  "number_types = {''IntProperty'', ''Int32Property'', ''UInt32Property'', ''Int64Property'', ''UInt64Property'',
     ''Int16Property'', ''UInt16Property'', ''ByteProperty'', ''Int8Property'', ''EnumProperty'', ''BoolProperty'',
     ''FloatProperty'', ''DoubleProperty''}"

lemma encodable_cases: "encodable type \<longleftrightarrow> type \<in> number_types \<or> type = ''NameProperty'' \<or> type = ''StrProperty''"
  by (auto simp: encodable_def width_def number_types_def)

text \<open>The bytes of a number.\<close>

definition number_bytes :: "string \<Rightarrow> double \<Rightarrow> u8 list" where
  "number_bytes type n =
     (if type = ''BoolProperty'' then [if is_zero n then 0 else 1]
      else if type = ''FloatProperty'' then le_bytes 4 (unat (float_of_double n))
      else if type = ''DoubleProperty'' then le_bytes 8 (unat n)
      else le_bytes (width type) (nat (double_trunc n mod 256 ^ width type)))"

lemma encode_number:
  assumes "type \<in> number_types" "encode_scalar enc buf off type input out = Done out'"
  shows "write_at buf off (number_bytes type (pi_number input)) out = Done out' \<and> number_fits type (pi_number input)"
  using assms unfolding number_types_def
  by (elim insertE emptyE; simp add: encode_scalar_def number_bytes_def width_def write_int_def gbind_Done cast_int_Done
      number_fits_def cast_ok_def; fastforce?)

lemma decode_number:
  assumes "type \<in> number_types" "number_fits type n" "read_raw m a (width type) = number_bytes type n"
  shows "decode_scalar m names a type = Done (Some (number_arg (number_back type n)))"
proof -
  have byte: "u8_of (le_bytes (Suc 0) v) = of_nat v" "u8_of [0] = 0" "u8_of [1] = 1" for v
    using of_le_bytes(1) [of v] by (simp_all add: u8_of_def)
  note wrap = of_int_mod [where 'a = 16, simplified] of_int_mod [where 'a = 32, simplified] of_int_mod [where 'a = 64, simplified]
  note sint = sint_of_int [where 'a = 16] sint_of_int [where 'a = 32] sint_of_int [where 'a = 64] sint_byte
  show ?thesis
    using assms unfolding number_types_def
    by (elim insertE emptyE; simp add: decode_scalar_def number_bytes_def width_def number_fits_def cast_ok_def
        number_back_def of_le_bytes wrap uint_word_of_int sint byte Let_def del: le_bytes.simps le_value.simps)
qed

text \<open>The names of the pool as a function and a function back.\<close>

abbreviation names_in :: "(string \<Rightarrow> u32) \<Rightarrow> fname_encoder" where
  "names_in e \<equiv> Some (\<lambda>s. Done (e s))"

abbreviation names_out :: "(u32 \<Rightarrow> string) \<Rightarrow> fname_resolver" where
  "names_out r \<equiv> Some (\<lambda>i. Done (r i))"

definition back_scalar :: "(string \<Rightarrow> u32) \<Rightarrow> (u32 \<Rightarrow> string) \<Rightarrow> string \<Rightarrow> param_input option \<Rightarrow> event_arg" where
  "back_scalar e r type input =
     (if type = ''StrProperty'' then
        text_arg (case input of None \<Rightarrow> [] | Some i \<Rightarrow> utf16_to_utf8 (Some (take (2 ^ 16) (utf8_to_utf16 (pi_text i)))))
      else if type = ''NameProperty'' then
        text_arg (r (case input of None \<Rightarrow> 0 | Some i \<Rightarrow> e (pi_text i)))
      else number_arg (number_back type (case input of None \<Rightarrow> 0 | Some i \<Rightarrow> pi_number i)))"

lemma width_number: "type \<in> number_types \<Longrightarrow> 0 < width type"
  by (auto simp: number_types_def width_def)

lemma length_number_bytes: "type \<in> number_types \<Longrightarrow> length (number_bytes type n) = width type"
  unfolding number_types_def by (elim insertE emptyE; simp add: number_bytes_def width_def del: le_bytes.simps)

lemma not_number: "''NameProperty'' \<notin> number_types" "''StrProperty'' \<notin> number_types"
  by (simp_all add: number_types_def)

text \<open>Two writes in a row.\<close>

lemma present_write: "write_at buf off bs out = Done out' \<Longrightarrow> present out b \<Longrightarrow> present out' b"
  by (cases b) (auto simp: write_at_def Let_def split: if_split_asm)

lemma write_only:
  assumes "write_at buf off bs out = Done out'" "present out buf"
  shows "only buf off (off + length bs) out out'"
proof -
  have "off + length bs \<le> length (buffer_bytes out buf)"
    using assms(1) by (auto simp: write_at_def Let_def split: if_split_asm)
  from write_at_only [OF assms(2) this, of False] assms(1) show ?thesis by simp
qed

lemma part_append: "part out buf off (n + k) = part out buf off n @ part out buf (off + n) k"
  unfolding part_def take_add drop_drop by (simp add: add.commute)

lemma part_after_write:
  assumes "write_at buf off' bs out = Done out'" "present out buf" "off + n \<le> off' \<or> off' + length bs \<le> off"
  shows "part out' buf off n = part out buf off n"
  using part_only [OF write_only [OF assms(1,2)] assms(2)] assms(3) by blast

lemma writes_two:
  assumes "write_at buf off bs out = Done out1" "write_at buf (off + length bs) cs out1 = Done out2" "present out buf"
  shows "part out2 buf off (length bs + length cs) = bs @ cs"
proof -
  have p: "present out1 buf" using assms(1,3) by (rule present_write)
  show ?thesis
    using part_write [OF assms(1,3)] part_write [OF assms(2) p] part_after_write [OF assms(2) p, of off "length bs"]
    by (simp add: part_append)
qed

lemma encode_number_part:
  assumes "type \<in> number_types" "encode_scalar enc buf off type input out = Done out'" "present out buf"
  shows "part out' buf off (width type) = number_bytes type (pi_number input)"
  using part_write [of buf off "number_bytes type (pi_number input)" out out'] encode_number [OF assms(1,2)] assms(3)
    length_number_bytes [OF assms(1), of "pi_number input"] by simp

lemma decode_name_bytes:
  assumes "held_at m a (le_bytes 4 (unat ix) @ [0, 0, 0, 0])"
  shows "decode_scalar m (names_out r) a ''NameProperty'' = Done (Some (text_arg (r ix)))"
proof -
  have "read_raw m a 4 = le_bytes 4 (unat ix)"
    using held_at_raw [OF assms, of 4] by (simp del: le_bytes.simps)
  moreover have "read_raw m (a + 4) 4 = [0, 0, 0, 0]"
    using held_at_raw_at [OF assms, of 4 4] by (simp del: le_bytes.simps)
  ultimately show ?thesis
    by (simp add: decode_scalar_def decode_name_def Let_def u32_of_def [of "[0, 0, 0, 0]"] del: le_bytes.simps)
qed

lemma scalar_decodes:
  assumes "encode_scalar (names_in e) buf off type input out = Done out'" "present out buf" "encodable type"
    "type \<noteq> ''StrProperty''" "held_at m a (part out' buf off (width type))"
  shows "decode_scalar m (names_out r) a type = Done (Some (back_scalar e r type (Some input)))"
proof (cases "type \<in> number_types")
  case True
  have len: "length (number_bytes type (pi_number input)) = width type" using True by (rule length_number_bytes)
  have "read_raw m a (width type) = number_bytes type (pi_number input)"
    using held_at_raw [OF assms(5), of "width type"] width_number [OF True] encode_number_part [OF True assms(1,2)] len by simp
  with decode_number [OF True] encode_number [OF True assms(1)] show ?thesis
    using True by (auto simp: back_scalar_def not_number)
next
  case False
  with assms(3,4) have type: "type = ''NameProperty''" by (simp add: encodable_cases)
  obtain out1 where w: "write_at buf off (le_bytes 4 (unat (e (pi_text input)))) out = Done out1"
    "write_at buf (off + 4) [0, 0, 0, 0] out1 = Done out'"
    using assms(1) by (auto simp: encode_scalar_def type gbind_Done simp del: le_bytes.simps)
  have "part out' buf off 8 = le_bytes 4 (unat (e (pi_text input))) @ [0, 0, 0, 0]"
    using writes_two [of buf off "le_bytes 4 (unat (e (pi_text input)))" out out1 "[0,0,0,0]" out'] w assms(2)
    by (simp del: le_bytes.simps)
  with assms(5) show ?thesis
    using decode_name_bytes [of m a "e (pi_text input)" r] by (simp add: type width_def back_scalar_def del: le_bytes.simps)
qed

lemma le_bytes_zero: "le_bytes n 0 = replicate n 0"
  by (induction n) simp_all

lemma double_zero: "double_quotient 0 = (0, 2 ^ 1074)" "isfinite 0" "double_trunc 0 = 0" "is_zero 0"
  by (simp_all add: double_quotient_def double_exp_def double_frac_def isfinite_def double_trunc_def is_zero_def)

lemma float_zero: "float_of_double 0 = 0"
  by (simp add: float_of_double_def double_zero double_neg_def float_of_quotient_def)

lemma number_bytes_zero:
  assumes "type \<in> number_types"
  shows "number_bytes type 0 = replicate (width type) 0 \<and> number_fits type 0"
proof -
  consider "type = ''BoolProperty''" | "type = ''FloatProperty''" | "type = ''DoubleProperty''"
    | "type \<notin> {''BoolProperty'', ''FloatProperty'', ''DoubleProperty''}" by blast
  then show ?thesis
  proof cases
    case 4
    then show ?thesis
      by (simp add: number_bytes_def double_zero le_bytes_zero number_fits_def cast_ok_def del: le_bytes.simps)
  qed (simp_all add: number_bytes_def width_def double_zero float_zero le_bytes_zero number_fits_def del: le_bytes.simps)
qed

lemma zero_decodes:
  assumes "encodable type" "held_at m a (replicate (width type) 0)"
  shows "decode_scalar m (names_out r) a type = Done (Some (back_scalar e r type None))"
proof -
  consider "type \<in> number_types" | "type = ''NameProperty''" | "type = ''StrProperty''"
    using assms(1) by (auto simp: encodable_cases)
  then show ?thesis
  proof cases
    case 1
    have "read_raw m a (width type) = number_bytes type 0"
      using held_at_raw [OF assms(2), of "width type"] width_number [OF 1] number_bytes_zero [OF 1] by simp
    with decode_number [OF 1] number_bytes_zero [OF 1] show ?thesis
      using 1 by (auto simp: back_scalar_def not_number)
  next
    case 2
    have "replicate 4 (0 :: u8) = [0, 0, 0, 0]" by (simp add: numeral_eq_Suc)
    then have "replicate (width type) (0 :: u8) = le_bytes 4 (unat (0 :: u32)) @ [0, 0, 0, 0]"
      using replicate_add [of 4 4 "0 :: u8"] by (simp add: 2 width_def le_bytes_zero del: le_bytes.simps)
    then show ?thesis using assms(2) decode_name_bytes [of m a 0 r] by (simp add: 2 back_scalar_def del: le_bytes.simps)
  next
    case 3
    have "read_raw m a 8 = replicate 8 0"
      using held_at_raw [OF assms(2), of 8] by (simp add: 3 width_def)
    then have "u64_of (read_raw m a 8) = 0" using le_value_le_bytes [of 8 0] by (simp add: u64_of_def le_bytes_zero del: le_bytes.simps)
    then have "read_fstring m a = []" by (simp only: read_fstring_def Let_def simp_thms if_True)
    then show ?thesis by (simp add: 3 decode_scalar_def back_scalar_def)
  qed
qed

section \<open>Strings\<close>

definition triple :: "u64 \<Rightarrow> nat \<Rightarrow> u8 list" where
  "triple data num = le_bytes 8 (unat data) @ le_bytes 4 num @ le_bytes 4 num"

lemma length_triple [simp]: "length (triple data num) = 16"
  by (simp add: triple_def del: le_bytes.simps)

lemma write_triple_part:
  assumes "write_triple buf off data num out = Done out'" "present out buf"
  shows "part out' buf off 16 = triple data num"
proof -
  obtain out1 out2 where w: "write_at buf off (le_bytes 8 (unat data)) out = Done out1"
    "write_at buf (off + 8) (le_bytes 4 num) out1 = Done out2" "write_at buf (off + 12) (le_bytes 4 num) out2 = Done out'"
    using assms(1) by (auto simp: write_triple_def gbind_Done simp del: le_bytes.simps)
  have p: "present out1 buf" "present out2 buf" using w(1,2) assms(2) by (blast intro: present_write)+
  have "part out' buf off 8 = le_bytes 8 (unat data)"
    using part_write [OF w(1) assms(2)] part_after_write [OF w(2) p(1), of off 8] part_after_write [OF w(3) p(2), of off 8]
    by (simp del: le_bytes.simps)
  moreover have "part out' buf (off + 8) 8 = le_bytes 4 num @ le_bytes 4 num"
    using writes_two [OF w(2), of "le_bytes 4 num" out'] w(3) p(1) by (simp add: add.assoc del: le_bytes.simps)
  ultimately show ?thesis using part_append [of out' buf off 8 8] by (simp add: triple_def)
qed

lemma triple_read:
  assumes "held_at m a (triple data num)" "num < 2 ^ 31"
  shows "u64_of (read_raw m a 8) = data \<and> sint (u32_of (read_raw m (a + 8) 4)) = int num"
proof -
  have "read_raw m a 8 = le_bytes 8 (unat data)"
    using held_at_raw [OF assms(1), of 8] by (simp add: triple_def del: le_bytes.simps)
  moreover have "read_raw m (a + 8) 4 = le_bytes 4 num"
    using held_at_raw_at [OF assms(1), of 4 8] by (simp add: triple_def del: le_bytes.simps)
  moreover have "sint (of_nat num :: u32) = int num"
    using assms(2) sint_of_int [where 'a = 32, of "int num"] by simp
  ultimately show ?thesis by (simp only: of_le_bytes u32_of_le_bytes) simp
qed

lemma write_at_pools:
  "write_at buf off bs out = Done out' \<Longrightarrow>
     length (ep_pools out') = length (ep_pools out) \<and> (buf \<noteq> Pool k \<longrightarrow> ep_pools out' ! k = ep_pools out ! k)"
  by (cases buf) (auto simp: write_at_def Let_def split: if_split_asm)

lemma write_triple_pools:
  assumes "write_triple buf off data num out = Done out'"
  shows "length (ep_pools out') = length (ep_pools out) \<and> (buf \<noteq> Pool k \<longrightarrow> ep_pools out' ! k = ep_pools out ! k)"
proof -
  obtain out1 out2 where "write_at buf off (le_bytes 8 (unat data)) out = Done out1"
    "write_at buf (off + 8) (le_bytes 4 num) out1 = Done out2" "write_at buf (off + 12) (le_bytes 4 num) out2 = Done out'"
    using assms by (auto simp: write_triple_def gbind_Done simp del: le_bytes.simps)
  then show ?thesis using write_at_pools by metis
qed

lemma u16_units_bytes: "u16_units (take (2 * n) (unit_bytes us)) = take n us"
proof (induction n arbitrary: us)
  case (Suc n)
  show ?case
  proof (cases us)
    case (Cons u vs)
    obtain x y where xy: "le_bytes 2 (unat u) = [x, y]"
      by (simp add: numeral_2_eq_2)
    have "u16_of [x, y] = u" using of_le_bytes(2) [of "unat u"] unfolding xy by simp
    moreover have "unit_bytes us = x # y # unit_bytes vs" by (simp add: Cons unit_bytes_def xy del: le_bytes.simps)
    ultimately show ?thesis using Suc.IH [of vs] Cons by simp
  qed (simp add: unit_bytes_def)
qed simp

lemma string_read:
  assumes "held_at m a (triple data (length us + 1))" "held_at m data (unit_bytes (us @ [0]))" "length us + 1 < 2 ^ 31"
  shows "read_fstring m a = utf16_to_utf8 (Some (take (2 ^ 16) us))"
proof -
  let ?c = "min (length us) (2 ^ 16)"
  have data: "data \<noteq> 0" using assms(2) by (simp add: held_at_def)
  have c: "nat (min (int (length us + 1) - 1) (2 ^ 16)) = ?c" by (simp add: min_def)
  show ?thesis
  proof (cases "us = []")
    case True
    with triple_read [OF assms(1,3)] show ?thesis by (simp add: read_fstring_def utf16_to_utf8_def)
  next
    case False
    have len: "length (take (2 * ?c) (unit_bytes (us @ [0]))) = ?c * 2" by (simp add: min_def)
    have "held_at m data (take (2 * ?c) (unit_bytes (us @ [0])))"
      using held_at_part [OF assms(2), of 0 "2 * ?c"] by (simp add: min_def)
    then have "try_read_bytes m data (?c * 2) = Some (take (2 * ?c) (unit_bytes (us @ [0])))"
    proof (rule held_at_try)
      have "0 < ?c * 2" using False by simp
      then show "take (2 * ?c) (unit_bytes (us @ [0])) \<noteq> []" unfolding len [symmetric] by (rule length_greater_0_conv [THEN iffD1])
    qed (rule len [symmetric])
    moreover have "u16_units (take (2 * ?c) (unit_bytes (us @ [0]))) = take (2 ^ 16) us"
      unfolding u16_units_bytes by (simp add: min_def)
    ultimately show ?thesis
      using triple_read [OF assms(1,3)] data False
      by (simp only: read_fstring_def Let_def c) simp
  qed
qed

lemma encode_str_part:
  assumes "encode_str va buf off str out = Done out'" "present out buf" "str \<noteq> []"
  shows "part out' buf off 16 = triple (va (length (ep_pools out))) (length (utf8_to_utf16 str) + 1) \<and>
    length (ep_pools out') = Suc (length (ep_pools out)) \<and>
    ep_pools out' ! length (ep_pools out) = unit_bytes (utf8_to_utf16 str @ [0])"
proof -
  let ?k = "length (ep_pools out)" and ?us = "utf8_to_utf16 str @ [0]"
  let ?new = "new_pool (unit_bytes ?us) out"
  have w: "write_triple buf off (va ?k) (length ?us) ?new = Done out'"
    using assms(1,3) by (simp add: encode_str_def Let_def)
  have p: "present ?new buf" using assms(2) by (cases buf) (simp_all add: new_pool_def)
  have "buf \<noteq> Pool ?k" using assms(2) by auto
  from write_triple_pools [OF w] this show ?thesis
    using write_triple_part [OF w p] buffer_bytes_new_pool(2) [of "unit_bytes ?us" out]
    by (auto simp: new_pool_def)
qed

end
