(* ===== verification/Palmod_Parms_Roundtrip.thy ===== *)
theory Palmod_Parms_Roundtrip
  imports Palmod_Parms_Bytes
begin

text \<open>
  What \<^verbatim>\<open>parms_encode.cpp\<close> writes, \<^verbatim>\<open>parms_decode.cpp\<close> reads back, for whole trees: when the memory
  of the process holds the encoded buffer and its pools at their addresses (\<open>carries\<close>), the decoder
  gives the tree of the inputs (\<open>back_fields\<close>).  The encoder is the one of the code with a name
  pool that finds every name.
\<close>

section \<open>What comes back\<close>

text \<open>Layouts: the fields of a struct lie apart, and every scalar has a width.\<close>

definition apart :: "param_spec \<Rightarrow> param_spec \<Rightarrow> bool" where
  "apart p q \<longleftrightarrow> unat (ps_offset p) + span p \<le> unat (ps_offset q) \<or> unat (ps_offset q) + span q \<le> unat (ps_offset p)"

function fields_apart :: "param_spec list \<Rightarrow> bool" and field_ok :: "param_spec \<Rightarrow> bool" where
  "fields_apart [] = True"
| "fields_apart (param # params) = (field_ok param \<and> list_all (apart param) params \<and> fields_apart params)"
| "field_ok param =
     (if ps_type param = ''ArrayProperty''
      then (if struct_elements param then fields_apart (ps_fields param) else encodable (ps_inner_type param))
      else if ps_type param = ''StructProperty'' then fields_apart (ps_fields param)
      else encodable (ps_type param))"
  by pat_completeness auto
termination
  by (relation "measure (\<lambda>x. case x of Inl params \<Rightarrow> size_list size params | Inr param \<Rightarrow> size param)")
    (auto simp: size_ps_fields)

declare field_ok.simps [simp del]

text \<open>Inputs whose texts and arrays have lengths an \<^verbatim>\<open>int32\<close> can hold.\<close>

function lengths_fit :: "param_input list \<Rightarrow> bool" where
  "lengths_fit [] = True"
| "lengths_fit (i # is) =
     (length (utf8_to_utf16 (pi_text i)) + 1 < 2 ^ 31 \<and> length (pi_items i) < 2 ^ 31 \<and> lengths_fit (pi_items i) \<and>
      lengths_fit is)"
  by pat_completeness auto
termination
proof (relation "measure (size_list size)")
  fix i :: param_input and "is"
  show "(pi_items i, i # is) \<in> measure (size_list size)" by (cases i) simp
qed simp_all

text \<open>The tree of named values the decoder makes of the inputs the encoder was given.\<close>

function back_fields :: "(string \<Rightarrow> u32) \<Rightarrow> (u32 \<Rightarrow> string) \<Rightarrow> param_spec list \<Rightarrow> param_input list \<Rightarrow> nat \<Rightarrow> event_arg list"
and back_field :: "(string \<Rightarrow> u32) \<Rightarrow> (u32 \<Rightarrow> string) \<Rightarrow> param_spec \<Rightarrow> param_input option \<Rightarrow> nat \<Rightarrow> event_arg"
and back_item :: "(string \<Rightarrow> u32) \<Rightarrow> (u32 \<Rightarrow> string) \<Rightarrow> param_spec \<Rightarrow> param_input \<Rightarrow> nat \<Rightarrow> event_arg"
where
  "back_fields e r [] inputs depth = []"
| "back_fields e r (param # params) inputs depth =
     back_field e r param (find_input inputs (ps_name param)) depth # back_fields e r params inputs depth"
| "back_field e r param input depth =
     (if ps_type param = ''ArrayProperty''
      then array_arg (ps_name param)
        (case input of
           None \<Rightarrow> []
         | Some i \<Rightarrow>
             if pi_is_array i \<and> ps_inner_size param \<noteq> 0
             then map (\<lambda>x. back_item e r param x depth) (take kMaxArrayElements (pi_items i)) else [])
      else if ps_type param = ''StructProperty''
      then struct_arg (ps_name param)
        (if depth < kMaxStructDepth
         then back_fields e r (ps_fields param) (case input of None \<Rightarrow> [] | Some i \<Rightarrow> pi_items i) (depth + 1) else [])
      else with_name (ps_name param) (back_scalar e r (ps_type param) input))"
| "back_item e r param i depth =
     (if struct_elements param
      then struct_arg [] (if depth < kMaxStructDepth then back_fields e r (ps_fields param) (pi_items i) (depth + 1) else [])
      else back_scalar e r (ps_inner_type param) (Some i))"
  by pat_completeness auto
termination
  by (relation "inv_image (less_than <*lex*> less_than) (\<lambda>x.
        case x of
          Inl (_, _, params, _) \<Rightarrow> (size_list size params, 0)
        | Inr (Inl (_, _, param, _)) \<Rightarrow> (size param, 1)
        | Inr (Inr (_, _, param, _)) \<Rightarrow> (size param, 0))")
    (auto simp: size_ps_fields)

declare back_field.simps [simp del] back_item.simps [simp del]

section \<open>Regions of the buffers\<close>

definition blank :: "encoded_parms \<Rightarrow> buffer \<Rightarrow> nat \<Rightarrow> nat \<Rightarrow> bool" where
  "blank out buf off n \<longleftrightarrow>
     present out buf \<and> off + n \<le> length (buffer_bytes out buf) \<and> part out buf off n = replicate n 0"

definition blank_fields :: "encoded_parms \<Rightarrow> buffer \<Rightarrow> nat \<Rightarrow> param_spec list \<Rightarrow> bool" where
  "blank_fields out buf base params \<longleftrightarrow>
     present out buf \<and> base + span_fields params \<le> length (buffer_bytes out buf) \<and>
     (\<forall>p \<in> set params. part out buf (base + unat (ps_offset p)) (span p) = replicate (span p) 0)"

text \<open>The memory holds the bytes of a region and the pools made since.\<close>

definition carries ::
  "(nat \<Rightarrow> u64) \<Rightarrow> mem \<Rightarrow> u64 \<Rightarrow> nat \<Rightarrow> encoded_parms \<Rightarrow> buffer \<Rightarrow> nat \<Rightarrow> nat \<Rightarrow> bool" where
  "carries va m a lo out buf off n \<longleftrightarrow>
     held_at m a (part out buf off n) \<and> (\<forall>k. lo \<le> k \<and> k < length (ep_pools out) \<longrightarrow> held_at m (va k) (ep_pools out ! k))"

lemma span_field_le: "p \<in> set params \<Longrightarrow> unat (ps_offset p) + span p \<le> span_fields params"
  by (induction params) auto

lemma blank_zero: "part out buf off n = replicate n 0 \<Longrightarrow> i + k \<le> n \<Longrightarrow> part out buf (off + i) k = replicate k 0"
  using part_part [of i k n out buf off] by simp

lemma blank_struct: "blank out buf base (span_fields params) \<Longrightarrow> blank_fields out buf base params"
  using blank_zero span_field_le by (auto simp: blank_def blank_fields_def)

lemma blank_field: "blank_fields out buf base params \<Longrightarrow> p \<in> set params \<Longrightarrow> blank out buf (base + unat (ps_offset p)) (span p)"
  using span_field_le [of p params] by (auto simp: blank_def blank_fields_def)

lemma blank_part: "blank out buf off n \<Longrightarrow> i + k \<le> n \<Longrightarrow> blank out buf (off + i) k"
  using blank_zero by (auto simp: blank_def)

text \<open>A change elsewhere.\<close>

lemma blank_only:
  "only buf lo hi out out' \<Longrightarrow> blank out buf off n \<Longrightarrow> off + n \<le> lo \<or> hi \<le> off \<Longrightarrow> blank out' buf off n"
  using only_present [of buf lo hi out out' buf] only_length [of buf lo hi out out' buf] part_only [of buf lo hi out out' buf off n]
  by (auto simp: blank_def)

lemma pools_only:
  assumes "only buf lo hi out out'" "buf \<noteq> Pool k" "k < length (ep_pools out)"
  shows "ep_pools out' ! k = ep_pools out ! k"
proof -
  have p: "present out (Pool k)" using assms(3) by simp
  note same = assms(1) [unfolded only_def, THEN conjunct2, THEN spec, of "Pool k", THEN mp, OF p]
  have "buffer_bytes out' (Pool k) = buffer_bytes out (Pool k)"
    using same assms(2) by (intro nth_equalityI) auto
  then show ?thesis using only_present [OF assms(1) p] assms(3) by simp
qed

lemma carries_part:
  assumes "carries va m a lo out buf off n" "i + k \<le> n" "off + n \<le> length (buffer_bytes out buf)"
  shows "carries va m (a + of_nat i) lo out buf (off + i) k"
  using assms held_at_part [of m a "part out buf off n" i k] by (simp add: carries_def part_part length_part)

lemma carries_mono: "carries va m a lo out buf off n \<Longrightarrow> lo \<le> lo' \<Longrightarrow> carries va m a lo' out buf off n"
  by (auto simp: carries_def)

text \<open>Before a change that leaves the region alone the memory carried it as well.\<close>

lemma carries_back:
  assumes "carries va m a lo out' buf off n" "only b l h out out'" "part out' buf off n = part out buf off n"
    "\<And>k. lo \<le> k \<Longrightarrow> b \<noteq> Pool k"
  shows "carries va m a lo out buf off n"
proof -
  have "length (ep_pools out) \<le> length (ep_pools out')" using assms(2) by (simp add: only_def)
  then show ?thesis
    using assms(1,3,4) pools_only [OF assms(2)] unfolding carries_def by (metis order.strict_trans2)
qed

lemma carries_only:
  assumes "carries va m a (length (ep_pools out0)) out' buf off n" "only buf l h out out'" "present out0 buf"
    "present out buf" "off + n \<le> l \<or> h \<le> off"
  shows "carries va m a (length (ep_pools out0)) out buf off n"
  using assms(3) by (intro carries_back [OF assms(1,2)] part_only [OF assms(2,4)]) (use assms(5) in auto)

text \<open>What the encoding of a list of fields leaves alone.\<close>

lemma encode_fields_apart:
  assumes "present out buf" "base + span_fields params \<le> length (buffer_bytes out buf)" "strides_fit params"
    "values_fit params inputs" "encode_fields va (names_in e) buf base params inputs depth out = Done out'"
    "list_all (apart p) params"
  shows "part out' buf (base + unat (ps_offset p)) (span p) = part out buf (base + unat (ps_offset p)) (span p)"
  using assms
proof (induction params arbitrary: out)
  case (Cons q params)
  obtain out1 where first: "(case find_input inputs (ps_name q) of None \<Rightarrow> Done out
      | Some input \<Rightarrow> encode_field va (names_in e) buf (base + unat (ps_offset q)) q input depth out) = Done out1"
    and rest: "encode_fields va (names_in e) buf base params inputs depth out1 = Done out'"
    using Cons.prems(5) by (auto simp: gbind_Done)
  have only: "only buf (base + unat (ps_offset q)) (base + unat (ps_offset q) + span q) out out1"
  proof (cases "find_input inputs (ps_name q)")
    case (Some input)
    have "guaranteed (encoder_crashes (names_in e))
        (only buf (base + unat (ps_offset q)) (base + unat (ps_offset q) + span q) out)
        (encode_field va (names_in e) buf (base + unat (ps_offset q)) q input depth out)"
      using Cons.prems Some by (intro encode_within(2)) auto
    then show ?thesis using first Some by simp
  qed (use first in simp)
  have "part out' buf (base + unat (ps_offset p)) (span p) = part out1 buf (base + unat (ps_offset p)) (span p)"
    using Cons.prems rest only_present [OF only] only_length [OF only] by (intro Cons.IH) auto
  also have "\<dots> = part out buf (base + unat (ps_offset p)) (span p)"
    using Cons.prems(1,6) by (intro part_only [OF only]) (auto simp: apart_def)
  finally show ?case .
qed simp

section \<open>Decoding what the encoder left zero\<close>

lemma triple_zero: "triple 0 0 = replicate 16 0"
  using replicate_add [of 8 8 "0 :: u8"] replicate_add [of 4 4 "0 :: u8"]
  by (simp add: triple_def le_bytes_zero del: le_bytes.simps)

lemma zero_array:
  assumes "held_at m a (replicate 16 0)"
  shows "decode_array m rs a p depth = Done (array_arg (ps_name p) [])"
  using triple_read [of m a 0 0] assms unfolding triple_zero by (simp add: decode_array.simps)

lemma held_at_zeros: "held_at m a (replicate n 0) \<Longrightarrow> i + k \<le> n \<Longrightarrow> held_at m (a + of_nat i) (replicate k 0)"
  using held_at_part [of m a "replicate n 0" i k] by (simp add: min.absorb1)

lemma zeros_decode:
  fixes r :: "u32 \<Rightarrow> string"
  shows
  "fields_apart params \<Longrightarrow> held_at m a (replicate (span_fields params) 0) \<Longrightarrow>
     decode_fields m (names_out r) a params depth = Done (back_fields e r params [] depth)"
  "field_ok p \<Longrightarrow> held_at m a (replicate (span p) 0) \<Longrightarrow>
     decode_field m (names_out r) a p depth = Done (Some (back_field e r p None depth))"
proof (induction params and p arbitrary: a depth and a depth rule: fields_apart_field_ok.induct)
  case (2 param params)
  have h: "held_at m (a + of_nat i) (replicate k 0)" if "i + k \<le> span_fields (param # params)" for i k
    using held_at_zeros [OF 2(4) that] .
  have "decode_field m (names_out r) (a + ps_offset param) param depth = Done (Some (back_field e r param None depth))"
    using 2(3) h [of "unat (ps_offset param)" "span param"] by (intro 2(1)) simp_all
  moreover have "decode_fields m (names_out r) a params depth = Done (back_fields e r params [] depth)"
    using 2(3) h [of 0 "span_fields params"] by (intro 2(2)) simp_all
  ultimately show ?case by (simp add: find_input_def)
next
  case (3 p)
  consider "ps_type p = ''ArrayProperty''" | "ps_type p = ''StructProperty''"
    | "ps_type p \<notin> {''ArrayProperty'', ''StructProperty''}" by blast
  then show ?case
  proof cases
    case 1
    then show ?thesis using 3(4) zero_array [of m a "names_out r" p depth] by (simp add: decode_field.simps back_field.simps span_cases)
  next
    case 2
    then show ?thesis using 3 by (simp add: decode_field.simps back_field.simps span_cases field_ok.simps)
  next
    case 3
    then show ?thesis using 3(1) \<open>field_ok p\<close> \<open>held_at m a (replicate (span p) 0)\<close> zero_decodes [of "ps_type p" m a r e]
      by (simp add: decode_field.simps back_field.simps span_cases field_ok.simps)
  qed
qed simp

text \<open>A scalar or a string, written into a zeroed region.\<close>

lemma string_decodes:
  assumes "encode_str va buf off str out = Done out'" "blank out buf off 16" "length (utf8_to_utf16 str) + 1 < 2 ^ 31"
    "carries va m a (length (ep_pools out)) out' buf off 16"
  shows "decode_scalar m rs a ''StrProperty'' = Done (Some (text_arg (utf16_to_utf8 (Some (take (2 ^ 16) (utf8_to_utf16 str))))))"
proof (cases "str = []")
  case True
  have "present out buf" using assms(2) by (simp add: blank_def)
  then have "part out' buf off 16 = triple 0 0"
    using part_write [of buf off "replicate 16 0" out out'] assms(1) True by (simp add: encode_str_def triple_zero)
  then have "read_fstring m a = []"
    using triple_read [of m a 0 0] assms(4) by (simp add: carries_def read_fstring_def)
  moreover have "utf8_to_utf16 str = []" by (simp add: True utf8_to_utf16_def)
  ultimately show ?thesis by (simp add: decode_scalar_def utf16_to_utf8_def)
next
  case False
  have "present out buf" using assms(2) by (simp add: blank_def)
  note w = encode_str_part [OF assms(1) this False]
  have "read_fstring m a = utf16_to_utf8 (Some (take (2 ^ 16) (utf8_to_utf16 str)))"
    using w assms(4) by (intro string_read [OF _ _ assms(3), of m a "va (length (ep_pools out))"]) (auto simp: carries_def)
  then show ?thesis by (simp add: decode_scalar_def)
qed

section \<open>Encoding and decoding a tree\<close>

lemma lengths_find: "lengths_fit inputs \<Longrightarrow> find_input inputs name = Some i \<Longrightarrow> lengths_fit [i]"
  by (induction inputs rule: lengths_fit.induct) (auto simp: find_input_def split: if_split_asm)

lemma names_in_total [simp]: "\<not> encoder_crashes (names_in e)"
  by (auto simp: encoder_crashes_def)

lemma head_only:
  assumes "blank_fields out buf base (p # params)" "strides_fit (p # params)" "values_fit (p # params) inputs"
    "(case find_input inputs (ps_name p) of None \<Rightarrow> Done out
      | Some input \<Rightarrow> encode_field va enc buf (base + unat (ps_offset p)) p input depth out) = Done out1"
  shows "only buf (base + unat (ps_offset p)) (base + unat (ps_offset p) + span p) out out1"
proof (cases "find_input inputs (ps_name p)")
  case (Some input)
  have "guaranteed (encoder_crashes enc) (only buf (base + unat (ps_offset p)) (base + unat (ps_offset p) + span p) out)
      (encode_field va enc buf (base + unat (ps_offset p)) p input depth out)"
    using assms(1-3) Some by (intro encode_within(2)) (auto simp: blank_fields_def)
  then show ?thesis using assms(4) Some by simp
qed (use assms(4) in simp)

lemma blank_rest:
  assumes "blank_fields out buf base (p # params)" "list_all (apart p) params"
    "only buf (base + unat (ps_offset p)) (base + unat (ps_offset p) + span p) out out1"
  shows "blank_fields out1 buf base params"
proof -
  have "part out1 buf (base + unat (ps_offset q)) (span q) = replicate (span q) 0" if "q \<in> set params" for q
    using that assms(1,2) part_only [OF assms(3), of buf "base + unat (ps_offset q)" "span q"]
    by (fastforce simp: blank_fields_def list_all_iff apart_def)
  then show ?thesis
    using assms(1) only_present [OF assms(3)] only_length [OF assms(3)] by (auto simp: blank_fields_def)
qed

text \<open>The memory carries the first field of a list as its own encoding left it, and the rest as the whole list left it.\<close>

lemma carries_fields:
  assumes "blank_fields out buf base (p # params)" "strides_fit (p # params)" "values_fit (p # params) inputs"
    "list_all (apart p) params" "only buf (base + unat (ps_offset p)) (base + unat (ps_offset p) + span p) out out1"
    "encode_fields va (names_in e) buf base params inputs depth out1 = Done out'"
    "carries va m a (length (ep_pools out)) out' buf base (span_fields (p # params))"
  shows "carries va m (a + ps_offset p) (length (ep_pools out)) out1 buf (base + unat (ps_offset p)) (span p) \<and>
    carries va m a (length (ep_pools out1)) out' buf base (span_fields params)"
proof -
  have out1: "present out1 buf" "base + span_fields params \<le> length (buffer_bytes out1 buf)"
    using blank_rest [OF assms(1,4,5)] by (simp_all add: blank_fields_def)
  have o: "only buf base (base + span_fields params) out1 out'"
    using encode_within(1) [OF out1, of inputs "names_in e" va depth] assms(2,3,6) by simp
  have len: "base + span_fields (p # params) \<le> length (buffer_bytes out' buf)"
    using assms(1) only_length [OF o] only_length [OF assms(5)] out1 by (simp add: blank_fields_def)
  have "carries va m (a + of_nat (unat (ps_offset p))) (length (ep_pools out)) out' buf (base + unat (ps_offset p)) (span p)"
    using len by (intro carries_part [OF assms(7)]) simp_all
  then have p: "carries va m (a + ps_offset p) (length (ep_pools out)) out' buf (base + unat (ps_offset p)) (span p)" by simp
  have "carries va m (a + ps_offset p) (length (ep_pools out)) out1 buf (base + unat (ps_offset p)) (span p)"
  proof (rule carries_back [OF p o])
    show "part out' buf (base + unat (ps_offset p)) (span p) = part out1 buf (base + unat (ps_offset p)) (span p)"
      using assms(2,3,4,6) by (intro encode_fields_apart [OF out1]) simp_all
    show "buf \<noteq> Pool k" if "length (ep_pools out) \<le> k" for k
      using assms(1) that by (auto simp: blank_fields_def)
  qed
  moreover have "carries va m (a + of_nat 0) (length (ep_pools out)) out' buf (base + 0) (span_fields params)"
    using len by (intro carries_part [OF assms(7)]) simp_all
  ultimately show ?thesis using assms(5) by (simp add: carries_mono only_def)
qed

text \<open>The elements of an array: the first as its own encoding left it, the rest after it.\<close>

lemma carries_elements:
  assumes "only buf off (off + w) out out1" "only buf (off + w) (off + w + n) out1 out'" "present out buf"
    "off + (w + n) \<le> length (buffer_bytes out buf)" "carries va m a (length (ep_pools out)) out' buf off (w + n)"
  shows "carries va m a (length (ep_pools out)) out1 buf off w \<and>
    carries va m (a + of_nat w) (length (ep_pools out1)) out' buf (off + w) n"
proof -
  have p: "present out1 buf" using only_present [OF assms(1,3)] .
  have len: "off + (w + n) \<le> length (buffer_bytes out' buf)"
    using assms(4) only_length [OF assms(2) p] only_length [OF assms(1,3)] by simp
  have "carries va m a (length (ep_pools out)) out' buf off w"
    using carries_part [OF assms(5), of 0 w] len by simp
  then have "carries va m a (length (ep_pools out)) out1 buf off w"
    using assms(2,3) p by (rule carries_only) simp
  moreover have "carries va m (a + of_nat w) (length (ep_pools out)) out' buf (off + w) n"
    using carries_part [OF assms(5), of w n] len by simp
  ultimately show ?thesis using assms(1) by (simp add: carries_mono only_def)
qed

text \<open>The pool of an array, which the write of the header does not touch.\<close>

lemma carries_pool:
  assumes "write_triple buf off data num out = Done out'" "present out0 buf" "present out buf" "Suc k = length (ep_pools out0')"
    "k = length (ep_pools out0)" "length (ep_pools out0') \<le> length (ep_pools out)"
    "carries va m a (length (ep_pools out0)) out' buf off 16"
  shows "carries va m (va k) (length (ep_pools out0')) out (Pool k) 0 (length (ep_pools out ! k)) \<and> held_at m a (triple data num)"
proof -
  have "buf \<noteq> Pool j" if "k \<le> j" for j using that assms(2,5) by auto
  then have same: "length (ep_pools out') = length (ep_pools out)" "\<And>j. k \<le> j \<Longrightarrow> ep_pools out' ! j = ep_pools out ! j"
    using write_triple_pools [OF assms(1)] by blast+
  have "held_at m (va j) (ep_pools out ! j)" if "k \<le> j" "j < length (ep_pools out)" for j
    using assms(5,7) same that by (metis carries_def)
  then show ?thesis
    using assms(4,6,7) write_triple_part [OF assms(1,3)] by (simp add: carries_def part_def)
qed

lemma sized:
  assumes "value_fits p input" "ps_type p = ''ArrayProperty''"
  shows "unat (of_nat (length (pi_items input)) * ps_inner_size p) = length (pi_items input) * unat (ps_inner_size p)"
  using assms by (simp add: unat_word_ariths(2) value_fits.simps unat_of_nat mod_mult_left_eq)

text \<open>Reading the header of an array back.\<close>

lemma header_decodes:
  assumes "held_at m a (triple data n)" "held_at m data bs" "bs \<noteq> []" "0 < n" "n < 2 ^ 31" "ps_inner_size p \<noteq> 0"
    "decode_elements m rs data p depth (min n kMaxArrayElements) = Done xs"
  shows "decode_array m rs a p depth = Done (array_arg (ps_name p) xs)"
proof -
  have "data \<noteq> 0" "\<not> kCanonicalLimit \<le> data"
    using assms(2) held_at_below [OF assms(2,3)] by (simp_all add: held_at_def)
  then show ?thesis using triple_read [OF assms(1,5)] assms(4,6,7) by (simp add: decode_array.simps)
qed

lemma back_array:
  "ps_type p = ''ArrayProperty'' \<Longrightarrow> back_field e r p (Some input) depth =
     array_arg (ps_name p) (if pi_is_array input \<and> ps_inner_size p \<noteq> 0
       then map (\<lambda>x. back_item e r p x depth) (take kMaxArrayElements (pi_items input)) else [])"
  by (simp add: back_field.simps)

lemma lengths_in: "lengths_fit [i] \<Longrightarrow> lengths_fit (pi_items i)" "lengths_fit [i] \<Longrightarrow> length (pi_items i) < 2 ^ 31"
  "lengths_fit [i] \<Longrightarrow> length (utf8_to_utf16 (pi_text i)) + 1 < 2 ^ 31"
  by simp_all

text \<open>The pool of an array as the encoding of its elements left it, and its header.\<close>

lemma array_carries:
  assumes "encode_elements va (names_in e) (Pool (length (ep_pools out1))) 0 p (pi_items input) depth
      (new_pool (replicate (unat (of_nat (length (pi_items input)) * ps_inner_size p)) 0) out1) = Done out2"
    "write_triple buf off (va (length (ep_pools out1))) (length (pi_items input)) out2 = Done out'"
    "stride_fits p" "value_fits p input" "ps_type p = ''ArrayProperty''" "present out1 buf"
    "carries va m a (length (ep_pools out1)) out' buf off 16"
  shows "let k = length (ep_pools out1); n = length (pi_items input) * unat (ps_inner_size p)
    in carries va m (va k) (Suc k) out2 (Pool k) 0 n \<and> held_at m (va k) (ep_pools out2 ! k) \<and> length (ep_pools out2 ! k) = n \<and>
       held_at m a (triple (va k) (length (pi_items input)))"
proof -
  let ?k = "length (ep_pools out1)" and ?n = "length (pi_items input) * unat (ps_inner_size p)"
  let ?new = "new_pool (replicate (unat (of_nat (length (pi_items input)) * ps_inner_size p)) 0) out1"
  have "guaranteed (encoder_crashes (names_in e)) (only (Pool ?k) 0 (0 + ?n) ?new)
      (encode_elements va (names_in e) (Pool ?k) 0 p (pi_items input) depth ?new)"
    using assms(3-5) sized [OF assms(4,5)] by (intro encode_within(4)) (simp_all add: new_pool_def value_fits.simps)
  then have o: "only (Pool ?k) 0 (0 + ?n) ?new out2" using assms(1) by simp
  have "present ?new buf" using assms(6) by (cases buf) (simp_all add: new_pool_def)
  with o have pres: "present out2 buf" by (rule only_present)
  have le: "Suc ?k \<le> length (ep_pools out2)" using o by (simp add: only_def new_pool_def)
  have len: "length (ep_pools out2 ! ?k) = ?n"
    using only_length [OF o, of "Pool ?k"] le sized [OF assms(4,5)] by (simp add: new_pool_def)
  have c: "carries va m (va ?k) (Suc ?k) out2 (Pool ?k) 0 ?n \<and> held_at m a (triple (va ?k) (length (pi_items input)))"
    using carries_pool [OF assms(2,6) pres, of ?k ?new] le len assms(7) by (simp add: new_pool_def)
  have "part out2 (Pool ?k) 0 ?n = ep_pools out2 ! ?k" using le len by (simp add: part_def)
  with c len show ?thesis by (simp add: carries_def)
qed

text \<open>An array: its header, its pool and, through \<open>elements\<close>, what is in the pool.\<close>

lemma array_decodes:
  assumes "encode_array va (names_in e) buf off p input depth out = Done out'" "blank out buf off 16" "stride_fits p"
    "value_fits p input" "ps_type p = ''ArrayProperty''" "lengths_fit [input]"
    "carries va m a (length (ep_pools out)) out' buf off 16"
    and elements: "\<And>out1 out2 a n. write_at buf off (replicate 16 0) out = Done out1 \<Longrightarrow>
      \<not> (\<not> pi_is_array input \<or> pi_items input = [] \<or> ps_inner_size p = 0) \<Longrightarrow>
      encode_elements va (names_in e) (Pool (length (ep_pools out1))) 0 p (pi_items input) depth
        (new_pool (replicate (unat (of_nat (length (pi_items input)) * ps_inner_size p)) 0) out1) = Done out2 \<Longrightarrow>
      carries va m a (Suc (length (ep_pools out1))) out2 (Pool (length (ep_pools out1))) 0
        (length (pi_items input) * unat (ps_inner_size p)) \<Longrightarrow> n \<le> length (pi_items input) \<Longrightarrow>
      decode_elements m (names_out r) a p depth n = Done (map (\<lambda>x. back_item e r p x depth) (take n (pi_items input)))"
  shows "decode_array m (names_out r) a p depth = Done (back_field e r p (Some input) depth)"
proof -
  let ?count = "length (pi_items input)" and ?n = "length (pi_items input) * unat (ps_inner_size p)"
  let ?none = "\<not> pi_is_array input \<or> pi_items input = [] \<or> ps_inner_size p = 0"
  have pres: "present out buf" using assms(2) by (simp add: blank_def)
  obtain out1 where w: "write_at buf off (replicate 16 0) out = Done out1"
    using assms(1) by (auto simp: encode_array.simps gbind_Done)
  let ?k = "length (ep_pools out1)"
  let ?new = "new_pool (replicate (unat (of_nat ?count * ps_inner_size p)) 0) out1"
  have k: "?k = length (ep_pools out)" "present out1 buf" using write_at_pools [OF w] present_write [OF w pres] by auto
  show ?thesis
  proof (cases ?none)
    case True
    then have "out' = out1" using assms(1) w by (auto simp: encode_array.simps)
    then have "part out' buf off 16 = replicate 16 0" using part_write [OF w pres] by simp
    then show ?thesis
      using zero_array [of m a "names_out r" p depth] assms(7) True by (auto simp: carries_def back_array [OF assms(5)])
  next
    case False
    obtain out2 where written: "encode_elements va (names_in e) (Pool ?k) 0 p (pi_items input) depth ?new = Done out2"
      and header: "write_triple buf off (va ?k) ?count out2 = Done out'"
      using assms(1) w False by (auto simp: encode_array.simps gbind_Done Let_def)
    have c: "carries va m (va ?k) (Suc ?k) out2 (Pool ?k) 0 ?n" "held_at m (va ?k) (ep_pools out2 ! ?k)"
      "length (ep_pools out2 ! ?k) = ?n" "held_at m a (triple (va ?k) ?count)"
      using array_carries [OF written header assms(3-5) k(2)] assms(7) k(1) by (simp_all add: Let_def)
    have el: "decode_elements m (names_out r) (va ?k) p depth (min ?count kMaxArrayElements) =
        Done (map (\<lambda>x. back_item e r p x depth) (take (min ?count kMaxArrayElements) (pi_items input)))"
      using c(1) by (intro elements [OF w False written]) simp_all
    have "decode_array m (names_out r) a p depth = Done (array_arg (ps_name p)
        (map (\<lambda>x. back_item e r p x depth) (take (min ?count kMaxArrayElements) (pi_items input))))"
    proof (rule header_decodes [OF c(4,2) _ _ _ _ el])
      have "0 < ?n" using False by (simp add: unat_gt_0)
      then show "ep_pools out2 ! ?k \<noteq> []" unfolding c(3) [symmetric] by (rule length_greater_0_conv [THEN iffD1])
    qed (use False lengths_in(2) [OF assms(6)] in auto)
    moreover have "take (min ?count kMaxArrayElements) (pi_items input) = take kMaxArrayElements (pi_items input)"
      by (simp add: min_def)
    ultimately show ?thesis using False by (simp add: back_array [OF assms(5)])
  qed
qed

text \<open>One element of an array.\<close>

abbreviation encode_item where
  "encode_item va enc buf off p item depth out \<equiv>
     (if struct_elements p then
        (if depth < kMaxStructDepth
         then encode_fields va enc buf off (ps_fields p) (pi_items item) (depth + 1) out else Done out)
      else if ps_inner_type p = ''StrProperty'' then encode_str va buf off (pi_text item) out
      else encode_scalar enc buf off (ps_inner_type p) item out)"

lemma elements_only:
  assumes "encode_item va enc buf off p item depth out = Done out1"
    "encode_elements va enc buf (off + unat (ps_inner_size p)) p items depth out1 = Done out'" "present out buf"
    "off + length (item # items) * unat (ps_inner_size p) \<le> length (buffer_bytes out buf)" "stride_fits p"
    "ps_type p = ''ArrayProperty''" "\<forall>x \<in> set (item # items). item_fits p x"
  shows "only buf off (off + unat (ps_inner_size p)) out out1 \<and>
    only buf (off + unat (ps_inner_size p)) (off + unat (ps_inner_size p) + length items * unat (ps_inner_size p)) out1 out'"
proof
  have "encode_elements va enc buf off p [item] depth out = Done out1"
    using assms(1) by (simp only: encode_elements.simps gbind_Done) blast
  then show o: "only buf off (off + unat (ps_inner_size p)) out out1"
    using encode_within(4) [of out buf off "[item]" p enc va depth] assms(3-7) by simp
  show "only buf (off + unat (ps_inner_size p)) (off + unat (ps_inner_size p) + length items * unat (ps_inner_size p)) out1 out'"
    using encode_within(4) [of out1 buf "off + unat (ps_inner_size p)" items p enc va depth]
      only_present [OF o assms(3)] only_length [OF o assms(3)] assms(2,4-7) by simp
qed

text \<open>Its decoding, when the elements are not structs.\<close>

lemma scalar_item_decodes:
  assumes "encode_item va (names_in e) buf off p item depth out = Done out1" "\<not> struct_elements p" "encodable (ps_inner_type p)"
    "blank out buf off (width (ps_inner_type p))" "length (utf8_to_utf16 (pi_text item)) + 1 < 2 ^ 31"
    "carries va m a (length (ep_pools out)) out1 buf off (width (ps_inner_type p))"
  shows "decode_scalar m (names_out r) a (ps_inner_type p) = Done (Some (back_item e r p item depth))"
proof (cases "ps_inner_type p = ''StrProperty''")
  case True
  then show ?thesis
    using string_decodes [of va buf off "pi_text item" out out1 m a "names_out r"] assms
    by (simp add: back_item.simps back_scalar_def width_def)
next
  case False
  then show ?thesis
    using scalar_decodes [of e buf off "ps_inner_type p" item out out1 m a r] assms
    by (simp add: back_item.simps blank_def carries_def)
qed

lemma item_decodes:
  assumes head: "encode_item va (names_in e) buf off p item depth out = Done out1"
    and b: "blank out buf off (unat (ps_inner_size p))" and "ps_type p = ''ArrayProperty''" "stride_fits p" "field_ok p"
    "lengths_fit [item]" and o: "only buf off (off + unat (ps_inner_size p)) out out1"
    and c: "carries va m a (length (ep_pools out)) out1 buf off (unat (ps_inner_size p))"
    and struct: "struct_elements p \<Longrightarrow> depth < kMaxStructDepth \<Longrightarrow> blank_fields out buf off (ps_fields p) \<Longrightarrow>
      carries va m a (length (ep_pools out)) out1 buf off (span_fields (ps_fields p)) \<Longrightarrow>
      decode_fields m (names_out r) a (ps_fields p) (depth + 1) = Done (back_fields e r (ps_fields p) (pi_items item) (depth + 1))"
    and tail: "decode_elements m (names_out r) (a + ps_inner_size p) p depth k = Done xs"
  shows "decode_elements m (names_out r) a p depth (Suc k) = Done (back_item e r p item depth # xs)"
proof -
  have "present out buf" using b by (simp add: blank_def)
  then have len: "off + unat (ps_inner_size p) \<le> length (buffer_bytes out1 buf)"
    using b only_length [OF o] by (simp add: blank_def)
  show ?thesis
  proof (cases "struct_elements p")
    case True
    then have "span_fields (ps_fields p) \<le> unat (ps_inner_size p)" using assms(3,4) by (simp add: stride_fits.simps)
    then have "(if depth < kMaxStructDepth then decode_fields m (names_out r) a (ps_fields p) (depth + 1) else Done []) =
        Done (if depth < kMaxStructDepth then back_fields e r (ps_fields p) (pi_items item) (depth + 1) else [])"
      using struct [OF True] blank_struct [of out buf off "ps_fields p"] blank_part [OF b, of 0] carries_part [OF c, of 0] len
      by (cases "depth < kMaxStructDepth") simp_all
    then show ?thesis using tail True by (simp add: back_item.simps)
  next
    case False
    then have "width (ps_inner_type p) \<le> unat (ps_inner_size p)" using assms(3,4) by (simp add: stride_fits.simps)
    then have "decode_scalar m (names_out r) a (ps_inner_type p) = Done (Some (back_item e r p item depth))"
      using scalar_item_decodes [OF head False] False assms(3,5,6) blank_part [OF b, of 0] carries_part [OF c, of 0] len
      by (simp add: field_ok.simps)
    then show ?thesis using tail False by simp
  qed
qed

lemma encoded_decodes:
  fixes va :: "nat \<Rightarrow> u64" and r :: "u32 \<Rightarrow> string"
  shows
  "encode_fields va enc buf base params inputs depth out = Done out' \<Longrightarrow> enc = names_in e \<Longrightarrow>
     blank_fields out buf base params \<Longrightarrow> strides_fit params \<Longrightarrow> values_fit params inputs \<Longrightarrow> fields_apart params \<Longrightarrow>
     lengths_fit inputs \<Longrightarrow> carries va m a (length (ep_pools out)) out' buf base (span_fields params) \<Longrightarrow>
     decode_fields m (names_out r) a params depth = Done (back_fields e r params inputs depth)"
  "encode_field va enc buf off p input depth out = Done out' \<Longrightarrow> enc = names_in e \<Longrightarrow>
     blank out buf off (span p) \<Longrightarrow> stride_fits p \<Longrightarrow> value_fits p input \<Longrightarrow> field_ok p \<Longrightarrow>
     lengths_fit [input] \<Longrightarrow> carries va m a (length (ep_pools out)) out' buf off (span p) \<Longrightarrow>
     decode_field m (names_out r) a p depth = Done (Some (back_field e r p (Some input) depth))"
  "encode_array va enc buf off p input depth out = Done out' \<Longrightarrow> enc = names_in e \<Longrightarrow>
     blank out buf off 16 \<Longrightarrow> stride_fits p \<Longrightarrow> value_fits p input \<Longrightarrow> field_ok p \<Longrightarrow>
     lengths_fit [input] \<Longrightarrow> ps_type p = ''ArrayProperty'' \<Longrightarrow> carries va m a (length (ep_pools out)) out' buf off 16 \<Longrightarrow>
     decode_array m (names_out r) a p depth = Done (back_field e r p (Some input) depth)"
  "encode_elements va enc buf off p items depth out = Done out' \<Longrightarrow> enc = names_in e \<Longrightarrow>
     blank out buf off (length items * unat (ps_inner_size p)) \<Longrightarrow> stride_fits p \<Longrightarrow> \<forall>x \<in> set items. item_fits p x \<Longrightarrow>
     field_ok p \<Longrightarrow> lengths_fit items \<Longrightarrow> ps_type p = ''ArrayProperty'' \<Longrightarrow>
     carries va m a (length (ep_pools out)) out' buf off (length items * unat (ps_inner_size p)) \<Longrightarrow> n \<le> length items \<Longrightarrow>
     decode_elements m (names_out r) a p depth n = Done (map (\<lambda>x. back_item e r p x depth) (take n items))"
proof (induction va enc buf base params inputs depth out and va enc buf off p input depth out
    and va enc buf off p input depth out and va enc buf off p items depth out
    arbitrary: out' a and out' a and out' a and out' a n
    rule: encode_fields_encode_field_encode_array_encode_elements.induct)
  case (2 va enc buf base p params inputs depth out)
  obtain out1 where first: "(case find_input inputs (ps_name p) of None \<Rightarrow> Done out
      | Some input \<Rightarrow> encode_field va enc buf (base + unat (ps_offset p)) p input depth out) = Done out1"
    and rest: "encode_fields va enc buf base params inputs depth out1 = Done out'"
    using 2(3) by (auto simp: gbind_Done)
  have apart: "list_all (apart p) params" using 2(8) by simp
  have only: "only buf (base + unat (ps_offset p)) (base + unat (ps_offset p) + span p) out out1"
    using 2(5-7) first by (rule head_only)
  have c: "carries va m (a + ps_offset p) (length (ep_pools out)) out1 buf (base + unat (ps_offset p)) (span p)"
    "carries va m a (length (ep_pools out1)) out' buf base (span_fields params)"
    using carries_fields [OF 2(5-7) apart only, of va e depth out' m a] rest 2(4,10) by auto
  have "decode_fields m (names_out r) a params depth = Done (back_fields e r params inputs depth)"
    using 2(4,6-9) blank_rest [OF 2(5) apart only] rest c(2) by (intro 2(2)) simp_all
  moreover have "decode_field m (names_out r) (a + ps_offset p) p depth =
      Done (Some (back_field e r p (find_input inputs (ps_name p)) depth))"
  proof (cases "find_input inputs (ps_name p)")
    case None
    have "part out buf (base + unat (ps_offset p)) (span p) = replicate (span p) 0"
      using blank_field [OF 2(5), of p] by (simp add: blank_def)
    then show ?thesis
      using zeros_decode(2) [of p m "a + ps_offset p" r depth e] c(1) first 2(8) None by (simp add: carries_def)
  next
    case (Some input)
    then show ?thesis
      unfolding Some
      by (intro 2(1)) (use 2(4,6-8) first c(1) blank_field [OF 2(5), of p] lengths_find [OF 2(9) Some] Some in simp_all)
  qed
  ultimately show ?case by simp
next
  case (3 va enc buf off p input depth out)
  consider "ps_type p = ''ArrayProperty''" | "ps_type p = ''StructProperty''" | "ps_type p = ''StrProperty''"
    | "ps_type p \<notin> {''ArrayProperty'', ''StructProperty'', ''StrProperty''}" by blast
  then show ?case
  proof cases
    case 1
    then show ?thesis using 3 by (simp add: encode_field.simps span_cases decode_field.simps)
  next
    case 2
    then show ?thesis using 3(2-) lengths_in(1) [OF 3(9)]
      by (cases "depth < kMaxStructDepth")
        (simp_all add: encode_field.simps decode_field.simps back_field.simps stride_fits.simps
          value_fits.simps field_ok.simps span_cases blank_struct)
  next
    case str: 3
    then show ?thesis
      using string_decodes [of va buf off "pi_text input" out out' m a "names_out r"] 3(3-) lengths_in(3) [OF 3(9)]
      by (simp add: encode_field.simps decode_field.simps back_field.simps back_scalar_def span_cases)
  next
    case 4
    then show ?thesis
      using scalar_decodes [of e buf off "ps_type p" input out out' m a r] 3(3-)
      by (simp add: encode_field.simps decode_field.simps back_field.simps field_ok.simps span_cases blank_def carries_def)
  qed
next
  case (4 va enc buf off p input depth out)
  show ?case
  proof (rule array_decodes [OF 4(2) [unfolded 4(3)] 4(4-6,9,8,10)], goal_cases)
    case (1 out1 out2 a n)
    let ?k = "length (ep_pools out1)"
    let ?new = "new_pool (replicate (unat (of_nat (length (pi_items input)) * ps_inner_size p)) 0) out1"
    show ?case
    proof (rule 4(1) [OF 1(2) refl refl refl])
      show "encode_elements va enc (Pool ?k) 0 p (pi_items input) depth ?new = Done out2" using 1(3) 4(3) by simp
      show "blank ?new (Pool ?k) 0 (length (pi_items input) * unat (ps_inner_size p))"
        using sized [OF 4(6,9)] by (simp add: blank_def part_def new_pool_def)
      show "carries va m a (length (ep_pools ?new)) out2 (Pool ?k) 0 (length (pi_items input) * unat (ps_inner_size p))"
        using 1(4) by (simp add: new_pool_def)
      show "\<forall>x \<in> set (pi_items input). item_fits p x" using 4(6,9) by (simp add: value_fits.simps)
      show "n \<le> length (pi_items input)" using 1(5) .
    qed (use 4(3-) lengths_in(1) [OF 4(8)] in blast)+
  qed
next
  case (6 va enc buf off p item items depth out)
  let ?w = "unat (ps_inner_size p)"
  obtain out1 where head: "encode_item va enc buf off p item depth out = Done out1"
    and rest: "encode_elements va enc buf (off + ?w) p items depth out1 = Done out'"
    using 6(3) by (auto simp: gbind_Done)
  have pres: "present out buf" "off + length (item # items) * ?w \<le> length (buffer_bytes out buf)"
    using 6(5) by (auto simp: blank_def)
  have o: "only buf off (off + ?w) out out1" "only buf (off + ?w) (off + ?w + length items * ?w) out1 out'"
    using elements_only [OF head rest pres 6(6,10,7)] by auto
  have c: "carries va m a (length (ep_pools out)) out1 buf off ?w"
    "carries va m (a + ps_inner_size p) (length (ep_pools out1)) out' buf (off + ?w) (length items * ?w)"
    using carries_elements [OF o pres(1), of va m a] pres(2) 6(11) by auto
  show ?case
  proof (cases n)
    case (Suc k)
    have "blank out1 buf (off + ?w) (length items * ?w)"
      using blank_part [OF 6(5), of ?w "length items * ?w"] blank_only [OF o(1)] by simp
    then have tail: "decode_elements m (names_out r) (a + ps_inner_size p) p depth k =
        Done (map (\<lambda>x. back_item e r p x depth) (take k items))"
      using rest c(2) 6(4,6-10,12) Suc by (intro 6(2)) simp_all
    have b: "blank out buf off ?w" using blank_part [OF 6(5), of 0 ?w] by simp
    have fit: "lengths_fit [item]" using 6(9) by simp
    have "decode_elements m (names_out r) a p depth (Suc k) =
        Done (back_item e r p item depth # map (\<lambda>x. back_item e r p x depth) (take k items))"
    proof (rule item_decodes [OF head [unfolded 6(4)] b 6(10,6,8) fit o(1) c(1) _ tail])
      assume "struct_elements p" "depth < kMaxStructDepth" "blank_fields out buf off (ps_fields p)"
        "carries va m a (length (ep_pools out)) out1 buf off (span_fields (ps_fields p))"
      then show "decode_fields m (names_out r) a (ps_fields p) (depth + 1) =
          Done (back_fields e r (ps_fields p) (pi_items item) (depth + 1))"
        using 6(1) [of out1 a] head 6(4,6-10) by (simp add: stride_fits.simps item_fits.simps field_ok.simps)
    qed
    then show ?thesis using Suc by simp
  qed simp
qed simp_all

text \<open>A text that is the UTF-8 encoding of at most 65536 units of scalar values comes back unchanged, and so
  does a name the pool resolves.\<close>

lemma back_text:
  assumes "\<forall>cp \<in> set cps. scalar_value cp" "pi_text i = concat (map (append_utf8_cp []) cps)"
    "length (utf8_to_utf16 (pi_text i)) \<le> 2 ^ 16"
  shows "back_scalar e r ''StrProperty'' (Some i) = text_arg (pi_text i)"
  using utf8_roundtrip_scalars [OF assms(1,2)] assms(3) by (simp add: back_scalar_def)

lemma back_name: "r (e (pi_text i)) = pi_text i \<Longrightarrow> back_scalar e r ''NameProperty'' (Some i) = text_arg (pi_text i)"
  by (simp add: back_scalar_def)


section \<open>A sample memory\<close>

text \<open>An image holds each of its segments, when they follow one another below the canonical limit.\<close>

lemma held_at_image: "va \<noteq> 0 \<Longrightarrow> unat va + length bs \<le> 2 ^ 48 \<Longrightarrow> held_at (image ((va, bs) # segments)) va bs"
  by (auto simp: held_at_def Let_def unat_of_nat)

lemma held_at_image_skip:
  assumes "held_at (image segments) a bs" "unat va + length vs \<le> unat a"
  shows "held_at (image ((va, vs) # segments)) a bs"
proof -
  have "unat (a + of_nat i - va) = unat a + i - unat va" if "i < length bs" for i
  proof -
    have "unat (a + of_nat i) = unat a + i" using assms(1) that by (intro unat_offset) (simp add: held_at_def)
    then show ?thesis using assms(2) by (subst unat_sub) (simp_all add: word_le_nat_alt)
  qed
  then show ?thesis using assms by (auto simp: held_at_def Let_def)
qed

definition sample_va :: "nat \<Rightarrow> u64" where
  "sample_va k = 0x5000 + of_nat k * 0x100"

definition sample_out :: encoded_parms where
  "sample_out =
     \<lparr>ep_parms = [7, 0, 0, 0, 0, 0, 0, 0, 0, 0x50, 0, 0, 0, 0, 0, 0, 5, 0, 0, 0, 5, 0, 0, 0,
        0, 0x51, 0, 0, 0, 0, 0, 0, 2, 0, 0, 0, 2, 0, 0, 0],
      ep_pools = [[87, 0, 111, 0, 111, 0, 100, 0, 0, 0], [255, 255, 3, 0]]\<rparr>"

definition sample_image :: mem where
  "sample_image = image
     ((0x1000, ep_parms sample_out) # (0x5000, ep_pools sample_out ! 0) # [(0x5100, ep_pools sample_out ! 1)])"

lemma le_bytes_numeral: "le_bytes (numeral k) v = of_nat v # le_bytes (pred_numeral k) (v div 256)"
  by (simp only: numeral_eq_Suc le_bytes.simps)

lemma replicate_unfold: "replicate (numeral k) x = x # replicate (pred_numeral k) x"
  by (simp add: numeral_eq_Suc)

lemma sample_units: "utf8_to_utf16 ''Wood'' = [87, 111, 111, 100]"
  by (simp add: utf8_to_utf16_def utf8_loop.simps decode_utf8_def Let_def byte_of_def push_utf16_def)

lemmas double_eval = cast_ok_def isfinite_def double_exp_def double_trunc_def double_quotient_def double_frac_def double_neg_def

lemma sample_casts:
  "cast_int lo hi 0x401c000000000000 = (if lo \<le> 7 \<and> 7 \<le> hi then Done 7 else Crash)"
  "cast_int lo hi 0x4008000000000000 = (if lo \<le> 3 \<and> 3 \<le> hi then Done 3 else Crash)"
  "cast_int lo hi 0xbff0000000000000 = (if lo \<le> -1 \<and> -1 \<le> hi then Done (-1) else Crash)"
  by (simp_all add: cast_int_def double_eval)

lemma sample_encoded: "encode_parms sample_va 40 sample_params sample_inputs (names_in (\<lambda>_. 0)) = Done sample_out"
proof -
  have units: "unit_bytes [87, 111, 111, 100, 0] = [87, 0, 111, 0, 111, 0, 100, 0, 0, 0]"
    by (simp add: unit_bytes_def le_bytes_numeral)
  show ?thesis
    by (simp add: encode_parms_def sample_params_def sample_inputs_def find_input_def encode_field.simps encode_array.simps
        encode_scalar_def write_int_def sample_casts encode_str_def sample_units units write_triple_def write_at_def
        new_pool_def splice_def struct_elements_def le_bytes_numeral replicate_unfold Let_def sample_va_def sample_out_def)
qed

lemma sample_held:
  "held_at sample_image 0x1000 (ep_parms sample_out)"
  "\<forall>k < length (ep_pools sample_out). held_at sample_image (sample_va k) (ep_pools sample_out ! k)"
proof -
  show "held_at sample_image 0x1000 (ep_parms sample_out)"
    unfolding sample_image_def by (intro held_at_image) (simp_all add: sample_out_def)
  have "held_at sample_image 0x5000 (ep_pools sample_out ! 0)" "held_at sample_image 0x5100 (ep_pools sample_out ! 1)"
    unfolding sample_image_def by (intro held_at_image_skip held_at_image; simp add: sample_out_def)+
  then show "\<forall>k < length (ep_pools sample_out). held_at sample_image (sample_va k) (ep_pools sample_out ! k)"
    by (simp add: sample_va_def sample_out_def less_Suc_eq)
qed

lemma sample_back:
  "back_fields (\<lambda>_. 0) r sample_params sample_inputs 0 =
     [EventArg ''Count'' False [] (double_of_int 7) False False [], EventArg ''Item'' True ''Wood'' 0 False False [],
      EventArg ''Slots'' False [] 0 True False [number_arg (double_of_int (- 1)), number_arg (double_of_int 3)]]"
proof -
  have "utf16_to_utf8 (Some [87, 111, 111, 100]) = ''Wood''"
    by (simp add: utf16_to_utf8_def is_high_def is_low_def append_utf8_cp_def utf8_char_def char_of_eq_code)
  then show ?thesis
    by (simp add: sample_params_def sample_inputs_def find_input_def back_field.simps back_item.simps back_scalar_def
        struct_elements_def number_back_def double_eval sample_units array_arg_def text_arg_def number_arg_def with_name_def
        kMaxArrayElements_def Let_def)
qed


section \<open>Properties\<close>

text \<open>C22: Parameters survive the trip through a buffer.  When the fields of a layout lie apart and
  are of types the encoder writes, the numbers convert and the lengths fit, encoding succeeds and
  fills a buffer of the requested size; and in any memory in which the buffer and its pools lie at
  their addresses, the decoder gives back the tree of the inputs: under each field its number
  (narrowed to the field's type; a byte from 128 up as a negative number), its text (as UTF-16 can
  carry it, at most 65536 units), its name, its first 4096 elements, the members of its struct down
  to depth 8, and zero values where there was no input.\<close>

theorem encode_decode_roundtrip:
  assumes "span_fields params \<le> parms_size" "strides_fit params" "fields_apart params" "values_fit params inputs"
    "lengths_fit inputs"
  shows "\<exists>out. encode_parms pool_va parms_size params inputs (Some (\<lambda>s. Done (e s))) = Done out \<and>
    length (ep_parms out) = parms_size \<and>
    (\<forall>m parms. held_at m parms (ep_parms out) \<and>
         (\<forall>k < length (ep_pools out). held_at m (pool_va k) (ep_pools out ! k)) \<longrightarrow>
       decode_parms m parms params (Some (\<lambda>i. Done (r i))) = Done (back_fields e r params inputs 0))"
proof -
  let ?out = "\<lparr>ep_parms = replicate parms_size 0, ep_pools = []\<rparr>"
  have "guaranteed False (only Parms 0 (0 + span_fields params) ?out) (encode_parms pool_va parms_size params inputs (names_in e))"
    using encode_within(1) [of ?out Parms 0 params inputs "names_in e" pool_va 0] assms by (simp add: encode_parms_def)
  then obtain out where out: "encode_parms pool_va parms_size params inputs (names_in e) = Done out"
    and len: "length (ep_parms out) = parms_size"
    using only_length [of Parms _ _ ?out _ Parms] by (auto simp: guaranteed_def split: guarded.splits)
  have "decode_parms m parms params (names_out r) = Done (back_fields e r params inputs 0)"
    if m: "held_at m parms (ep_parms out)" "\<forall>k < length (ep_pools out). held_at m (pool_va k) (ep_pools out ! k)" for m parms
  proof -
    have "blank ?out Parms 0 (span_fields params)" using assms(1) by (simp add: blank_def part_def min.absorb1)
    moreover have "carries pool_va m parms 0 out Parms 0 (span_fields params)"
      using held_at_part [OF m(1), of 0 "span_fields params"] m(2) len assms(1) by (simp add: carries_def part_def)
    ultimately have "decode_fields m (names_out r) parms params 0 = Done (back_fields e r params inputs 0)"
      using assms(2-) out by (intro encoded_decodes(1) [of pool_va "names_in e" Parms 0 params inputs 0 ?out out])
        (simp_all add: encode_parms_def blank_struct)
    then show ?thesis using m(1) by (simp add: decode_parms_def held_at_def)
  qed
  with out len show ?thesis by blast
qed

theorem encode_decode_roundtrip_witness:
  "encode_parms sample_va 40 sample_params sample_inputs (Some (\<lambda>s. Done 0)) = Done sample_out \<and>
   decode_parms sample_image 0x1000 sample_params (Some (\<lambda>i. Done ''None'')) =
     Done [EventArg ''Count'' False [] (double_of_int 7) False False [], EventArg ''Item'' True ''Wood'' 0 False False [],
       EventArg ''Slots'' False [] 0 True False [number_arg (double_of_int (- 1)), number_arg (double_of_int 3)]]"
proof -
  have "span_fields sample_params \<le> 40" "strides_fit sample_params" "fields_apart sample_params"
    by (simp_all add: sample_params_def span.simps width_def stride_fits.simps struct_elements_def field_ok.simps apart_def encodable_def)
  moreover have "values_fit sample_params sample_inputs" "lengths_fit sample_inputs"
    by (simp_all add: sample_params_def sample_inputs_def find_input_def value_fits.simps item_fits.simps number_fits_def
        struct_elements_def double_eval sample_units) (simp_all add: utf8_to_utf16_def)
  ultimately show ?thesis
    using encode_decode_roundtrip [of sample_params 40 sample_inputs sample_va "\<lambda>_. 0" "\<lambda>_. ''None''"]
      sample_encoded sample_held sample_back [of "\<lambda>_. ''None''"] by fastforce
qed

end
