(* ===== verification/Spec2Isabelle.thy ===== *)
theory Spec2Isabelle
  imports
    Palmod_Log
    Palmod_Utf16
    Palmod_Handle_Table
    Palmod_Backend
    Palmod_Control_Server
    Palmod_Start_Stop
    Palmod_Lua_State
    Palmod_Bootstrap
    Palmod_Parms_Roundtrip
begin

text \<open>
  This library verifies the native loader of palmod, the plug-in runtime for a game server under
  \<^verbatim>\<open>native/\<close>.  The loader is preloaded into the server process, checks that it knows the exact
  executable it runs in, loads Lua plug-ins, hooks a few pointers of the game, turns chat and hooked
  calls into commands and events for the plug-ins, and runs the actions they request on the game
  thread.  An operator talks to it over a local socket.

  \<^bold>\<open>Theories and sources\<close> (under \<^verbatim>\<open>native/src\<close> and \<^verbatim>\<open>native/include/palmod\<close>)

  \<^item> \<^verbatim>\<open>Palmod_Prelude\<close>: ordered maps (\<^verbatim>\<open>std::map\<close>) as sorted association lists behind the locale
    \<open>ordered_map\<close>, outcomes (\<open>Inl\<close> an error text), the C
    character classes.
  \<^item> \<^verbatim>\<open>Palmod_Double\<close>, \<^verbatim>\<open>Palmod_Json\<close>, \<^verbatim>\<open>Palmod_Json_Correct\<close>: \<^verbatim>\<open>json.cpp\<close>.
    The parser is total; printing and parsing are inverse.
  \<^item> \<^verbatim>\<open>Palmod_Log\<close>: \<^verbatim>\<open>json_log.cpp\<close>.  A log record, with its time stamp, is one line.
  \<^item> \<^verbatim>\<open>Palmod_Sha256\<close>: \<^verbatim>\<open>sha256.cpp\<close>.  The streaming hash equals pad-and-fold.
  \<^item> \<^verbatim>\<open>Palmod_Utf16\<close>: \<^verbatim>\<open>utf16.cpp\<close>.  The transcoders are inverse up to unpaired surrogates.
  \<^item> \<^verbatim>\<open>Palmod_Handle_Table\<close>: \<^verbatim>\<open>handle_table.hpp\<close>.  It refines a map; a dead handle stays dead for
    $2^{32} - 2$ operations.
  \<^item> \<^verbatim>\<open>Palmod_Types\<close>, \<^verbatim>\<open>Palmod_Action_Queue\<close>: \<^verbatim>\<open>types.hpp\<close>, \<^verbatim>\<open>action_queue.cpp\<close>.  A bounded FIFO under
    every interleaving, drained by one thread; the locale \<open>bounded_queue\<close> also serves the plug-in queues.
  \<^item> \<^verbatim>\<open>Palmod_Command_Router\<close>: \<^verbatim>\<open>command_router.cpp\<close> and the operator's command line of
    \<^verbatim>\<open>runtime.cpp\<close>.  Only registered commands are dispatched, with the permission they ask for;
    the locale \<open>dispatcher\<close> is what routing needs of a dispatcher.
  \<^item> \<^verbatim>\<open>Palmod_Build_Profile\<close>, \<^verbatim>\<open>Palmod_Fingerprint\<close>, \<^verbatim>\<open>Palmod_Profile_Gate\<close>: \<^verbatim>\<open>build_profile.cpp\<close>,
    \<^verbatim>\<open>fingerprint.cpp\<close> and the checks of \<^verbatim>\<open>runtime.cpp\<close> before anything is started.
  \<^item> \<^verbatim>\<open>Palmod_Player_Directory\<close>: \<^verbatim>\<open>player_directory.cpp\<close>.  Names resolve only when unambiguous.
  \<^item> \<^verbatim>\<open>Palmod_Memory\<close>, \<^verbatim>\<open>Palmod_Fname_Pool\<close>, \<^verbatim>\<open>Palmod_Object_Array\<close>, \<^verbatim>\<open>Palmod_Parms_Decode\<close>,
    \<^verbatim>\<open>Palmod_Parms_Encode\<close>, \<^verbatim>\<open>Palmod_Reflection\<close>: \<^verbatim>\<open>invoke.cpp\<close>, \<^verbatim>\<open>object_walk.cpp\<close>, \<^verbatim>\<open>fname_pool.cpp\<close>,
    \<^verbatim>\<open>object_array.cpp\<close>, \<^verbatim>\<open>player_auth.cpp\<close>, \<^verbatim>\<open>parms_decode.cpp\<close>, \<^verbatim>\<open>parms_encode.cpp\<close>,
    \<^verbatim>\<open>reflect_layout.cpp\<close>, \<^verbatim>\<open>reflection_reader.cpp\<close>.  Memory is a partial map from addresses to bytes; a
    plain read of an unmapped byte is the value \<open>Crash\<close>.  Searches with and without the class cache
    agree, decoding gives values of the shape of the layout, encoding stays in its buffers, the
    administrator check fails closed.
  \<^item> \<^verbatim>\<open>Palmod_Parms_Bytes\<close>, \<^verbatim>\<open>Palmod_Parms_Roundtrip\<close>: what the encoder writes, the decoder reads back, for whole trees of
    structs, arrays, strings and names.
  \<^item> \<^verbatim>\<open>Palmod_Plugin_Manifest\<close>, \<^verbatim>\<open>Palmod_Lua_Api\<close>, \<^verbatim>\<open>Palmod_Plugin_Instance\<close>, \<^verbatim>\<open>Palmod_Plugin_Runtime\<close>:
    \<^verbatim>\<open>plugin_runtime.cpp\<close>.  One worker thread per plug-in is a step relation that interleaves with its
    callers: it runs what was accepted, once and in order, and drains after a stop.
  \<^item> \<^verbatim>\<open>Palmod_Lua_State\<close>: \<^verbatim>\<open>plugin_runtime.cpp\<close>.  What a script finds: the opened libraries, the removed
    globals, the table \<open>palmod\<close>, the order of the initialization, and a callback from its look-up to
    the log record of its failure; the waits for idle plug-ins.
  \<^item> \<^verbatim>\<open>Palmod_Runtime\<close>: \<^verbatim>\<open>runtime.cpp\<close>.  The life cycle, the reload of the plug-in set and the control
    requests, with an invariant of all reachable states of entry points that run one at a time.
  \<^item> \<^verbatim>\<open>Palmod_Start_Stop\<close>: \<^verbatim>\<open>runtime.cpp\<close>.  Start, stop and the directory watch as threads whose steps
    interleave.  Alone they compose to the functions of \<^verbatim>\<open>Palmod_Runtime\<close>; together they keep an
    invariant, a stop ends, and two schedules show what a stop during a start can leave behind.
  \<^item> \<^verbatim>\<open>Palmod_Bootstrap\<close>: \<^verbatim>\<open>bootstrap.cpp\<close> and the start of the process-wide runtime.
  \<^item> \<^verbatim>\<open>Palmod_Sample\<close>: a concrete environment in which the runtime starts.
  \<^item> \<^verbatim>\<open>Palmod_Hooks\<close>, \<^verbatim>\<open>Palmod_Resolver\<close>, \<^verbatim>\<open>Palmod_Chat\<close>, \<^verbatim>\<open>Palmod_Backend\<close>: the pointer slots and hook table
    (\<^verbatim>\<open>generic_hook.cpp\<close>), \<^verbatim>\<open>reflection_resolver.cpp\<close>, \<^verbatim>\<open>chat_message.cpp\<close>, \<^verbatim>\<open>chat_hook.cpp\<close>,
    \<^verbatim>\<open>reflection_backend.cpp\<close>, \<^verbatim>\<open>generic_call.cpp\<close>, \<^verbatim>\<open>hook_backend.cpp\<close>,
    \<^verbatim>\<open>frida_gum_backend.cpp\<close>.  These write memory, so their
    operations pass it through: what is installed can be removed byte for byte
    (locale \<open>reversible\<close>), a hook chains the
    original, chat reaches a plug-in only with the authority that memory proves.
  \<^item> \<^verbatim>\<open>Palmod_Control_Server\<close>: \<^verbatim>\<open>control_server.cpp\<close>.
  \<^item> This theory: what holds across loading, routing and dispatch.

  \<^bold>\<open>Conventions.\<close>  Structs are records, enumerations datatypes, machine integers words of their width
  (\<^verbatim>\<open>u8\<close> to \<^verbatim>\<open>u64\<close>) or bounded \<^typ>\<open>int\<close> and \<^typ>\<open>nat\<close>, strings lists of bytes.  A function that fails
  returns an outcome; one that mutates an object takes and returns its state.  Lock-protected sections
  are atomic steps.  The environment (files, kernel answers, the Lua scripts, addresses of compiled
  code, the game's functions) is an argument.

  \<^bold>\<open>Loops and bounds.\<close>  Every loop of the model terminates; the parser, the note scan, the pattern parser
  and the memory scan have measures, the layout and property walks the limits of the source (8
  levels, 512 fields, 64 super classes, 8 million objects).  The waits with a deadline and the retried
  \<^verbatim>\<open>pread\<close> run over the list of what they observe; a read that has not ended yet is \<open>None\<close>.

  \<^bold>\<open>Not modelled.\<close>  The Lua interpreter, its libraries and the text of the embedded standard library,
  and Frida Gum, which are not part of this code (their answers are parameters); the creation of
  threads as such.  Memory is one snapshot per call, although other threads write it, and a call that
  takes a lock is one step, so a data race inside such a call is not seen.
\<close>


section \<open>From loading to delivery\<close>

text \<open>The outcome of routing a line: the command \<open>c\<close> went to plug-in \<open>i\<close>, known as \<open>k\<close>, and to no other.\<close>

definition queued_at ::
  "string \<Rightarrow> plugin_instance \<Rightarrow> command_spec \<Rightarrow> string list \<Rightarrow> string \<Rightarrow> auth_state \<Rightarrow> plugins \<Rightarrow> route_result \<times> plugins \<Rightarrow> bool" where
  "queued_at k i c args player auth plugins out \<longleftrightarrow>
     rr_dispatched (fst out) \<and> rr_suppress (fst out) = cs_suppress c \<and>
     (\<exists>invocation. ci_command invocation = cs_name c \<and> ci_args invocation = args \<and>
        ci_player invocation = player \<and> ci_auth invocation = auth \<and> ci_plugin_id invocation = k \<and>
        smap_find (snd out) = (smap_find plugins)(k \<mapsto> i\<lparr>in_queue := [invocation]\<rparr>))"

lemma route_queued:
  assumes "smap_inv plugins" "(k, i) \<in> set plugins" "entry_ok r (k, i)" "in_running i"
    "c \<in> set (pm_commands (in_manifest i))" "parse_slash_command line = Inr parsed"
    "canonical (pc_name parsed) = canonical (cs_name c)" "cs_permission c = Everyone \<or> auth = Admin"
  shows "queued_at k i c (pc_args parsed) player auth plugins (route r line player h auth dispatch plugins)"
proof -
  let ?invocation = "\<lparr>ci_plugin_id = k, ci_command = cs_name c, ci_args = pc_args parsed, ci_raw = line,
    ci_player = player, ci_player_handle = h, ci_auth = auth, ci_principal = InGamePlayer, ci_operator_uid = 0\<rparr>"
  have ok: "cs_plugin_id c = k" "smap_find r (canonical (cs_name c)) = Some c" "\<not> in_stopping i" "in_queue i = []"
    using assms(3-5) by (auto simp: entry_ok_def commands_registered_def list_all_iff)
  have find: "smap_find plugins k = Some i"
    using assms(1,2) by (simp add: smap_find_iff)
  have "dispatch ?invocation plugins = (True, smap_put k (i\<lparr>in_queue := [?invocation]\<rparr>) plugins)"
    using find ok assms(4) by (simp add: dispatch_def enqueue_def kMaxCommandQueue_def)
  moreover have "\<not> (cs_permission c = ServerAdmin \<and> auth \<noteq> Admin)" using assms(8) by auto
  ultimately have "route r line player h auth dispatch plugins =
      (\<lparr>rr_matched = True, rr_suppress = cs_suppress c, rr_dispatched = True, rr_error = []\<rparr>,
       smap_put k (i\<lparr>in_queue := [?invocation]\<rparr>) plugins)"
    using assms(6,7) ok by (simp add: route_def Let_def)
  then show ?thesis
    using assms(1) by (simp add: queued_at_def smap_find_put) (rule exI [of _ ?invocation], simp)
qed

text \<open>C8: Loading, routing and dispatch fit together.  After a load, a slash command that names a declared
  command of a running plug-in, in any capitalisation and from a caller with the permission it asks
  for, is accepted and queued at exactly that plug-in with the arguments that were typed.\<close>

theorem declared_command_is_delivered:
  "case load_directory_report fs scripts root [] [] of
     (report, plugins, r) \<Rightarrow>
       list_all (\<lambda>(k, i). list_all (\<lambda>c.
         if in_running i \<and> parse_slash_command line = Inr parsed \<and> canonical (pc_name parsed) = canonical (cs_name c) \<and>
            (cs_permission c = Everyone \<or> auth = Admin)
         then queued_at k i c (pc_args parsed) player auth plugins (route r line player h auth dispatch plugins)
         else True) (pm_commands (in_manifest i))) plugins"
proof -
  obtain report plugins r where load: "load_directory_report fs scripts root [] [] = (report, plugins, r)"
    by (cases "load_directory_report fs scripts root [] []")
  then have "smap_inv plugins" "\<forall>ki \<in> set plugins. entry_ok r ki"
    using load_directory_inv(1) [OF load] by simp_all
  then show ?thesis
    using route_queued unfolding load prod.case list_all_iff by fastforce
qed

end
